(* ===== verification/Prelude.thy ===== *)
theory Prelude
  imports Main "HOL-Library.Char_ord" "HOL-Library.List_Lexorder" "HOL-Library.AList"
    "HOL-Library.Word"
begin

text \<open>
  What every other theory of the development shares:
  \<^item> the parts of Go's \<open>strings\<close>, \<open>sort\<close> and \<open>fmt\<close> packages the operator uses, on
    \<^typ>\<open>string\<close> (a list of bytes, as a Go string is);
  \<^item> Go maps as association lists (\<open>len\<close> must compute, and no operation of the operator
    depends on the iteration order of a map);
  \<^item> fallible, state-changing code as functions \<open>'s \<Rightarrow> ('e + 'a) \<times> 's\<close>, with the one
    sequencing combinator \<open>check\<close> that is Go's \<open>x, err := m; if err != nil {...}\<close>;
  \<^item> a small Hoare logic for such code (\<open>valid\<close>, \<open>keeps\<close>), whose rules are collected in
    \<open>valid_rules\<close> and \<open>keeps_rules\<close>.
\<close>

named_theorems keeps_rules \<open>preservation of an invariant by an operation\<close>
named_theorems valid_rules \<open>pre- and postcondition rules of an operation\<close>
named_theorems run_simps \<open>unfolding of the sequencing combinators\<close>
named_theorems go_strings \<open>unfolding of the string operations\<close>

section \<open>Strings\<close>

definition hasPrefix :: "string \<Rightarrow> string \<Rightarrow> bool" where
  [go_strings]: "hasPrefix s p \<longleftrightarrow> take (length p) s = p"

definition hasSuffix :: "string \<Rightarrow> string \<Rightarrow> bool" where
  [go_strings]: "hasSuffix s p \<longleftrightarrow> length p \<le> length s \<and> drop (length s - length p) s = p"

definition trimPrefix :: "string \<Rightarrow> string \<Rightarrow> string" where
  [go_strings]: "trimPrefix s p = (if hasPrefix s p then drop (length p) s else s)"

definition trimSuffix :: "string \<Rightarrow> string \<Rightarrow> string" where
  [go_strings]: "trimSuffix s p = (if hasSuffix s p then take (length s - length p) s else s)"

text \<open>The ASCII part of \<open>unicode.IsSpace\<close>: tab, line feed, vertical tab, form feed, carriage
  return and space.\<close>

definition isSpace :: "char \<Rightarrow> bool" where
  "isSpace c \<longleftrightarrow> c \<in> {CHR 0x09, CHR 0x0A, CHR 0x0B, CHR 0x0C, CHR 0x0D, CHR 0x20}"

definition trimSpace :: "string \<Rightarrow> string" where
  "trimSpace s = rev (dropWhile isSpace (rev (dropWhile isSpace s)))"

fun joinStr :: "string \<Rightarrow> string list \<Rightarrow> string" where
  "joinStr sep [] = []"
| "joinStr sep [x] = x"
| "joinStr sep (x # xs) = x @ sep @ joinStr sep xs"

text \<open>\<open>%q\<close>: the operand between double quotes. The names the operator quotes are DNS labels
  and tag values, which hold no character \<open>%q\<close> would escape.\<close>

definition quoted :: "string \<Rightarrow> string" where
  "quoted s = CHR 0x22 # s @ [CHR 0x22]"

definition orDefault :: "string \<Rightarrow> string \<Rightarrow> string" where
  "orDefault v d = (if v \<noteq> [] then v else d)"

text \<open>\<open>%d\<close> on a non-negative number, and on any number.\<close>

definition digitChar :: "nat \<Rightarrow> char" where
  "digitChar d = (char_of (48 + d) :: char)"

fun showNat :: "nat \<Rightarrow> string" where
  "showNat n = (if n < 10 then [digitChar n] else showNat (n div 10) @ [digitChar (n mod 10)])"

declare showNat.simps [simp del]

definition showInt :: "int \<Rightarrow> string" where
  "showInt i = (if i < 0 then CHR ''-'' # showNat (nat (- i)) else showNat (nat i))"

text \<open>\<open>strconv.ParseInt\<close> in base 10 at 64 bits, and \<open>strconv.Atoi\<close>.\<close>

definition decimal :: "char \<Rightarrow> bool" where
  "decimal c \<longleftrightarrow> 48 \<le> (of_char c :: nat) \<and> (of_char c :: nat) \<le> 57"

definition digitVal :: "char \<Rightarrow> nat" where
  "digitVal c = of_char c - 48"

definition digits :: "string \<Rightarrow> nat option" where
  "digits s = (if s = [] \<or> \<not> list_all decimal s then None else Some (foldl (\<lambda>n c. 10 * n + digitVal c) 0 s))"

definition ParseInt :: "string \<Rightarrow> int option" where
  "ParseInt s =
     (let neg = s \<noteq> [] \<and> hd s = CHR ''-''; signed = s \<noteq> [] \<and> (hd s = CHR ''-'' \<or> hd s = CHR ''+'') in
      case digits (if signed then tl s else s) of None \<Rightarrow> None
      | Some n \<Rightarrow> if neg then (if n \<le> 2 ^ 63 then Some (- int n) else None)
          else (if n < 2 ^ 63 then Some (int n) else None))"

text \<open>\<open>time.Duration.String\<close>, on nanoseconds: hours, minutes and seconds with a fraction, or a
  single sub-second unit; the micro sign is its two UTF-8 bytes.\<close>

definition padZeros :: "nat \<Rightarrow> string \<Rightarrow> string" where
  "padZeros n s = replicate (n - length s) (CHR ''0'') @ s"

definition fracStr :: "nat \<Rightarrow> nat \<Rightarrow> string" where
  "fracStr prec v =
     (let ds = rev (dropWhile (\<lambda>c. c = CHR ''0'') (rev (padZeros prec (showNat (v mod 10 ^ prec))))) in
      if v mod 10 ^ prec = 0 then [] else CHR ''.'' # ds)"

definition durString :: "int \<Rightarrow> string" where
  "durString d =
     (let u = nat \<bar>d\<bar>; sg = (if d < 0 then ''-'' else []); secs = u div 10 ^ 9 in
      if u = 0 then ''0s''
      else if u < 10 ^ 3 then sg @ showNat u @ ''ns''
      else if u < 10 ^ 6 then sg @ showNat (u div 10 ^ 3) @ fracStr 3 u @ [CHR 0xC2, CHR 0xB5, CHR ''s'']
      else if u < 10 ^ 9 then sg @ showNat (u div 10 ^ 6) @ fracStr 6 u @ ''ms''
      else sg @ (if 3600 \<le> secs then showNat (secs div 3600) @ ''h'' else []) @
        (if 60 \<le> secs then showNat (secs div 60 mod 60) @ ''m'' else []) @
        showNat (secs mod 60) @ fracStr 9 u @ ''s'')"

text \<open>Seconds, as a \<open>time.Duration\<close>.\<close>

definition seconds :: "int \<Rightarrow> int" where
  "seconds n = n * 10 ^ 9"

text \<open>\<open>Duration.Round(time.Second)\<close> on a non-negative duration: half a second rounds up.\<close>

definition roundSeconds :: "int \<Rightarrow> int" where
  "roundSeconds d = seconds ((d + 5 * 10 ^ 8) div 10 ^ 9)"

text \<open>Scheme and host of an absolute URL, as \<open>url.Parse\<close> splits them (a URL without scheme or
  without \<open>//\<close> has an empty host). Syntax errors inside the host are not modelled.\<close>

definition isSchemeChar :: "char \<Rightarrow> bool" where
  "isSchemeChar c \<longleftrightarrow> (let n = of_char c :: nat in
     (97 \<le> n \<and> n \<le> 122) \<or> (65 \<le> n \<and> n \<le> 90) \<or> (48 \<le> n \<and> n \<le> 57) \<or> c \<in> {CHR ''+'', CHR ''-'', CHR ''.''})"

definition urlParse :: "string \<Rightarrow> string \<times> string" where
  "urlParse raw =
     (let pre = takeWhile isSchemeChar raw; rest = dropWhile isSchemeChar raw;
          hasScheme = (pre \<noteq> [] \<and> rest \<noteq> [] \<and> hd rest = CHR '':'');
          scheme = (if hasScheme then pre else []);
          rest' = (if hasScheme then tl rest else raw);
          auth = takeWhile (\<lambda>c. c \<notin> {CHR ''/'', CHR ''?'', CHR ''#''}) (drop 2 rest')
      in (scheme, if hasPrefix rest' ''//'' then rev (takeWhile (\<lambda>c. c \<noteq> CHR ''@'') (rev auth)) else []))"

lemma hasPrefix_iff: "hasPrefix s p \<longleftrightarrow> (\<exists>r. s = p @ r)"
  unfolding hasPrefix_def by (metis append_eq_conv_conj append_take_drop_id)

lemma hasPrefix_append [simp]: "hasPrefix (p @ r) p"
  by (simp add: hasPrefix_iff)

lemma trimPrefix_append [simp]: "trimPrefix (p @ r) p = r"
  by (simp add: trimPrefix_def)

lemma hasSuffix_append [simp]: "hasSuffix (r @ p) p"
  by (simp add: hasSuffix_def)

lemma trimSuffix_append [simp]: "trimSuffix (r @ p) p = r"
  by (simp add: trimSuffix_def)

lemma orDefault_nonempty: "d \<noteq> [] \<Longrightarrow> orDefault v d \<noteq> []"
  by (simp add: orDefault_def)

lemma dropWhile_idem [simp]: "dropWhile P (dropWhile P xs) = dropWhile P xs"
  by (induction xs) auto

lemma dropWhile_rev_dropWhile:
  "dropWhile P (rev (dropWhile P (rev (dropWhile P xs)))) = rev (dropWhile P (rev (dropWhile P xs)))"
proof (cases "rev (dropWhile P (rev (dropWhile P xs)))")
  case Nil
  then show ?thesis by (metis dropWhile.simps(1))
next
  case (Cons y ys)
  obtain zs where zs: "dropWhile P xs = rev (dropWhile P (rev (dropWhile P xs))) @ zs"
    by (metis rev_append rev_rev_ident takeWhile_dropWhile_id)
  with Cons have "dropWhile P xs = y # ys @ zs" by simp
  then have "\<not> P y" by (metis dropWhile_eq_Cons_conv)
  with Cons show ?thesis by simp
qed

lemma trimSpace_idem [simp]: "trimSpace (trimSpace s) = trimSpace s"
  unfolding trimSpace_def by (simp add: dropWhile_rev_dropWhile)

lemma trimSpace_Nil [simp]: "trimSpace [] = []"
  by (simp add: trimSpace_def)

section \<open>Go maps with string keys\<close>

type_synonym 'v gomap = "(string \<times> 'v) list"

text \<open>Indexing a \<open>map[string]string\<close> yields the empty string for an absent key.\<close>

definition mget :: "string gomap \<Rightarrow> string \<Rightarrow> string" where
  "mget m k = (case map_of m k of None \<Rightarrow> [] | Some v \<Rightarrow> v)"

definition mput :: "string \<Rightarrow> 'v \<Rightarrow> 'v gomap \<Rightarrow> 'v gomap" where
  "mput k v m = AList.update k v m"

lemma map_of_mput [simp]: "map_of (mput k v m) = (map_of m)(k \<mapsto> v)"
  by (simp add: mput_def update_conv')

lemma mget_mput [simp]: "mget (mput k v m) k' = (if k' = k then v else mget m k')"
  by (simp add: mget_def)

lemma mget_Nil [simp]: "mget [] k = []"
  by (simp add: mget_def)

lemma mput_not_Nil [simp]: "mput k v m \<noteq> []"
  by (cases m) (auto simp: mput_def)

lemma distinct_mput: "distinct (map fst m) \<Longrightarrow> distinct (map fst (mput k v m))"
  by (simp add: mput_def distinct_update)

section \<open>Fallible, state-changing code\<close>

text \<open>A handler maps a state to a result and a new state; a fallible operation is a handler
  whose result is an error (\<^const>\<open>Inl\<close>) or a value (\<^const>\<open>Inr\<close>).\<close>

type_synonym ('s, 'r) handler = "'s \<Rightarrow> 'r \<times> 's"
type_synonym ('s, 'e, 'a) fallible = "('s, 'e + 'a) handler"

definition ret :: "'a \<Rightarrow> ('s, 'e, 'a) fallible" where
  [run_simps]: "ret a = (\<lambda>s. (Inr a, s))"

definition fault :: "'e \<Rightarrow> ('s, 'e, 'a) fallible" where
  [run_simps]: "fault e = (\<lambda>s. (Inl e, s))"

text \<open>\<open>x, err := m; if err != nil { h err } ; k x\<close>.\<close>

definition check :: "('s, 'e, 'a) fallible \<Rightarrow> ('e \<Rightarrow> ('s, 'r) handler) \<Rightarrow> ('a \<Rightarrow> ('s, 'r) handler)
    \<Rightarrow> ('s, 'r) handler" where
  [run_simps]: "check m h k = (\<lambda>s. case m s of (Inl e, s') \<Rightarrow> h e s' | (Inr a, s') \<Rightarrow> k a s')"

text \<open>\<open>if err != nil { return err }\<close>.\<close>

abbreviation andThen :: "('s, 'e, 'a) fallible \<Rightarrow> ('a \<Rightarrow> ('s, 'e, 'b) fallible)
    \<Rightarrow> ('s, 'e, 'b) fallible" where
  "andThen m k \<equiv> check m fault k"

text \<open>A handler that cannot fail, followed by another; reading and writing the state.\<close>

definition after :: "('s, 'r) handler \<Rightarrow> ('r \<Rightarrow> ('s, 'q) handler) \<Rightarrow> ('s, 'q) handler" where
  [run_simps]: "after m k = (\<lambda>s. case m s of (r, s') \<Rightarrow> k r s')"

definition finish :: "'r \<Rightarrow> ('s, 'r) handler" where
  [run_simps]: "finish r = (\<lambda>s. (r, s))"

definition reads :: "('s \<Rightarrow> ('s, 'r) handler) \<Rightarrow> ('s, 'r) handler" where
  [run_simps]: "reads f = (\<lambda>s. f s s)"

definition sets :: "('s \<Rightarrow> 's) \<Rightarrow> ('s, unit) handler" where
  [run_simps]: "sets f = (\<lambda>s. ((), f s))"

abbreviation andDo :: "('s, unit) handler \<Rightarrow> ('s, 'q) handler \<Rightarrow> ('s, 'q) handler" where
  "andDo m k \<equiv> after m (\<lambda>_. k)"

text \<open>The combinators applied to a state, in terms of the result and the final state of their parts.\<close>

named_theorems exec \<open>running the combinators\<close>

lemma after_run [exec]: "after m k s = k (fst (m s)) (snd (m s))"
  by (simp add: after_def split: prod.split)

lemma check_run [exec]:
  "check m h k s = (case fst (m s) of Inl e \<Rightarrow> h e (snd (m s)) | Inr a \<Rightarrow> k a (snd (m s)))"
  by (simp add: check_def split: prod.split sum.split)

lemma simple_run [exec]:
  "reads f s = f s s" "sets g s = ((), g s)" "finish r s = (r, s)" "ret a s = (Inr a, s)" "fault e s = (Inl e, s)"
  by (simp_all add: run_simps)

section \<open>Hoare triples\<close>

definition valid :: "('s \<Rightarrow> bool) \<Rightarrow> ('s, 'r) handler \<Rightarrow> ('r \<Rightarrow> 's \<Rightarrow> bool) \<Rightarrow> bool" where
  "valid P m Q \<longleftrightarrow> (\<forall>s. P s \<longrightarrow> (case m s of (r, s') \<Rightarrow> Q r s'))"

definition keeps :: "('s \<Rightarrow> bool) \<Rightarrow> ('s, 'r) handler \<Rightarrow> bool" where
  "keeps I m \<longleftrightarrow> valid I m (\<lambda>_. I)"

lemma validI: "(\<And>s r s'. P s \<Longrightarrow> m s = (r, s') \<Longrightarrow> Q r s') \<Longrightarrow> valid P m Q"
  by (auto simp: valid_def)

lemma validD: "valid P m Q \<Longrightarrow> P s \<Longrightarrow> m s = (r, s') \<Longrightarrow> Q r s'"
  by (auto simp: valid_def)

lemma keepsI: "(\<And>s r s'. I s \<Longrightarrow> m s = (r, s') \<Longrightarrow> I s') \<Longrightarrow> keeps I m"
  by (auto simp: keeps_def valid_def)

lemma keepsD: "keeps I m \<Longrightarrow> I s \<Longrightarrow> m s = (r, s') \<Longrightarrow> I s'"
  by (auto simp: keeps_def valid_def)

lemma keeps_snd: "keeps I m \<Longrightarrow> I s \<Longrightarrow> I (snd (m s))"
  by (cases "m s") (auto dest: keepsD)

lemma valid_weaken: "valid P' m Q' \<Longrightarrow> (\<And>s. P s \<Longrightarrow> P' s) \<Longrightarrow> (\<And>r s. Q' r s \<Longrightarrow> Q r s) \<Longrightarrow> valid P m Q"
  by (fastforce simp: valid_def)

lemma valid_ret [valid_rules]: "valid (Q (Inr a)) (ret a) Q"
  by (simp add: valid_def ret_def)

lemma valid_fault [valid_rules]: "valid (Q (Inl e)) (fault e) Q"
  by (simp add: valid_def fault_def)

lemma valid_finish [valid_rules]: "valid (Q r) (finish r) Q"
  by (simp add: valid_def finish_def)

lemma valid_sets [valid_rules]: "valid (\<lambda>s. Q () (f s)) (sets f) Q"
  by (simp add: valid_def sets_def)

lemma valid_reads [valid_rules]: "(\<And>s. P s \<Longrightarrow> valid (\<lambda>t. t = s) (f s) Q) \<Longrightarrow> valid P (reads f) Q"
  by (auto simp: valid_def reads_def)

lemma valid_readsI: "(\<And>s. valid P (f s) Q) \<Longrightarrow> valid P (reads f) Q"
  by (auto simp: valid_def reads_def)

lemma valid_check [valid_rules]:
  assumes "valid P m (\<lambda>r. case r of Inl e \<Rightarrow> E e | Inr a \<Rightarrow> R a)"
    and "\<And>e. valid (E e) (h e) Q"
    and "\<And>a. valid (R a) (k a) Q"
  shows "valid P (check m h k) Q"
proof (rule validI)
  fix s r s'
  assume P: "P s" and run: "check m h k s = (r, s')"
  obtain x t where x: "m s = (x, t)" by (cases "m s") auto
  with assms(1) P have "case x of Inl e \<Rightarrow> E e t | Inr a \<Rightarrow> R a t"
    by (auto dest: validD split: sum.splits)
  with x run assms(2,3) show "Q r s'"
    by (auto simp: check_def dest: validD split: sum.splits)
qed

lemma valid_after [valid_rules]:
  "valid P m R \<Longrightarrow> (\<And>x. valid (R x) (k x) Q) \<Longrightarrow> valid P (after m k) Q"
  by (fastforce simp: valid_def after_def split: prod.splits)

lemma valid_if: "(b \<Longrightarrow> valid P m Q) \<Longrightarrow> (\<not> b \<Longrightarrow> valid P n Q) \<Longrightarrow> valid P (if b then m else n) Q"
  by simp

lemma valid_option:
  "(x = None \<Longrightarrow> valid P m Q) \<Longrightarrow> (\<And>a. x = Some a \<Longrightarrow> valid P (n a) Q) \<Longrightarrow>
    valid P (case x of None \<Rightarrow> m | Some a \<Rightarrow> n a) Q"
  by (cases x) auto

lemma valid_prod: "(\<And>a b. x = (a, b) \<Longrightarrow> valid P (n a b) Q) \<Longrightarrow> valid P (case x of (a, b) \<Rightarrow> n a b) Q"
  by (cases x) auto

lemma valid_sum:
  "(\<And>e. x = Inl e \<Longrightarrow> valid P (m e) Q) \<Longrightarrow> (\<And>a. x = Inr a \<Longrightarrow> valid P (n a) Q) \<Longrightarrow>
    valid P (case x of Inl e \<Rightarrow> m e | Inr a \<Rightarrow> n a) Q"
  by (cases x) auto

lemma valid_let: "valid P (f t) Q \<Longrightarrow> valid P (let x = t in f x) Q"
  by simp

lemma valid_end: "(\<And>s. P s \<Longrightarrow> Q (Inr a) s) \<Longrightarrow> valid P (ret a) Q" "(\<And>s. P s \<Longrightarrow> R (Inl e) s) \<Longrightarrow> valid P (fault e) R"
  "(\<And>s. P s \<Longrightarrow> T x s) \<Longrightarrow> valid P (finish x) T"
  by (auto simp: valid_def ret_def fault_def finish_def)

lemma keeps_ret [keeps_rules]: "keeps I (ret a)"
  by (simp add: keeps_def valid_def ret_def)

lemma keeps_fault [keeps_rules]: "keeps I (fault e)"
  by (simp add: keeps_def valid_def fault_def)

lemma keeps_finish [keeps_rules]: "keeps I (finish r)"
  by (simp add: keeps_def valid_def finish_def)

lemma keeps_check [keeps_rules]:
  "keeps I m \<Longrightarrow> (\<And>e. keeps I (h e)) \<Longrightarrow> (\<And>a. keeps I (k a)) \<Longrightarrow> keeps I (check m h k)"
  unfolding keeps_def
  by (rule valid_check [where E = "\<lambda>_. I" and R = "\<lambda>_. I"])
    (auto intro: valid_weaken split: sum.splits)

lemma keeps_after [keeps_rules]:
  "keeps I m \<Longrightarrow> (\<And>x. keeps I (k x)) \<Longrightarrow> keeps I (after m k)"
  unfolding keeps_def by (rule valid_after)

lemma keeps_reads [keeps_rules]: "(\<And>s. keeps I (f s)) \<Longrightarrow> keeps I (reads f)"
  by (auto simp: keeps_def valid_def reads_def)

lemma keeps_if [keeps_rules]:
  "(b \<Longrightarrow> keeps I m) \<Longrightarrow> (\<not> b \<Longrightarrow> keeps I n) \<Longrightarrow> keeps I (if b then m else n)"
  by simp

lemma keeps_option [keeps_rules]:
  "(x = None \<Longrightarrow> keeps I m) \<Longrightarrow> (\<And>a. x = Some a \<Longrightarrow> keeps I (n a)) \<Longrightarrow>
    keeps I (case x of None \<Rightarrow> m | Some a \<Rightarrow> n a)"
  by (cases x) auto

lemma keeps_prod [keeps_rules]:
  "(\<And>a b. x = (a, b) \<Longrightarrow> keeps I (n a b)) \<Longrightarrow> keeps I (case x of (a, b) \<Rightarrow> n a b)"
  by (cases x) auto

lemma keeps_sum [keeps_rules]:
  "(\<And>e. x = Inl e \<Longrightarrow> keeps I (m e)) \<Longrightarrow> (\<And>a. x = Inr a \<Longrightarrow> keeps I (n a)) \<Longrightarrow>
    keeps I (case x of Inl e \<Rightarrow> m e | Inr a \<Rightarrow> n a)"
  by (cases x) auto

lemma keeps_let [keeps_rules]: "keeps I (f t) \<Longrightarrow> keeps I (let x = t in f x)"
  by simp

lemma keeps_sets: "(\<And>s. I s \<Longrightarrow> I (f s)) \<Longrightarrow> keeps I (sets f)"
  by (simp add: keeps_def valid_def sets_def)

text \<open>A triple beside an invariant, and reading the state under one.\<close>

lemma valid_conj: "valid P m Q \<Longrightarrow> keeps I m \<Longrightarrow> valid (\<lambda>s. I s \<and> P s) m (\<lambda>x s. I s \<and> Q x s)"
  by (fastforce simp: valid_def keeps_def)

lemma valid_reads_inv:
  "(\<And>s. I s \<Longrightarrow> valid (\<lambda>s. I s \<and> P s) (f s) Q) \<Longrightarrow> valid (\<lambda>s. I s \<and> P s) (reads f) Q"
  by (auto simp: valid_def reads_def)

end
