(* ===== verification/Json.thy ===== *)
theory Json
  imports Prelude
begin

text \<open>
  The part of Go's standard \<open>encoding/json\<close> the operator relies on: \<open>json.Marshal\<close> of
  maps, slices and strings (object keys sorted, HTML characters escaped), \<open>json.Unmarshal\<close>
  into \<open>any\<close>, and \<open>json.Valid\<close>. The parser is a recursive descent with fuel;
  \<open>pval_enough\<close> shows that the fuel \<open>unmarshal\<close> supplies suffices, and
  \<open>unmarshal_marshal\<close> is the round trip of every document without numbers (the bucket
  policies hold none; a number keeps its literal text here, where Go keeps a \<open>float64\<close>).
\<close>

datatype json =
    JNull
  | JBool bool
  | JNum string
  | JStr string
  | JArr "json list"
  | JObj "(string \<times> json) list"

section \<open>Printing\<close>

definition hexDigit :: "nat \<Rightarrow> char" where
  "hexDigit d = (if d < 10 then char_of (48 + d) else char_of (87 + d))"

definition escChar :: "char \<Rightarrow> string" where
  "escChar c =
     (if c = CHR 0x22 then [CHR 0x5C, CHR 0x22]
      else if c = CHR 0x5C then [CHR 0x5C, CHR 0x5C]
      else if c = CHR 0x08 then [CHR 0x5C, CHR ''b'']
      else if c = CHR 0x0C then [CHR 0x5C, CHR ''f'']
      else if c = CHR 0x0A then [CHR 0x5C, CHR ''n'']
      else if c = CHR 0x0D then [CHR 0x5C, CHR ''r'']
      else if c = CHR 0x09 then [CHR 0x5C, CHR ''t'']
      else if (of_char c :: nat) < 32 \<or> c \<in> {CHR ''<'', CHR ''>'', CHR ''&''}
        then [CHR 0x5C, CHR ''u'', CHR ''0'', CHR ''0'',
              hexDigit (of_char c div 16), hexDigit (of_char c mod 16)]
      else [c])"

definition printStr :: "string \<Rightarrow> string" where
  "printStr s = CHR 0x22 # concat (map escChar s) @ [CHR 0x22]"

definition printMember :: "string \<times> string \<Rightarrow> string" where
  "printMember kv = printStr (fst kv) @ CHR '':'' # snd kv"

primrec printJson :: "json \<Rightarrow> string" where
  "printJson JNull = ''null''"
| "printJson (JBool b) = (if b then ''true'' else ''false'')"
| "printJson (JNum n) = n"
| "printJson (JStr s) = printStr s"
| "printJson (JArr vs) = CHR ''['' # joinStr '','' (map printJson vs) @ '']''"
| "printJson (JObj kvs) =
     CHR ''{'' # joinStr '','' (map printMember (map (map_prod id printJson) kvs)) @ ''}''"

text \<open>A Go map holds each key once (a later duplicate wins) and is marshalled in key order.\<close>

definition asMap :: "(string \<times> json) list \<Rightarrow> (string \<times> json) list" where
  "asMap kvs = sort_key fst (fold (\<lambda>kv m. mput (fst kv) (snd kv) m) kvs [])"

primrec canon :: "json \<Rightarrow> json" where
  "canon JNull = JNull"
| "canon (JBool b) = JBool b"
| "canon (JNum n) = JNum n"
| "canon (JStr s) = JStr s"
| "canon (JArr vs) = JArr (map canon vs)"
| "canon (JObj kvs) = JObj (asMap (map (map_prod id canon) kvs))"

definition marshal :: "json \<Rightarrow> string" where
  "marshal v = printJson (canon v)"

section \<open>Parsing\<close>

definition isWs :: "char \<Rightarrow> bool" where
  "isWs c \<longleftrightarrow> c \<in> {CHR 0x20, CHR 0x09, CHR 0x0A, CHR 0x0D}"

definition skipWs :: "string \<Rightarrow> string" where
  "skipWs s = dropWhile isWs s"

definition hexVal :: "char \<Rightarrow> nat option" where
  "hexVal c = (let n = of_char c in
     if 48 \<le> n \<and> n \<le> 57 then Some (n - 48)
     else if 97 \<le> n \<and> n \<le> 102 then Some (n - 87)
     else if 65 \<le> n \<and> n \<le> 70 then Some (n - 55) else None)"

definition hex4 :: "char \<Rightarrow> char \<Rightarrow> char \<Rightarrow> char \<Rightarrow> nat option" where
  "hex4 a b c d =
     (case (hexVal a, hexVal b, hexVal c, hexVal d) of
        (Some w, Some x, Some y, Some z) \<Rightarrow> Some (((w * 16 + x) * 16 + y) * 16 + z)
      | _ \<Rightarrow> None)"

definition utf8 :: "nat \<Rightarrow> string" where
  "utf8 u =
     (if u < 128 then [char_of u]
      else if u < 2048 then [char_of (192 + u div 64), char_of (128 + u mod 64)]
      else if u < 65536 then [char_of (224 + u div 4096), char_of (128 + u div 64 mod 64),
        char_of (128 + u mod 64)]
      else [char_of (240 + u div 262144), char_of (128 + u div 4096 mod 64),
        char_of (128 + u div 64 mod 64), char_of (128 + u mod 64)])"

text \<open>A UTF-16 surrogate counts only as the first half of a pair; anything else is U+FFFD.
  The second component is the number of further bytes the pair consumes.\<close>

definition decodeUnit :: "nat \<Rightarrow> string \<Rightarrow> string \<times> nat" where
  "decodeUnit u r =
     (if 55296 \<le> u \<and> u < 56320 then
        (case r of e # t # a # b # c # d # _ \<Rightarrow>
             (case hex4 a b c d of
                Some w \<Rightarrow> if e = CHR 0x5C \<and> t = CHR ''u'' \<and> 56320 \<le> w \<and> w < 57344
                  then (utf8 (65536 + (u - 55296) * 1024 + (w - 56320)), 6) else (utf8 65533, 0)
              | None \<Rightarrow> (utf8 65533, 0))
         | _ \<Rightarrow> (utf8 65533, 0))
      else if 56320 \<le> u \<and> u < 57344 then (utf8 65533, 0) else (utf8 u, 0))"

definition simpleEsc :: "char \<Rightarrow> char option" where
  "simpleEsc e = map_of [(CHR 0x22, CHR 0x22), (CHR 0x5C, CHR 0x5C), (CHR ''/'', CHR ''/''),
     (CHR ''b'', CHR 0x08), (CHR ''f'', CHR 0x0C), (CHR ''n'', CHR 0x0A),
     (CHR ''r'', CHR 0x0D), (CHR ''t'', CHR 0x09)] e"

text \<open>The rest of a string literal after its opening quote.\<close>

fun pstr :: "string \<Rightarrow> (string \<times> string) option" where
  "pstr [] = None"
| "pstr (c # r) =
     (if c = CHR 0x22 then Some ([], r)
      else if c = CHR 0x5C then
        (case r of [] \<Rightarrow> None
         | e # r1 \<Rightarrow>
             (case simpleEsc e of
                Some d \<Rightarrow> map_option (apfst (Cons d)) (pstr r1)
              | None \<Rightarrow>
                  if e = CHR ''u'' then
                    (case r1 of a # b # c' # d # r2 \<Rightarrow>
                         (case hex4 a b c' d of None \<Rightarrow> None
                          | Some u \<Rightarrow> map_option (apfst (append (fst (decodeUnit u r2))))
                              (pstr (drop (snd (decodeUnit u r2)) r2)))
                     | _ \<Rightarrow> None)
                  else None))
      else if (of_char c :: nat) < 32 then None
      else map_option (apfst (Cons c)) (pstr r))"

declare pstr.simps(2) [simp del]

definition isDigit :: "char \<Rightarrow> bool" where
  "isDigit c \<longleftrightarrow> 48 \<le> (of_char c :: nat) \<and> (of_char c :: nat) \<le> 57"

definition pint :: "string \<Rightarrow> (string \<times> string) option" where
  "pint s = (case s of [] \<Rightarrow> None
     | c # r \<Rightarrow> if c = CHR ''0'' then Some ([c], r)
         else if isDigit c then Some (takeWhile isDigit s, dropWhile isDigit s) else None)"

definition pfrac :: "string \<Rightarrow> (string \<times> string) option" where
  "pfrac s = (case s of [] \<Rightarrow> Some ([], s)
     | c # r \<Rightarrow> if c \<noteq> CHR ''.'' then Some ([], s)
         else if takeWhile isDigit r = [] then None
         else Some (c # takeWhile isDigit r, dropWhile isDigit r))"

definition pexp :: "string \<Rightarrow> (string \<times> string) option" where
  "pexp s = (case s of [] \<Rightarrow> Some ([], s)
     | c # r \<Rightarrow> if c \<noteq> CHR ''e'' \<and> c \<noteq> CHR ''E'' then Some ([], s)
         else (let sg = (if r \<noteq> [] \<and> (hd r = CHR ''+'' \<or> hd r = CHR ''-'') then [hd r] else []);
                   t = drop (length sg) r in
               if takeWhile isDigit t = [] then None
               else Some (c # sg @ takeWhile isDigit t, dropWhile isDigit t)))"

definition pnum :: "string \<Rightarrow> (json \<times> string) option" where
  "pnum s = (let sg = (if s \<noteq> [] \<and> hd s = CHR ''-'' then ''-'' else []) in
     case pint (drop (length sg) s) of None \<Rightarrow> None
     | Some (i, r) \<Rightarrow> (case pfrac r of None \<Rightarrow> None
       | Some (f, r') \<Rightarrow> (case pexp r' of None \<Rightarrow> None
         | Some (e, r'') \<Rightarrow> Some (JNum (sg @ i @ f @ e), r''))))"

definition plit :: "string \<Rightarrow> json \<Rightarrow> string \<Rightarrow> (json \<times> string) option" where
  "plit w v s = (if hasPrefix s w then Some (v, drop (length w) s) else None)"

fun pval :: "nat \<Rightarrow> string \<Rightarrow> (json \<times> string) option"
and parr :: "nat \<Rightarrow> string \<Rightarrow> (json list \<times> string) option"
and pobj :: "nat \<Rightarrow> string \<Rightarrow> ((string \<times> json) list \<times> string) option" where
  "pval 0 s = None"
| "pval (Suc n) s =
     (case skipWs s of [] \<Rightarrow> None
      | c # r \<Rightarrow>
          if c = CHR ''{'' then
            (if skipWs r \<noteq> [] \<and> hd (skipWs r) = CHR ''}'' then Some (JObj [], tl (skipWs r))
             else map_option (apfst JObj) (pobj n r))
          else if c = CHR ''['' then
            (if skipWs r \<noteq> [] \<and> hd (skipWs r) = CHR '']'' then Some (JArr [], tl (skipWs r))
             else map_option (apfst JArr) (parr n r))
          else if c = CHR 0x22 then map_option (apfst JStr) (pstr r)
          else if c = CHR ''t'' then plit ''true'' (JBool True) (c # r)
          else if c = CHR ''f'' then plit ''false'' (JBool False) (c # r)
          else if c = CHR ''n'' then plit ''null'' JNull (c # r)
          else pnum (c # r))"
| "parr 0 s = None"
| "parr (Suc n) s =
     (case pval n s of None \<Rightarrow> None
      | Some (v, r) \<Rightarrow>
          (case skipWs r of [] \<Rightarrow> None
           | c # r' \<Rightarrow> if c = CHR '']'' then Some ([v], r')
               else if c = CHR '','' then map_option (apfst (Cons v)) (parr n r') else None))"
| "pobj 0 s = None"
| "pobj (Suc n) s =
     (case skipWs s of [] \<Rightarrow> None
      | q # s1 \<Rightarrow> if q \<noteq> CHR 0x22 then None else
          (case pstr s1 of None \<Rightarrow> None
           | Some (k, s2) \<Rightarrow>
               (case skipWs s2 of [] \<Rightarrow> None
                | co # s3 \<Rightarrow> if co \<noteq> CHR '':'' then None else
                    (case pval n s3 of None \<Rightarrow> None
                     | Some (v, r) \<Rightarrow>
                         (case skipWs r of [] \<Rightarrow> None
                          | c # r' \<Rightarrow> if c = CHR ''}'' then Some ([(k, v)], r')
                              else if c = CHR '','' then map_option (apfst (Cons (k, v))) (pobj n r')
                              else None)))))"

definition unmarshal :: "string \<Rightarrow> json option" where
  "unmarshal s = (case pval (2 * length s + 1) s of
     Some (v, r) \<Rightarrow> if skipWs r = [] then Some v else None
   | None \<Rightarrow> None)"

text \<open>\<open>json.Valid\<close>.\<close>

definition jsonValid :: "string \<Rightarrow> bool" where
  "jsonValid s \<longleftrightarrow> unmarshal s \<noteq> None"

section \<open>The fuel is enough\<close>

lemma skipWs_length: "length (skipWs s) \<le> length s"
  by (simp add: skipWs_def length_dropWhile_le)

lemma skipWs_Cons_length: "skipWs s = c # r \<Longrightarrow> length r < length s"
  using skipWs_length [of s] by simp

lemma pstr_shorter: "pstr s = Some (v, r) \<Longrightarrow> length r < length s"
proof (induction s arbitrary: v r rule: length_induct)
  case (1 s)
  have IH: "length r < length s" if "pstr t = Some (v, r)" "length t < length s" for t v r
    using "1.IH" that by fastforce
  from "1.prems" obtain c t where s: "s = c # t" by (cases s) auto
  from "1.prems" show ?case
    unfolding s by (subst (asm) pstr.simps)
      (auto simp: s split: if_splits list.splits option.splits dest: IH)
qed

lemma pint_shorter: "pint s = Some (v, r) \<Longrightarrow> length r < length s"
  using length_dropWhile_le [of isDigit "tl s"]
  by (auto simp: pint_def split: list.splits if_splits)

lemma pfrac_shorter: "pfrac s = Some (v, r) \<Longrightarrow> length r \<le> length s"
  using length_dropWhile_le [of isDigit "tl s"]
  by (auto simp: pfrac_def split: list.splits if_splits)

lemma pexp_shorter: "pexp s = Some (v, r) \<Longrightarrow> length r \<le> length s"
  using length_dropWhile_le [of isDigit "tl s"] length_dropWhile_le [of isDigit "drop 1 (tl s)"]
  by (auto simp: pexp_def Let_def split: list.splits if_splits)

lemma pnum_shorter: "pnum s = Some (v, r) \<Longrightarrow> length r < length s"
  by (fastforce simp: pnum_def Let_def split: option.splits prod.splits if_splits
      dest: pint_shorter pfrac_shorter pexp_shorter)

lemma plit_shorter: "plit w v s = Some (v', r) \<Longrightarrow> w \<noteq> [] \<Longrightarrow> length r < length s"
  by (auto simp: plit_def hasPrefix_iff split: if_splits)

lemma pval_shorter:
  "(pval n s = Some (v, r) \<longrightarrow> length r < length s) \<and>
   (parr n s = Some (vs, r) \<longrightarrow> length r < length s) \<and>
   (pobj n s = Some (kvs, r) \<longrightarrow> length r < length s)"
proof (induction n arbitrary: s v vs kvs r)
  case 0
  then show ?case by simp
next
  case (Suc n)
  have v: "pval n s = Some (v, r) \<Longrightarrow> length r < length s"
    and a: "parr n s = Some (vs, r) \<Longrightarrow> length r < length s"
    and o: "pobj n s = Some (kvs, r) \<Longrightarrow> length r < length s" for s v vs kvs r
    using Suc.IH by blast+
  have 1: "length r < length s" if "pval (Suc n) s = Some (v, r)"
    using that skipWs_length [of "tl (skipWs s)"]
    by (fastforce split: list.splits if_splits
        dest: skipWs_Cons_length v a o pstr_shorter plit_shorter pnum_shorter)
  have 2: "length r < length s" if "parr (Suc n) s = Some (vs, r)"
    using that
    by (fastforce split: list.splits if_splits option.splits prod.splits
        dest: skipWs_Cons_length v a)
  have 3: "length r < length s" if "pobj (Suc n) s = Some (kvs, r)"
    using that
    by (fastforce split: list.splits if_splits option.splits prod.splits
        dest: skipWs_Cons_length v o pstr_shorter)
  from 1 2 3 show ?case by blast
qed

lemmas pval_less = pval_shorter [THEN conjunct1, rule_format]

text \<open>A parse that succeeds with some fuel succeeds, with the same result, with any fuel that
  is twice the length of its input.\<close>

lemma pval_enough:
  "(pval n s = Some x \<longrightarrow> (\<forall>m \<ge> 2 * length s + 1. pval m s = Some x)) \<and>
   (parr n s = Some y \<longrightarrow> (\<forall>m \<ge> 2 * length s + 2. parr m s = Some y)) \<and>
   (pobj n s = Some z \<longrightarrow> (\<forall>m \<ge> 2 * length s + 2. pobj m s = Some z))"
proof (induction n arbitrary: s x y z)
  case 0
  then show ?case by simp
next
  case (Suc n)
  have v: "pval n s = Some x \<Longrightarrow> 2 * length s + 1 \<le> m \<Longrightarrow> pval m s = Some x"
    and a: "parr n s = Some y \<Longrightarrow> 2 * length s + 2 \<le> m \<Longrightarrow> parr m s = Some y"
    and o: "pobj n s = Some z \<Longrightarrow> 2 * length s + 2 \<le> m \<Longrightarrow> pobj m s = Some z" for s x y z m
    using Suc.IH by blast+
  have 1: "pval m s = Some x" if r: "pval (Suc n) s = Some x" and m: "2 * length s + 1 \<le> m" for m
  proof (cases "skipWs s")
    case Nil
    with r show ?thesis by simp
  next
    case (Cons c t)
    obtain k where k: "m = Suc k" using m by (cases m) auto
    have t: "2 * length t + 2 \<le> k"
      using skipWs_Cons_length [OF Cons] m k by simp
    have A: "map_option (apfst JArr) (parr k t) = Some x"
      if "map_option (apfst JArr) (parr n t) = Some x"
      using that a [OF _ t] by (cases "parr n t") auto
    have O: "map_option (apfst JObj) (pobj k t) = Some x"
      if "map_option (apfst JObj) (pobj n t) = Some x"
      using that o [OF _ t] by (cases "pobj n t") auto
    from r Cons A O show ?thesis
      unfolding k by (simp split: if_splits) blast+
  qed
  have 2: "parr m s = Some y" if r: "parr (Suc n) s = Some y" and m: "2 * length s + 2 \<le> m" for m
  proof -
    obtain k where k: "m = Suc k" using m by (cases m) auto
    have kv: "pval k s = Some x" if "pval n s = Some x" for x
      using v [OF that] m k by simp
    have "parr k r' = Some y" if "pval n s = Some (w, r)" "skipWs r = c # r'" "parr n r' = Some y"
      for w r c r' y
      using a [OF that(3)] pval_less [OF that(1)] skipWs_Cons_length [OF that(2)] m k by simp
    with r kv show ?thesis
      unfolding k by (auto split: list.splits if_splits option.splits prod.splits)
  qed
  have 3: "pobj m s = Some z" if r: "pobj (Suc n) s = Some z" and m: "2 * length s + 2 \<le> m" for m
  proof -
    obtain k where k: "m = Suc k" using m by (cases m) auto
    have kv: "pval k s3 = Some x" if "skipWs s = q # s1" "pstr s1 = Some (w, s2)"
      "skipWs s2 = co # s3" "pval n s3 = Some x" for q s1 w s2 co s3 x
      using v [OF that(4)] skipWs_Cons_length [OF that(1)] pstr_shorter [OF that(2)]
        skipWs_Cons_length [OF that(3)] m k by simp
    have "pobj k r' = Some z" if "skipWs s = q # s1" "pstr s1 = Some (w, s2)"
      "skipWs s2 = co # s3" "pval n s3 = Some (u, r)" "skipWs r = c # r'" "pobj n r' = Some z"
      for q s1 w s2 co s3 u r c r' z
      using o [OF that(6)] skipWs_Cons_length [OF that(1)] pstr_shorter [OF that(2)]
        skipWs_Cons_length [OF that(3)] pval_less [OF that(4)] skipWs_Cons_length [OF that(5)] m k
      by simp
    with r kv show ?thesis
      unfolding k by (auto split: list.splits if_splits option.splits prod.splits)
  qed
  from 1 2 3 show ?case by blast
qed

lemma unmarshal_fuel:
  assumes "pval n s = Some (v, r)" and "skipWs r = []"
  shows "unmarshal s = Some v"
proof -
  have "pval (2 * length s + 1) s = Some (v, r)"
    using pval_enough [of n s "(v, r)"] assms(1) by blast
  with assms(2) show ?thesis by (simp add: unmarshal_def del: pval.simps)
qed

section \<open>The round trip\<close>

lemma hexVal_hexDigit [simp]: "d < 16 \<Longrightarrow> hexVal (hexDigit d) = Some d"
  by (simp add: hexVal_def hexDigit_def Let_def)

lemma hexVal_0 [simp]: "hexVal (CHR ''0'') = Some 0"
  by (simp add: hexVal_def)

lemma decodeUnit_byte: "u < 128 \<Longrightarrow> decodeUnit u r = ([char_of u], 0)"
  by (simp add: decodeUnit_def utf8_def)

lemma append_single: "(@) [c] = Cons c"
  by (rule ext) simp

lemma pstr_escChar: "pstr (escChar c @ s) = map_option (apfst (Cons c)) (pstr s)"
proof -
  have bound: "(of_char c :: nat) < 128"
    if "(of_char c :: nat) < 32 \<or> c \<in> {CHR ''<'', CHR ''>'', CHR ''&''}"
    using that by auto
  have "hex4 (CHR ''0'') (CHR ''0'') (hexDigit (of_char c div 16)) (hexDigit (of_char c mod 16))
      = Some (of_char c)" if "(of_char c :: nat) < 128"
  proof -
    have "(of_char c :: nat) div 16 < 16" using that by simp
    then show ?thesis by (simp add: hex4_def)
  qed
  with bound show ?thesis
    by (auto simp: escChar_def pstr.simps simpleEsc_def decodeUnit_byte append_single)
qed

lemma pstr_printed: "pstr (concat (map escChar k) @ CHR 0x22 # s) = Some (k, s)"
  by (induction k) (simp_all add: pstr_escChar pstr.simps(2))

text \<open>The documents the round trip covers: no number literal.\<close>

primrec noNum :: "json \<Rightarrow> bool" where
  "noNum JNull = True"
| "noNum (JBool b) = True"
| "noNum (JNum n) = False"
| "noNum (JStr s) = True"
| "noNum (JArr vs) = list_all id (map noNum vs)"
| "noNum (JObj kvs) = list_all snd (map (map_prod id noNum) kvs)"

definition parses :: "json \<Rightarrow> bool" where
  "parses v \<longleftrightarrow> (\<forall>rest. \<exists>n. pval n (printJson v @ rest) = Some (v, rest))"

lemma parsesD: "parses v \<Longrightarrow> 2 * length (printJson v @ rest) + 1 \<le> m \<Longrightarrow>
    pval m (printJson v @ rest) = Some (v, rest)"
  unfolding parses_def using pval_enough by blast

lemma printJson_head:
  "noNum v \<Longrightarrow> \<exists>c t. printJson v = c # t \<and> \<not> isWs c \<and> c \<noteq> CHR '']''"
  by (cases v) (auto simp: isWs_def printStr_def)

lemma skipWs_nonWs [simp]: "\<not> isWs c \<Longrightarrow> skipWs (c # t) = c # t"
  by (simp add: skipWs_def)

lemma isWs_simps [simp]:
  "\<not> isWs (CHR ''['')" "\<not> isWs (CHR '']'')" "\<not> isWs (CHR ''{'')" "\<not> isWs (CHR ''}'')"
  "\<not> isWs (CHR '','')" "\<not> isWs (CHR '':'')" "\<not> isWs (CHR 0x22)"
  by (simp_all add: isWs_def)

lemma parr_printed:
  assumes "\<forall>v \<in> set vs. parses v" and "vs \<noteq> []"
  shows "\<exists>n. parr n (joinStr '','' (map printJson vs) @ CHR '']'' # rest) = Some (vs, rest)"
  using assms
proof (induction vs rule: induct_list012)
  case 1
  then show ?case by simp
next
  case (2 v)
  then obtain n where "pval n (printJson v @ CHR '']'' # rest) = Some (v, CHR '']'' # rest)"
    by (auto simp: parses_def)
  then have "parr (Suc n) (printJson v @ CHR '']'' # rest) = Some ([v], rest)" by simp
  then have "\<exists>n. parr n (printJson v @ CHR '']'' # rest) = Some ([v], rest)" by blast
  then show ?case by (simp del: parr.simps)
next
  case (3 v w vs)
  let ?tl = "joinStr '','' (map printJson (w # vs)) @ CHR '']'' # rest"
  from "3.IH"(2) "3.prems" obtain n where n: "parr n ?tl = Some (w # vs, rest)" by auto
  define m where "m = 2 * length (printJson v @ CHR '','' # ?tl) + 2"
  have "parr m ?tl = Some (w # vs, rest)"
    using pval_enough n unfolding m_def by (metis add_le_mono1 le_add2 length_Cons length_append
        mult_le_mono2 nat_le_linear not_less_eq_eq add_Suc_right)
  moreover have "pval m (printJson v @ CHR '','' # ?tl) = Some (v, CHR '','' # ?tl)"
    by (rule parsesD) (use "3.prems" m_def in auto)
  ultimately have "parr (Suc m) (printJson v @ CHR '','' # ?tl) = Some (v # w # vs, rest)"
    by simp
  then have "\<exists>n. parr n (printJson v @ CHR '','' # ?tl) = Some (v # w # vs, rest)" by blast
  then show ?case by (simp del: parr.simps)
qed

lemma pobj_printed:
  assumes "\<forall>kv \<in> set kvs. parses (snd kv)" and "kvs \<noteq> []"
  shows "\<exists>n. pobj n (joinStr '','' (map printMember (map (map_prod id printJson) kvs)) @ CHR ''}'' # rest)
    = Some (kvs, rest)"
  using assms
proof (induction kvs rule: induct_list012)
  case 1
  then show ?case by simp
next
  case (2 kv)
  then obtain n where "pval n (printJson (snd kv) @ CHR ''}'' # rest) = Some (snd kv, CHR ''}'' # rest)"
    by (auto simp: parses_def)
  then have "pobj (Suc n) (printMember (map_prod id printJson kv) @ CHR ''}'' # rest) = Some ([kv], rest)"
    by (simp add: printMember_def printStr_def pstr_printed)
  then have "\<exists>n. pobj n (printMember (map_prod id printJson kv) @ CHR ''}'' # rest) = Some ([kv], rest)"
    by blast
  then show ?case by (simp add: id_def del: pobj.simps)
next
  case (3 kv kw kvs)
  let ?tl = "joinStr '','' (map printMember (map (map_prod id printJson) (kw # kvs))) @ CHR ''}'' # rest"
  from "3.IH"(2) "3.prems" obtain n where n: "pobj n ?tl = Some (kw # kvs, rest)"
    by (auto simp: id_def)
  define m where "m = 2 * length (printJson (snd kv) @ CHR '','' # ?tl) + 2"
  have "2 * length ?tl + 2 \<le> m" by (simp add: m_def)
  with pval_enough n have "pobj m ?tl = Some (kw # kvs, rest)" by blast
  moreover have "pval m (printJson (snd kv) @ CHR '','' # ?tl) = Some (snd kv, CHR '','' # ?tl)"
    by (rule parsesD) (use "3.prems" m_def in auto)
  ultimately have "pobj (Suc m) (printMember (map_prod id printJson kv) @ CHR '','' # ?tl)
      = Some (kv # kw # kvs, rest)"
    by (simp add: printMember_def printStr_def pstr_printed)
  then have "\<exists>n. pobj n (printMember (map_prod id printJson kv) @ CHR '','' # ?tl)
      = Some (kv # kw # kvs, rest)" by blast
  then show ?case by (simp add: id_def del: pobj.simps)
qed

lemma noNum_parses: "noNum v \<Longrightarrow> parses v"
proof (induction v)
  case (JArr vs)
  then have all: "\<forall>v \<in> set vs. parses v" and num: "\<forall>v \<in> set vs. noNum v"
    by (auto simp: list_all_iff)
  show ?case
  proof (cases vs)
    case Nil
    then show ?thesis by (auto simp: parses_def intro: exI [of _ 1])
  next
    case (Cons v ws)
    obtain c t where c: "printJson v = c # t" "\<not> isWs c" "c \<noteq> CHR '']''"
      using num Cons printJson_head by force
    have "\<exists>u. joinStr '','' (map printJson vs) = c # u"
      using c(1) Cons by (cases ws) auto
    then obtain u where u: "joinStr '','' (map printJson vs) = c # u" by blast
    have "\<exists>n. pval n (printJson (JArr vs) @ rest) = Some (JArr vs, rest)" for rest
    proof -
      obtain n where "parr n (joinStr '','' (map printJson vs) @ CHR '']'' # rest) = Some (vs, rest)"
        using parr_printed [OF all] Cons by blast
      then have "pval (Suc n) (printJson (JArr vs) @ rest) = Some (JArr vs, rest)"
        using c u by simp
      then show ?thesis by blast
    qed
    then show ?thesis by (simp add: parses_def)
  qed
next
  case (JObj kvs)
  then have all: "\<forall>kv \<in> set kvs. parses (snd kv)"
    by (fastforce simp: list_all_iff)
  show ?case
  proof (cases kvs)
    case Nil
    then show ?thesis by (auto simp: parses_def intro: exI [of _ 1])
  next
    case (Cons kv kws)
    let ?body = "joinStr '','' (map printMember (map (map_prod id printJson) kvs))"
    have "\<exists>u. ?body = CHR 0x22 # u"
      using Cons by (cases kws) (auto simp: printMember_def printStr_def)
    then obtain u where u: "?body = CHR 0x22 # u" by blast
    have "\<exists>n. pval n (printJson (JObj kvs) @ rest) = Some (JObj kvs, rest)" for rest
    proof -
      obtain n where "pobj n (?body @ CHR ''}'' # rest) = Some (kvs, rest)"
        using pobj_printed [OF all] Cons by blast
      then have "pval (Suc n) (printJson (JObj kvs) @ rest) = Some (JObj kvs, rest)"
        using u by simp
      then show ?thesis by blast
    qed
    then show ?thesis by (simp add: parses_def)
  qed
qed (auto simp: parses_def printStr_def pstr_printed plit_def go_strings isWs_def skipWs_def
    intro!: exI [of _ 1])

lemma set_asMap: "snd ` set (asMap kvs) \<subseteq> snd ` set kvs"
proof -
  have "snd ` set (fold (\<lambda>kv m. mput (fst kv) (snd kv) m) kvs m) \<subseteq> snd ` set kvs \<union> snd ` set m" for m
  proof (induction kvs arbitrary: m)
    case (Cons kv kvs)
    have "snd ` set (mput (fst kv) (snd kv) m) \<subseteq> insert (snd kv) (snd ` set m)"
      by (induction m) (auto simp: mput_def)
    with Cons [of "mput (fst kv) (snd kv) m"] show ?case by auto
  qed simp
  from this [of "[]"] show ?thesis by (simp add: asMap_def)
qed

lemma noNum_canon: "noNum v \<Longrightarrow> noNum (canon v)"
proof (induction v)
  case (JObj kvs)
  have "\<forall>w \<in> snd ` set (map (map_prod id canon) kvs). noNum w"
    using JObj by (fastforce simp: list_all_iff)
  with set_asMap [of "map (map_prod id canon) kvs"]
  have "\<forall>w \<in> snd ` set (asMap (map (map_prod id canon) kvs)). noNum w" by blast
  then show ?case by (fastforce simp: list_all_iff)
qed (auto simp: list_all_iff)

lemma unmarshal_marshal: "noNum v \<Longrightarrow> unmarshal (marshal v) = Some (canon v)"
  unfolding marshal_def using noNum_parses [OF noNum_canon, of v] unmarshal_fuel [of _ _ _ "[]"]
  by (force simp: parses_def skipWs_def dest: spec [of _ "[]"])

text \<open>\<open>json.NewEncoder(w).Encode(v)\<close> ends the document with a newline.\<close>

lemma unmarshal_encoded: "noNum v \<Longrightarrow> unmarshal (marshal v @ [CHR 0x0A]) = Some (canon v)"
  unfolding marshal_def using noNum_parses [OF noNum_canon, of v] unmarshal_fuel [of _ _ _ "[CHR 0x0A]"]
  by (force simp: parses_def skipWs_def isWs_def dest: spec [of _ "[CHR 0x0A]"])

lemma asMap_distinct: "distinct (map fst (asMap kvs))"
proof -
  have "distinct (map fst (fold (\<lambda>kv m. mput (fst kv) (snd kv) m) kvs m))"
    if "distinct (map fst m)" for m
    using that by (induction kvs arbitrary: m) (simp_all add: distinct_mput)
  from this [of "[]"] show ?thesis
    unfolding asMap_def by (simp add: distinct_map distinct_sort inj_on_def)
qed

text \<open>On an object whose keys are distinct, \<open>asMap\<close> only sorts.\<close>

lemma asMap_sort: "distinct (map fst kvs) \<Longrightarrow> asMap kvs = sort_key fst kvs"
proof -
  have "fold (\<lambda>kv m. mput (fst kv) (snd kv) m) kvs m = m @ kvs"
    if "distinct (map fst (m @ kvs))" for m
    using that
  proof (induction kvs arbitrary: m)
    case (Cons kv kvs)
    have "mput (fst kv) (snd kv) m = m @ [kv]"
      using Cons.prems by (induction m) (auto simp: mput_def)
    with Cons.IH [of "m @ [kv]"] Cons.prems show ?case by simp
  qed simp
  from this [of "[]"] show "distinct (map fst kvs) \<Longrightarrow> asMap kvs = sort_key fst kvs"
    by (simp add: asMap_def)
qed

lemma map_of_asMap: "map_of (asMap kvs) k = map_of (rev kvs) k"
proof -
  have "map_of (fold (\<lambda>kv m. mput (fst kv) (snd kv) m) kvs m) k
      = (case map_of (rev kvs) k of None \<Rightarrow> map_of m k | Some v \<Rightarrow> Some v)" for m
    by (induction kvs arbitrary: m) (auto simp: map_add_def split: option.splits)
  moreover have "map_of (sort_key fst xs) k = map_of xs k" if "distinct (map fst xs)"
    for xs :: "(string \<times> json) list"
    using that by (intro map_of_inject_set [THEN iffD2, THEN fun_cong])
      (auto simp: distinct_map distinct_sort inj_on_def)
  moreover have "distinct (map fst (fold (\<lambda>kv m. mput (fst kv) (snd kv) m) kvs m))"
    if "distinct (map fst m)" for m :: "(string \<times> json) list"
    using that by (induction kvs arbitrary: m) (simp_all add: distinct_mput)
  ultimately show ?thesis unfolding asMap_def by (auto split: option.splits)
qed

end
