(* ===== verification/Errors.thy ===== *)
theory Errors
  imports Json
begin

text \<open>
  Error values and their classification: \<open>stackit/errors.go\<close>, \<open>StatusCode\<close> of
  \<open>stackit/client.go\<close> and \<open>definitiveError\<close> of \<open>stackit/keyreload.go\<close>.

  A Go error is a tree: \<open>fmt.Errorf\<close> with \<open>%w\<close> adds a node over the wrapped error (or over
  two of them), and \<open>errors.As\<close> / \<open>errors.Is\<close> search the tree depth first. \<open>go_error\<close> is
  that tree; its leaves are the errors of the libraries the operator calls (with the text their
  \<open>Error()\<close> renders, which the operator only copies into messages) and the sentinels of the
  controller. \<open>OutOfFuel\<close> is no error of the program: it is the value of a polling loop cut by
  its fuel, and the theorems on those loops show that it never appears.
\<close>

datatype sentinel =
    ErrGroupNotAttributable
  | ErrBucketNotOwned
  | ErrAttributionLagging
  | ErrCredentialDestroyed
  | ErrProviderUnavailable

datatype kube_reason = KNotFound | KConflict | KAlreadyExists | KOther

datatype go_error =
    ApiError int string string
  | TransportError string
  | CtxErr string
  | S3Error string int string
  | KubeErr kube_reason string
  | Msg string
  | Sentinel sentinel string
  | OwnershipCollision string string
  | OutOfFuel
  | Definitive go_error
  | Wrap string go_error string
  | Wrap2 string go_error string go_error string

text \<open>\<open>Error()\<close>.\<close>

primrec errText :: "go_error \<Rightarrow> string" where
  "errText (ApiError st body txt) = txt"
| "errText (TransportError txt) = txt"
| "errText (CtxErr txt) = txt"
| "errText (S3Error c st txt) = txt"
| "errText (KubeErr k txt) = txt"
| "errText (Msg txt) = txt"
| "errText (Sentinel s txt) = txt"
| "errText (OwnershipCollision name detail) = ''bucket '' @ quoted name @
     '' already exists and is not owned by this operator ('' @ detail @ ''); refusing to adopt''"
| "errText OutOfFuel = []"
| "errText (Definitive e) = errText e"
| "errText (Wrap pre e post) = pre @ errText e @ post"
| "errText (Wrap2 pre e mid f post) = pre @ errText e @ mid @ errText f @ post"

text \<open>Every node of the tree in the order \<open>errors.As\<close> visits them.\<close>

primrec chain :: "go_error \<Rightarrow> go_error list" where
  "chain (ApiError st body txt) = [ApiError st body txt]"
| "chain (TransportError txt) = [TransportError txt]"
| "chain (CtxErr txt) = [CtxErr txt]"
| "chain (S3Error c st txt) = [S3Error c st txt]"
| "chain (KubeErr k txt) = [KubeErr k txt]"
| "chain (Msg txt) = [Msg txt]"
| "chain (Sentinel s txt) = [Sentinel s txt]"
| "chain (OwnershipCollision name detail) = [OwnershipCollision name detail]"
| "chain OutOfFuel = [OutOfFuel]"
| "chain (Definitive e) = Definitive e # chain e"
| "chain (Wrap pre e post) = Wrap pre e post # chain e"
| "chain (Wrap2 pre e mid f post) = Wrap2 pre e mid f post # chain e @ chain f"

text \<open>\<open>fmt.Errorf("text: %w", err)\<close>.\<close>

definition wrapf :: "string \<Rightarrow> go_error \<Rightarrow> go_error" where
  "wrapf pre e = Wrap pre e []"

definition as_api :: "go_error \<Rightarrow> (int \<times> string) option" where
  "as_api e = (case List.find (\<lambda>x. case x of ApiError _ _ _ \<Rightarrow> True | _ \<Rightarrow> False) (chain e) of
     Some (ApiError st body txt) \<Rightarrow> Some (st, body) | _ \<Rightarrow> None)"

definition is_sentinel :: "sentinel \<Rightarrow> go_error \<Rightarrow> bool" where
  "is_sentinel s e \<longleftrightarrow> list_ex (\<lambda>x. case x of Sentinel s' _ \<Rightarrow> s' = s | _ \<Rightarrow> False) (chain e)"

definition is_collision :: "go_error \<Rightarrow> bool" where
  "is_collision e \<longleftrightarrow> list_ex (\<lambda>x. case x of OwnershipCollision _ _ \<Rightarrow> True | _ \<Rightarrow> False) (chain e)"

text \<open>\<open>apierrors.IsNotFound\<close> and its relatives, which also search the chain.\<close>

definition is_kube :: "kube_reason \<Rightarrow> go_error \<Rightarrow> bool" where
  "is_kube k e \<longleftrightarrow> (case List.find (\<lambda>x. case x of KubeErr _ _ \<Rightarrow> True | _ \<Rightarrow> False) (chain e) of
     Some (KubeErr k' _) \<Rightarrow> k' = k | _ \<Rightarrow> False)"

definition isDefinitive :: "go_error \<Rightarrow> bool" where
  "isDefinitive e \<longleftrightarrow> list_ex (\<lambda>x. case x of Definitive _ \<Rightarrow> True | _ \<Rightarrow> False) (chain e)"

text \<open>\<open>minio.ToErrorResponse\<close>: code and status of an S3 error; any other error has neither
  (minio reports it as an internal error).\<close>

definition s3Response :: "go_error \<Rightarrow> string \<times> int" where
  "s3Response e = (case e of S3Error c st txt \<Rightarrow> (c, st) | _ \<Rightarrow> (''InternalError'', 0))"

section \<open>Classification of provider errors\<close>

definition StatusCode :: "go_error \<Rightarrow> int" where
  "StatusCode err = (case as_api err of Some (st, body) \<Rightarrow> st | None \<Rightarrow> 0)"

definition apiAnswer :: "go_error \<Rightarrow> int option" where
  "apiAnswer err =
     (case as_api err of None \<Rightarrow> None
      | Some (status, body) \<Rightarrow> if \<not> jsonValid body then None else Some status)"

definition ProviderRefused :: "go_error \<Rightarrow> bool" where
  "ProviderRefused err \<longleftrightarrow>
     (case apiAnswer err of None \<Rightarrow> False
      | Some status \<Rightarrow> status \<in> {400, 401, 403})"

definition isStructuredNotFound :: "go_error \<Rightarrow> bool" where
  "isStructuredNotFound err \<longleftrightarrow> (case apiAnswer err of None \<Rightarrow> False | Some status \<Rightarrow> status = 404)"

definition isServiceNotEnabled :: "go_error \<Rightarrow> bool" where
  "isServiceNotEnabled err \<longleftrightarrow> isStructuredNotFound err"

section \<open>Wrapping keeps the classification\<close>

lemma find_chain_wrap:
  "\<not> P (Wrap pre e post) \<Longrightarrow> List.find P (chain (Wrap pre e post)) = List.find P (chain e)"
  "\<not> P (Definitive e) \<Longrightarrow> List.find P (chain (Definitive e)) = List.find P (chain e)"
  by simp_all

lemma as_api_simps [simp]:
  "as_api (ApiError st body txt) = Some (st, body)"
  "as_api (Wrap pre e post) = as_api e"
  "as_api (wrapf pre e) = as_api e"
  "as_api (Definitive e) = as_api e"
  "as_api (TransportError txt) = None" "as_api (CtxErr txt) = None" "as_api (Msg txt) = None"
  "as_api (KubeErr k txt) = None" "as_api (S3Error c st txt) = None" "as_api (Sentinel s txt) = None"
  "as_api (OwnershipCollision name detail) = None"
  by (simp_all add: as_api_def wrapf_def)

lemma is_sentinel_simps [simp]:
  "is_sentinel s (Sentinel s' txt) = (s' = s)"
  "is_sentinel s (Wrap pre e post) = is_sentinel s e"
  "is_sentinel s (wrapf pre e) = is_sentinel s e"
  "is_sentinel s (Wrap2 pre e mid f post) = (is_sentinel s e \<or> is_sentinel s f)"
  "is_sentinel s (Definitive e) = is_sentinel s e"
  "\<not> is_sentinel s (ApiError st body txt)" "\<not> is_sentinel s (TransportError txt)"
  "\<not> is_sentinel s (CtxErr txt)" "\<not> is_sentinel s (Msg txt)" "\<not> is_sentinel s (KubeErr k txt)"
  "\<not> is_sentinel s (S3Error c st txt)" "\<not> is_sentinel s (OwnershipCollision name detail)"
  by (simp_all add: is_sentinel_def wrapf_def)

lemma is_collision_simps [simp]:
  "is_collision (OwnershipCollision name detail)"
  "is_collision (Wrap pre e post) = is_collision e"
  "is_collision (wrapf pre e) = is_collision e"
  "is_collision (Wrap2 pre e mid f post) = (is_collision e \<or> is_collision f)"
  "is_collision (Definitive e) = is_collision e"
  "\<not> is_collision (ApiError st body txt)" "\<not> is_collision (TransportError txt)"
  "\<not> is_collision (CtxErr txt)" "\<not> is_collision (Msg txt)" "\<not> is_collision (KubeErr k txt)"
  "\<not> is_collision (S3Error c st txt)" "\<not> is_collision (Sentinel s txt)"
  by (simp_all add: is_collision_def wrapf_def)

lemma is_kube_simps [simp]:
  "is_kube k (KubeErr k' txt) = (k' = k)"
  "is_kube k (Wrap pre e post) = is_kube k e"
  "is_kube k (wrapf pre e) = is_kube k e"
  "\<not> is_kube k (Msg txt)" "\<not> is_kube k (ApiError st body txt)" "\<not> is_kube k (Sentinel s txt)"
  by (simp_all add: is_kube_def wrapf_def)

lemma isDefinitive_simps [simp]:
  "isDefinitive (Definitive e)"
  "isDefinitive (Wrap pre e post) = isDefinitive e"
  "isDefinitive (wrapf pre e) = isDefinitive e"
  "\<not> isDefinitive (ApiError st body txt)" "\<not> isDefinitive (Msg txt)" "\<not> isDefinitive (CtxErr txt)"
  "\<not> isDefinitive (TransportError txt)"
  by (simp_all add: isDefinitive_def wrapf_def)

lemma StatusCode_wrapf [simp]: "StatusCode (wrapf pre e) = StatusCode e"
  by (simp add: StatusCode_def)

lemma ProviderRefused_wrapf [simp]:
  "ProviderRefused (wrapf pre e) = ProviderRefused e" "ProviderRefused (Definitive e) = ProviderRefused e"
  by (simp_all add: ProviderRefused_def apiAnswer_def)

lemma isStructuredNotFound_wrapf [simp]: "isStructuredNotFound (wrapf pre e) = isStructuredNotFound e"
  by (simp add: isStructuredNotFound_def apiAnswer_def)

lemma refused_not_absent: "ProviderRefused e \<Longrightarrow> \<not> isStructuredNotFound e"
  by (auto simp: ProviderRefused_def isStructuredNotFound_def split: option.splits)

text \<open>A body that begins with \<open><\<close>, as every gateway or WAF page does, is no JSON document.\<close>

lemma html_not_json: "\<not> jsonValid (CHR ''<'' # page)"
proof -
  have "pval (Suc n) (CHR ''<'' # page) = None" for n
    by (simp add: skipWs_def isWs_def pnum_def pint_def isDigit_def Let_def)
  then show ?thesis by (simp add: jsonValid_def unmarshal_def del: pval.simps)
qed

lemma empty_not_json: "\<not> jsonValid []"
  by (simp add: jsonValid_def unmarshal_def skipWs_def)

lemma gateway_page_no_answer:
  assumes "as_api e = Some (st, body)" and "body = [] \<or> hd body = CHR ''<''"
  shows "apiAnswer e = None"
  using assms html_not_json [of "tl body"] empty_not_json
  by (cases body) (auto simp: apiAnswer_def)

end
