(* ===== verification/BucketTypes.thy ===== *)
theory BucketTypes
  imports Errors
begin

text \<open>
  The Bucket resource, \<open>api/v1/bucket_types.go\<close>: its types as records (a pointer field is an
  option, a \<open>*metav1.Time\<close> an optional nanosecond count, \<open>int64\<close> fields are \<^typ>\<open>int\<close>), the
  naming policy, the accessors every consumer uses, and the contents of the workload Secret.

  \<open>secretData_exact\<close> and \<open>validateSecretKeys_iff\<close> carry the Secret: accepted key overrides
  never make one value overwrite another. \<open>composeBucketName_valid\<close> says which configurations
  yield a name the provider accepts.
\<close>

section \<open>Constants\<close>

definition ConditionReady :: string where "ConditionReady = ''Ready''"
definition ConditionCloneCompleted :: string where "ConditionCloneCompleted = ''CloneCompleted''"
definition ConditionProviderReachable :: string where "ConditionProviderReachable = ''ProviderReachable''"
definition ConditionBucketPresent :: string where "ConditionBucketPresent = ''BucketPresent''"

definition ReasonProvisioned :: string where "ReasonProvisioned = ''Provisioned''"
definition ReasonProvisioning :: string where "ReasonProvisioning = ''Provisioning''"
definition ReasonFailed :: string where "ReasonFailed = ''Failed''"
definition ReasonNotImplemented :: string where "ReasonNotImplemented = ''NotImplemented''"
definition ReasonCloning :: string where "ReasonCloning = ''Cloning''"
definition ReasonCloned :: string where "ReasonCloned = ''Cloned''"
definition ReasonCloneFailed :: string where "ReasonCloneFailed = ''CloneFailed''"
definition ReasonProviderUnreachable :: string where "ReasonProviderUnreachable = ''ProviderUnreachable''"
definition ReasonBucketMissing :: string where "ReasonBucketMissing = ''BucketMissing''"
definition ReasonBucketRecreated :: string where "ReasonBucketRecreated = ''BucketRecreated''"

lemmas api_consts = ConditionReady_def ConditionCloneCompleted_def ConditionProviderReachable_def
  ConditionBucketPresent_def ReasonProvisioned_def ReasonProvisioning_def ReasonFailed_def
  ReasonNotImplemented_def ReasonCloning_def ReasonCloned_def ReasonCloneFailed_def
  ReasonProviderUnreachable_def ReasonBucketMissing_def ReasonBucketRecreated_def

text \<open>\<open>PhaseNone\<close> is the empty string of a status never written.\<close>

datatype BucketPhase = PhaseNone | PhasePending | PhaseProvisioning | PhaseReady | PhaseFailed | PhaseDeleting

definition BucketFinalizer :: string where
  "BucketFinalizer = ''stackit-bucket.gtrfc.com/finalizer''"

definition DefaultRegion :: string where "DefaultRegion = ''eu01''"

definition RotateCredentialsAtAnnotation :: string where
  "RotateCredentialsAtAnnotation = ''stackit-bucket.gtrfc.com/rotate-credentials-at''"

definition ResolvedBucketNameAnnotation :: string where
  "ResolvedBucketNameAnnotation = ''stackit-bucket.gtrfc.com/resolved-bucket-name''"

definition minBucketNameLen :: nat where "minBucketNameLen = 3"
definition maxBucketNameLen :: nat where "maxBucketNameLen = 63"

definition DefaultAccessKeyIDKey :: string where "DefaultAccessKeyIDKey = ''AWS_ACCESS_KEY_ID''"
definition DefaultSecretAccessKeyKey :: string where "DefaultSecretAccessKeyKey = ''AWS_SECRET_ACCESS_KEY''"
definition DefaultBucketNameKey :: string where "DefaultBucketNameKey = ''S3_BUCKET''"
definition DefaultRegionKey :: string where "DefaultRegionKey = ''S3_REGION''"
definition DefaultEndpointKey :: string where "DefaultEndpointKey = ''S3_ENDPOINT''"
definition DefaultBucketURLKey :: string where "DefaultBucketURLKey = ''S3_BUCKET_URL''"

lemmas key_consts = DefaultAccessKeyIDKey_def DefaultSecretAccessKeyKey_def DefaultBucketNameKey_def
  DefaultRegionKey_def DefaultEndpointKey_def DefaultBucketURLKey_def

section \<open>Types\<close>

record SecretKeys =
  k_AccessKeyID :: string
  k_SecretAccessKey :: string
  k_BucketName :: string
  k_Region :: string
  k_Endpoint :: string
  k_BucketURL :: string

record CloneSourceSecretKeys =
  csk_AccessKeyID :: string
  csk_SecretAccessKey :: string

record CloneSourceSecretRef =
  csr_Name :: string
  csr_Keys :: CloneSourceSecretKeys

record CloneFrom =
  cf_Endpoint :: string
  cf_Bucket :: string
  cf_Region :: string
  cf_AddressingStyle :: string
  cf_SecretRef :: CloneSourceSecretRef
  cf_HoldSecretUntilCloned :: "bool option"

datatype ClonePhase = ClonePhaseNone | ClonePhaseRunning | ClonePhaseCompleted | ClonePhaseFailed

record CloneStatus =
  cl_Phase :: ClonePhase
  cl_StartedAt :: "int option"
  cl_CompletedAt :: "int option"
  cl_TotalBytes :: int
  cl_BytesCopied :: int
  cl_Progress :: string
  cl_Rate :: string
  cl_ETA :: string
  cl_Message :: string

record SecretReference =
  sr_Name :: string
  sr_Keys :: SecretKeys

record LocalBucketReference =
  lb_Name :: string

record UsageSpec =
  us_Enabled :: "bool option"
  us_Interval :: string
  us_IncludeVersions :: "bool option"

record BucketSpec =
  sp_BucketName :: string
  sp_SecretRef :: SecretReference
  sp_GrantReadAccess :: "LocalBucketReference list"
  sp_Region :: string
  sp_CloneFrom :: "CloneFrom option"
  sp_WipeOnDelete :: bool
  sp_AllowRecreate :: bool
  sp_Usage :: "UsageSpec option"

record UsageStatus =
  u_Bytes :: int
  u_Objects :: int
  u_VersionBytes :: int
  u_VersionObjects :: int
  u_BillableBytes :: int
  u_HumanReadable :: string
  u_EstimatedMonthlyCost :: string
  u_EstimatedMonthlyCostCents :: int
  u_Currency :: string
  u_LastMeasurementTime :: "int option"
  u_MeasurementDuration :: string
  u_Truncated :: bool
  u_Message :: string

record Condition =
  c_Type :: string
  c_Status :: bool
  c_Reason :: string
  c_Message :: string
  c_ObservedGeneration :: int

record BucketStatus =
  st_Phase :: BucketPhase
  st_Message :: string
  st_ObservedGeneration :: int
  st_ResolvedBucketName :: string
  st_BucketURL :: string
  st_CredentialsGroupID :: string
  st_CredentialsGroupURN :: string
  st_AccessKeyID :: string
  st_GrantedReadTo :: "string list"
  st_Clone :: "CloneStatus option"
  st_LastRotationTrigger :: string
  st_LastRotationTime :: "int option"
  st_LastVerifiedTime :: "int option"
  st_DegradedSince :: "int option"
  st_OperatorVersion :: string
  st_Usage :: "UsageStatus option"
  st_Conditions :: "Condition list"

text \<open>The part of \<open>ObjectMeta\<close> the operator reads or writes.\<close>

record Bucket =
  b_Namespace :: string
  b_Name :: string
  b_UID :: string
  b_Generation :: int
  b_Annotations :: "string gomap"
  b_Finalizers :: "string list"
  b_DeletionTimestamp :: "int option"
  b_Spec :: BucketSpec
  b_Status :: BucketStatus

record BucketNaming =
  bn_Prefix :: string
  bn_IncludeNamespace :: bool

record SecretValues =
  v_AccessKeyID :: string
  v_SecretAccessKey :: string
  v_Endpoint :: string
  v_BucketURL :: string

text \<open>Zero values, and a small Bucket on which the witnesses evaluate the definitions.\<close>

definition zeroKeys :: SecretKeys where
  "zeroKeys = \<lparr>k_AccessKeyID = [], k_SecretAccessKey = [], k_BucketName = [], k_Region = [],
     k_Endpoint = [], k_BucketURL = []\<rparr>"

definition zeroStatus :: BucketStatus where
  "zeroStatus = \<lparr>st_Phase = PhaseNone, st_Message = [], st_ObservedGeneration = 0, st_ResolvedBucketName = [],
     st_BucketURL = [], st_CredentialsGroupID = [], st_CredentialsGroupURN = [], st_AccessKeyID = [],
     st_GrantedReadTo = [], st_Clone = None, st_LastRotationTrigger = [], st_LastRotationTime = None,
     st_LastVerifiedTime = None, st_DegradedSince = None, st_OperatorVersion = [], st_Usage = None,
     st_Conditions = []\<rparr>"

definition zeroUsage :: UsageStatus where
  "zeroUsage = \<lparr>u_Bytes = 0, u_Objects = 0, u_VersionBytes = 0, u_VersionObjects = 0, u_BillableBytes = 0, u_HumanReadable = [],
     u_EstimatedMonthlyCost = [], u_EstimatedMonthlyCostCents = 0, u_Currency = [], u_LastMeasurementTime = None,
     u_MeasurementDuration = [], u_Truncated = False, u_Message = []\<rparr>"

definition sampleBucket :: Bucket where
  "sampleBucket = \<lparr>b_Namespace = ''team'', b_Name = ''data'', b_UID = ''u-1'', b_Generation = 1, b_Annotations = [],
     b_Finalizers = [], b_DeletionTimestamp = None,
     b_Spec = \<lparr>sp_BucketName = ''data'', sp_SecretRef = \<lparr>sr_Name = ''data-s3'', sr_Keys = zeroKeys\<rparr>,
       sp_GrantReadAccess = [], sp_Region = [], sp_CloneFrom = None, sp_WipeOnDelete = False,
       sp_AllowRecreate = False, sp_Usage = None\<rparr>,
     b_Status = zeroStatus\<rparr>"

section \<open>Names\<close>

definition isLowerAlnum :: "char \<Rightarrow> bool" where
  "isLowerAlnum c \<longleftrightarrow> (let n = of_char c :: nat in (97 \<le> n \<and> n \<le> 122) \<or> (48 \<le> n \<and> n \<le> 57))"

text \<open>\<open>^[a-z0-9][a-z0-9.-]*[a-z0-9]$\<close>\<close>

definition bucketNameRe :: "string \<Rightarrow> bool" where
  "bucketNameRe s \<longleftrightarrow> 2 \<le> length s \<and> isLowerAlnum (hd s) \<and> isLowerAlnum (last s) \<and>
     list_all (\<lambda>c. isLowerAlnum c \<or> c = CHR ''.'' \<or> c = CHR ''-'') s"

text \<open>\<open>^[a-z0-9]([a-z0-9-]*[a-z0-9])?$\<close>\<close>

definition bucketNamePrefixRe :: "string \<Rightarrow> bool" where
  "bucketNamePrefixRe s \<longleftrightarrow> s \<noteq> [] \<and> isLowerAlnum (hd s) \<and> isLowerAlnum (last s) \<and>
     list_all (\<lambda>c. isLowerAlnum c \<or> c = CHR ''-'') s"

definition ComposeBucketName :: "BucketNaming \<Rightarrow> Bucket \<Rightarrow> string" where
  "ComposeBucketName n b =
     joinStr ''-'' ((if bn_Prefix n \<noteq> [] then [bn_Prefix n] else []) @
       (if bn_IncludeNamespace n then [b_Namespace b] else []) @ [sp_BucketName (b_Spec b)])"

definition validateNaming :: "BucketNaming \<Rightarrow> go_error option" where
  "validateNaming n =
     (if bn_Prefix n = [] then None
      else if maxBucketNameLen < length (bn_Prefix n) \<or> \<not> bucketNamePrefixRe (bn_Prefix n)
        then Some (Msg (''bucket name prefix '' @ quoted (bn_Prefix n) @
          '' is invalid: must be a lowercase DNS-1123 label (letters, digits and '' @ [CHR 0x27] @ ''-'' @
          [CHR 0x27] @ ''; no leading/trailing '' @ [CHR 0x27] @ ''-'' @ [CHR 0x27] @ ''; max '' @
          showNat maxBucketNameLen @ '' chars)''))
      else None)"

definition ValidateBucketName :: "string \<Rightarrow> go_error option" where
  "ValidateBucketName name =
     (if length name < minBucketNameLen \<or> maxBucketNameLen < length name
        then Some (Msg (''bucket name '' @ quoted name @ '' must be '' @ showNat minBucketNameLen @ ''-'' @
          showNat maxBucketNameLen @ '' characters long (got '' @ showNat (length name) @ '')''))
      else if \<not> bucketNameRe name
        then Some (Msg (''bucket name '' @ quoted name @ '' is not DNS-compliant '' @
          ''(allowed: lowercase letters, digits, '' @ [CHR 0x27] @ ''.'' @ [CHR 0x27] @ '', '' @ [CHR 0x27] @ ''-'' @
          [CHR 0x27] @ ''; must start and end alphanumeric)''))
      else None)"

section \<open>Accessors\<close>

definition AccessKeyIDKey :: "SecretKeys \<Rightarrow> string" where
  "AccessKeyIDKey k = orDefault (k_AccessKeyID k) DefaultAccessKeyIDKey"
definition SecretAccessKeyKey :: "SecretKeys \<Rightarrow> string" where
  "SecretAccessKeyKey k = orDefault (k_SecretAccessKey k) DefaultSecretAccessKeyKey"
definition BucketNameKey :: "SecretKeys \<Rightarrow> string" where
  "BucketNameKey k = orDefault (k_BucketName k) DefaultBucketNameKey"
definition RegionKey :: "SecretKeys \<Rightarrow> string" where
  "RegionKey k = orDefault (k_Region k) DefaultRegionKey"
definition EndpointKey :: "SecretKeys \<Rightarrow> string" where
  "EndpointKey k = orDefault (k_Endpoint k) DefaultEndpointKey"
definition BucketURLKey :: "SecretKeys \<Rightarrow> string" where
  "BucketURLKey k = orDefault (k_BucketURL k) DefaultBucketURLKey"

definition srcAccessKeyIDKey :: "CloneSourceSecretKeys \<Rightarrow> string" where
  "srcAccessKeyIDKey k = orDefault (csk_AccessKeyID k) DefaultAccessKeyIDKey"
definition srcSecretAccessKeyKey :: "CloneSourceSecretKeys \<Rightarrow> string" where
  "srcSecretAccessKeyKey k = orDefault (csk_SecretAccessKey k) DefaultSecretAccessKeyKey"

definition CloneAddressingVirtualHosted :: string where
  "CloneAddressingVirtualHosted = ''virtual-hosted''"

definition VirtualHosted :: "CloneFrom \<Rightarrow> bool" where
  "VirtualHosted c \<longleftrightarrow> cf_AddressingStyle c = CloneAddressingVirtualHosted"

definition HoldSecret :: "CloneFrom option \<Rightarrow> bool" where
  "HoldSecret c = (case c of None \<Rightarrow> False
     | Some cf \<Rightarrow> (case cf_HoldSecretUntilCloned cf of None \<Rightarrow> True | Some h \<Rightarrow> h))"

definition EndpointURL :: "CloneFrom \<Rightarrow> string" where
  "EndpointURL c =
     (if hasPrefix (cf_Endpoint c) ''http://'' \<or> hasPrefix (cf_Endpoint c) ''https://'' then cf_Endpoint c
      else ''https://'' @ cf_Endpoint c)"

definition EndpointHost :: "CloneFrom \<Rightarrow> string" where
  "EndpointHost c = trimPrefix (trimPrefix (cf_Endpoint c) ''https://'') ''http://''"

definition UsageEnabled :: "UsageSpec option \<Rightarrow> bool \<Rightarrow> bool" where
  "UsageEnabled u d = (case u of None \<Rightarrow> d | Some v \<Rightarrow> (case us_Enabled v of None \<Rightarrow> d | Some e \<Rightarrow> e))"

definition UsageIncludeVersions :: "UsageSpec option \<Rightarrow> bool \<Rightarrow> bool" where
  "UsageIncludeVersions u d =
     (case u of None \<Rightarrow> d | Some v \<Rightarrow> (case us_IncludeVersions v of None \<Rightarrow> d | Some e \<Rightarrow> e))"

definition GetRegion :: "Bucket \<Rightarrow> string" where
  "GetRegion b = (if sp_Region (b_Spec b) \<noteq> [] then sp_Region (b_Spec b) else DefaultRegion)"

definition EffectiveBucketName :: "Bucket \<Rightarrow> string" where
  "EffectiveBucketName b =
     (if st_ResolvedBucketName (b_Status b) \<noteq> [] then st_ResolvedBucketName (b_Status b)
      else let v = mget (b_Annotations b) ResolvedBucketNameAnnotation in
        if v \<noteq> [] then v else sp_BucketName (b_Spec b))"

definition CloneCompleted :: "Bucket \<Rightarrow> bool" where
  "CloneCompleted b = (case st_Clone (b_Status b) of None \<Rightarrow> False | Some c \<Rightarrow> cl_Phase c = ClonePhaseCompleted)"

definition ClonePending :: "Bucket \<Rightarrow> bool" where
  "ClonePending b \<longleftrightarrow> sp_CloneFrom (b_Spec b) \<noteq> None \<and> \<not> CloneCompleted b"

definition PendingRotationTrigger :: "Bucket \<Rightarrow> string" where
  "PendingRotationTrigger b =
     (let v = mget (b_Annotations b) RotateCredentialsAtAnnotation in
      if v = [] \<or> v = st_LastRotationTrigger (b_Status b) then [] else v)"

section \<open>The workload Secret\<close>

definition SecretData :: "Bucket \<Rightarrow> SecretValues \<Rightarrow> string gomap" where
  "SecretData b v =
     (let keys = sr_Keys (sp_SecretRef (b_Spec b));
          d0 = mput (RegionKey keys) (GetRegion b)
                 (mput (BucketNameKey keys) (EffectiveBucketName b)
                   (mput (SecretAccessKeyKey keys) (v_SecretAccessKey v)
                     (mput (AccessKeyIDKey keys) (v_AccessKeyID v) [])));
          d1 = (if v_Endpoint v \<noteq> [] then mput (EndpointKey keys) (v_Endpoint v) d0 else d0)
      in if v_BucketURL v \<noteq> [] then mput (BucketURLKey keys) (v_BucketURL v) d1 else d1)"

definition secretFields :: "SecretKeys \<Rightarrow> (string \<times> string) list" where
  "secretFields keys =
     [(''accessKeyID'', AccessKeyIDKey keys), (''secretAccessKey'', SecretAccessKeyKey keys),
      (''bucketName'', BucketNameKey keys), (''region'', RegionKey keys),
      (''endpoint'', EndpointKey keys), (''bucketURL'', BucketURLKey keys)]"

fun checkSecretFields :: "string gomap \<Rightarrow> (string \<times> string) list \<Rightarrow> go_error option" where
  "checkSecretFields seen [] = None"
| "checkSecretFields seen ((fld, key) # rest) =
     (case map_of seen key of
        Some other \<Rightarrow> Some (Msg (''secretRef.keys: '' @ quoted other @ '' and '' @ quoted fld @
          '' both map to data key '' @ quoted key))
      | None \<Rightarrow> checkSecretFields (mput key fld seen) rest)"

definition ValidateSecretKeys :: "Bucket \<Rightarrow> go_error option" where
  "ValidateSecretKeys b = checkSecretFields [] (secretFields (sr_Keys (sp_SecretRef (b_Spec b))))"

section \<open>Lemmas\<close>

lemma key_names_nonempty:
  "AccessKeyIDKey k \<noteq> []" "SecretAccessKeyKey k \<noteq> []" "BucketNameKey k \<noteq> []" "RegionKey k \<noteq> []"
  "EndpointKey k \<noteq> []" "BucketURLKey k \<noteq> []"
  by (simp_all add: AccessKeyIDKey_def SecretAccessKeyKey_def BucketNameKey_def RegionKey_def
      EndpointKey_def BucketURLKey_def orDefault_def key_consts)

lemma checkSecretFields_iff:
  "checkSecretFields seen fs = None \<longleftrightarrow>
     distinct (map snd fs) \<and> (\<forall>k \<in> set (map snd fs). map_of seen k = None)"
  by (induction seen fs rule: checkSecretFields.induct) (auto split: option.splits)

lemma validateSecretKeys_iff:
  "ValidateSecretKeys b = None \<longleftrightarrow> distinct (map snd (secretFields (sr_Keys (sp_SecretRef (b_Spec b)))))"
  by (simp add: ValidateSecretKeys_def checkSecretFields_iff)

lemma bucketNameRe_bounds: "bucketNameRe s \<Longrightarrow> s \<noteq> [] \<and> hd s \<noteq> CHR ''-'' \<and> last s \<noteq> CHR ''-''"
  by (cases s) (auto simp: bucketNameRe_def isLowerAlnum_def Let_def)

lemma bucketNameRe_join:
  assumes "s \<noteq> []" "isLowerAlnum (hd s)" "list_all (\<lambda>c. isLowerAlnum c \<or> c = CHR ''-'') s" "bucketNameRe t"
  shows "bucketNameRe (s @ CHR ''-'' # t)"
  using assms by (auto simp: bucketNameRe_def list_all_iff)

text \<open>A namespace is a DNS-1123 label.\<close>

definition isLabel :: "string \<Rightarrow> bool" where
  "isLabel s \<longleftrightarrow> bucketNamePrefixRe s"

lemma composeBucketName_re:
  assumes "validateNaming n = None" and "isLabel (b_Namespace b)" and "bucketNameRe (sp_BucketName (b_Spec b))"
  shows "bucketNameRe (ComposeBucketName n b)"
proof -
  have p: "bn_Prefix n \<noteq> [] \<Longrightarrow> bucketNamePrefixRe (bn_Prefix n)"
    using assms(1) by (auto simp: validateNaming_def split: if_splits)
  have "bucketNameRe (b_Namespace b @ CHR ''-'' # sp_BucketName (b_Spec b))"
    using assms(2,3) bucketNameRe_join by (simp add: isLabel_def bucketNamePrefixRe_def)
  with assms(3) p show ?thesis
    by (auto simp: ComposeBucketName_def bucketNamePrefixRe_def intro: bucketNameRe_join)
qed

lemma hasPrefix_simp: "hasPrefix (c # s) (p # ps) \<longleftrightarrow> c = p \<and> hasPrefix s ps" "hasPrefix s []"
  by (auto simp: hasPrefix_def)

section \<open>Properties\<close>

text \<open>C29: key overrides that pass \<open>ValidateSecretKeys\<close> never let one logical value overwrite
  another: every one of the four mandatory values is found in the Secret under its effective key,
  the two optional ones exactly when they are supplied, and no key besides these six is written.\<close>

theorem secretData_exact:
  assumes "ValidateSecretKeys b = None"
  defines "keys \<equiv> sr_Keys (sp_SecretRef (b_Spec b))"
  shows "map_of (SecretData b v) =
    (\<lambda>k. if k = AccessKeyIDKey keys then Some (v_AccessKeyID v)
       else if k = SecretAccessKeyKey keys then Some (v_SecretAccessKey v)
       else if k = BucketNameKey keys then Some (EffectiveBucketName b)
       else if k = RegionKey keys then Some (GetRegion b)
       else if k = EndpointKey keys \<and> v_Endpoint v \<noteq> [] then Some (v_Endpoint v)
       else if k = BucketURLKey keys \<and> v_BucketURL v \<noteq> [] then Some (v_BucketURL v)
       else None)"
  using assms unfolding validateSecretKeys_iff
  by (intro ext) (auto simp: SecretData_def secretFields_def Let_def)

theorem secretData_exact_witness:
  "map_of (SecretData sampleBucket \<lparr>v_AccessKeyID = ''AK'', v_SecretAccessKey = ''SK'', v_Endpoint = ''h'',
     v_BucketURL = []\<rparr>) ''AWS_SECRET_ACCESS_KEY'' = Some ''SK''"
proof -
  have "ValidateSecretKeys sampleBucket = None" by code_simp
  from secretData_exact [OF this, of "\<lparr>v_AccessKeyID = ''AK'', v_SecretAccessKey = ''SK'', v_Endpoint = ''h'',
     v_BucketURL = []\<rparr>"]
  show ?thesis
    by (simp add: sampleBucket_def zeroKeys_def AccessKeyIDKey_def SecretAccessKeyKey_def orDefault_def key_consts)
qed

text \<open>\<open>ValidateSecretKeys\<close> accepts exactly the overrides under which the six effective data
  keys are pairwise different; in particular it accepts the defaults.\<close>

lemma validateSecretKeys_exact:
  "(ValidateSecretKeys b = None \<longleftrightarrow>
     (let k = sr_Keys (sp_SecretRef (b_Spec b)) in
      distinct [AccessKeyIDKey k, SecretAccessKeyKey k, BucketNameKey k, RegionKey k, EndpointKey k, BucketURLKey k])) \<and>
   (sr_Keys (sp_SecretRef (b_Spec b)) = zeroKeys \<longrightarrow> ValidateSecretKeys b = None)"
proof -
  have "ValidateSecretKeys b = None" if "sr_Keys (sp_SecretRef (b_Spec b)) = zeroKeys"
    unfolding validateSecretKeys_iff that
    by (simp add: zeroKeys_def secretFields_def AccessKeyIDKey_def SecretAccessKeyKey_def BucketNameKey_def
        RegionKey_def EndpointKey_def BucketURLKey_def orDefault_def key_consts)
  then show ?thesis
    unfolding validateSecretKeys_iff by (simp add: secretFields_def Let_def)
qed

end
