(* ===== verification/Breaker.thy ===== *)
theory Breaker
  imports Prelude
begin

text \<open>
  The fleet-wide provider circuit breaker, \<open>internal/controller/breaker.go\<close>. Times and
  durations are nanoseconds in \<^typ>\<open>int\<close>; the zero \<open>time.Time\<close> is \<^const>\<open>None\<close>; a nil
  \<open>*ProviderBreaker\<close> is \<^const>\<open>None\<close>. The clock reading is an argument. The mutex makes every
  operation atomic, so the operations are functions on the record.
\<close>

section \<open>The breaker of the program\<close>

definition DefaultCircuitThreshold :: int where
  "DefaultCircuitThreshold = 3"

definition DefaultCircuitMaxCooldown :: int where
  "DefaultCircuitMaxCooldown = 300 * 10 ^ 9"

definition circuitBaseCooldown :: int where
  "circuitBaseCooldown = 60 * 10 ^ 9"

record ProviderBreaker =
  br_threshold :: int
  br_maxCooldown :: int
  br_consecutive :: int
  br_cooldown :: int
  br_openUntil :: "int option"
  br_openedAt :: "int option"

definition NewProviderBreaker :: "int \<Rightarrow> int \<Rightarrow> ProviderBreaker" where
  "NewProviderBreaker threshold maxCooldown =
     (let m1 = (if maxCooldown \<le> 0 then DefaultCircuitMaxCooldown else maxCooldown);
          m2 = (if m1 < circuitBaseCooldown then circuitBaseCooldown else m1)
      in \<lparr>br_threshold = threshold, br_maxCooldown = m2, br_consecutive = 0, br_cooldown = 0,
          br_openUntil = None, br_openedAt = None\<rparr>)"

definition enabled :: "ProviderBreaker option \<Rightarrow> bool" where
  "enabled b = (case b of None \<Rightarrow> False | Some br \<Rightarrow> 1 \<le> br_threshold br)"

definition Allow :: "ProviderBreaker option \<Rightarrow> int \<Rightarrow> int \<times> bool" where
  "Allow b now =
     (if \<not> enabled b then (0, True)
      else (case b of None \<Rightarrow> (0, True)
        | Some br \<Rightarrow>
            (case br_openUntil br of None \<Rightarrow> (0, True)
             | Some until \<Rightarrow>
                 (let remaining = until - now in
                  if remaining \<le> 0 then (0, True) else (remaining, False)))))"

definition Failure :: "ProviderBreaker option \<Rightarrow> int \<Rightarrow> (int \<times> bool) \<times> ProviderBreaker option" where
  "Failure b now =
     (if \<not> enabled b then ((0, False), b)
      else (case b of None \<Rightarrow> ((0, False), b)
        | Some br0 \<Rightarrow>
            (let br = br0\<lparr>br_consecutive := br_consecutive br0 + 1\<rparr>;
                 trip = (\<lambda>br. let c = (if br_cooldown br > br_maxCooldown br then br_maxCooldown br
                                      else br_cooldown br)
                             in ((c, True), Some (br\<lparr>br_cooldown := c, br_openUntil := Some (now + c)\<rparr>)))
             in if br_consecutive br < br_threshold br then ((0, False), Some br)
                else (case br_openUntil br of
                        None \<Rightarrow> trip (br\<lparr>br_cooldown := circuitBaseCooldown, br_openedAt := Some now\<rparr>)
                      | Some until \<Rightarrow>
                          if now < until then ((until - now, True), Some br)
                          else trip (br\<lparr>br_cooldown := br_cooldown br * 2\<rparr>)))))"

definition Success :: "ProviderBreaker option \<Rightarrow> ProviderBreaker option" where
  "Success b =
     (if \<not> enabled b then b
      else map_option (\<lambda>br. br\<lparr>br_consecutive := 0, br_cooldown := 0, br_openUntil := None,
        br_openedAt := None\<rparr>) b)"

definition OpenedAt :: "ProviderBreaker option \<Rightarrow> int option" where
  "OpenedAt b = (if \<not> enabled b then None else (case b of None \<Rightarrow> None | Some br \<Rightarrow> br_openedAt br))"

lemmas breaker_ops = Allow_def Failure_def Success_def OpenedAt_def enabled_def Let_def

section \<open>Histories of outcomes\<close>

text \<open>What the controller reports to the breaker, with the clock reading of each report.\<close>

datatype outcome = Failed (at: int) | Succeeded

definition replay :: "('b \<Rightarrow> int \<Rightarrow> (int \<times> bool) \<times> 'b) \<Rightarrow> ('b \<Rightarrow> 'b) \<Rightarrow> outcome list \<Rightarrow> 'b \<Rightarrow> 'b" where
  "replay failure success =
     fold (\<lambda>ev b. case ev of Failed now \<Rightarrow> snd (failure b now) | Succeeded \<Rightarrow> success b)"

lemma replay_snoc:
  "replay failure success (evs @ [ev]) b =
     (case ev of Failed now \<Rightarrow> snd (failure (replay failure success evs b) now)
      | Succeeded \<Rightarrow> success (replay failure success evs b))"
  by (simp add: replay_def split: outcome.split)

text \<open>The clock readings of the unbroken run of failures a history ends with, oldest first.\<close>

definition failureRun :: "outcome list \<Rightarrow> int list" where
  "failureRun evs = map at (rev (takeWhile (\<lambda>ev. ev \<noteq> Succeeded) (rev evs)))"

lemma failureRun_snoc [simp]:
  "failureRun [] = []"
  "failureRun (evs @ [Failed now]) = failureRun evs @ [now]"
  "failureRun (evs @ [Succeeded]) = []"
  by (simp_all add: failureRun_def)

section \<open>The contract of a circuit breaker\<close>

text \<open>
  What the reconciler relies on: a run counter that failures increment and a success resets, a
  breaker that is open exactly from the threshold-th failure of a run on, waits that are positive
  and capped. \<open>replay_open\<close> and its companions derive the behaviour after any history.
\<close>

locale circuit =
  fixes failure :: "'b \<Rightarrow> int \<Rightarrow> (int \<times> bool) \<times> 'b"
    and success :: "'b \<Rightarrow> 'b"
    and allow :: "'b \<Rightarrow> int \<Rightarrow> int \<times> bool"
    and openedAt :: "'b \<Rightarrow> int option"
    and ok :: "'b \<Rightarrow> bool"
    and run :: "'b \<Rightarrow> int"
    and threshold :: "'b \<Rightarrow> int"
    and cap :: "'b \<Rightarrow> int"
  assumes ok_failure: "ok b \<Longrightarrow> ok (snd (failure b now))"
    and ok_success: "ok b \<Longrightarrow> ok (success b)"
    and threshold_pos: "ok b \<Longrightarrow> 1 \<le> threshold b"
    and run_nonneg: "ok b \<Longrightarrow> 0 \<le> run b"
    and run_failure: "ok b \<Longrightarrow> run (snd (failure b now)) = run b + 1"
    and run_success: "ok b \<Longrightarrow> run (success b) = 0"
    and threshold_failure: "ok b \<Longrightarrow> threshold (snd (failure b now)) = threshold b"
    and threshold_success: "ok b \<Longrightarrow> threshold (success b) = threshold b"
    and cap_failure: "ok b \<Longrightarrow> cap (snd (failure b now)) = cap b"
    and cap_success: "ok b \<Longrightarrow> cap (success b) = cap b"
    and failure_opens: "ok b \<Longrightarrow> snd (fst (failure b now)) \<longleftrightarrow> threshold b \<le> run b + 1"
    and failure_wait: "ok b \<Longrightarrow> allow b now = (0, True) \<Longrightarrow> snd (fst (failure b now)) \<Longrightarrow>
      0 < fst (fst (failure b now)) \<and> fst (fst (failure b now)) \<le> cap b"
    and allow_shut: "ok b \<Longrightarrow> \<not> snd (allow b now) \<Longrightarrow> threshold b \<le> run b \<and> 0 < fst (allow b now)"
    and opened_failure: "ok b \<Longrightarrow> openedAt (snd (failure b now)) =
      (if run b + 1 = threshold b then Some now else openedAt b)"
    and opened_success: "ok b \<Longrightarrow> openedAt (success b) = None"
    and opened_closed: "ok b \<Longrightarrow> run b < threshold b \<Longrightarrow> openedAt b = None"
begin

lemma replay_ok:
  assumes "ok b" and "run b = 0"
  shows "ok (replay failure success evs b) \<and> run (replay failure success evs b) = int (length (failureRun evs))
    \<and> threshold (replay failure success evs b) = threshold b \<and> cap (replay failure success evs b) = cap b"
proof (induction evs rule: rev_induct)
  case (snoc ev evs)
  then show ?case
    by (cases ev) (auto simp: replay_snoc ok_failure ok_success run_failure run_success
        threshold_failure threshold_success cap_failure cap_success)
qed (use assms in \<open>simp add: replay_def\<close>)

lemma replay_failure_opens:
  assumes "ok b" and "run b = 0"
  shows "snd (fst (failure (replay failure success evs b) now))
    \<longleftrightarrow> threshold b \<le> int (length (failureRun evs)) + 1"
  using replay_ok [OF assms, of evs] by (simp add: failure_opens)

lemma replay_shut:
  assumes "ok b" and "run b = 0" and "\<not> snd (allow (replay failure success evs b) now)"
  shows "threshold b \<le> int (length (failureRun evs))"
  using replay_ok [OF assms(1,2), of evs] allow_shut [of _ now] assms(3) by fastforce

lemma replay_openedAt:
  assumes "ok b" and "run b = 0"
  shows "openedAt (replay failure success evs b) =
    (if int (length (failureRun evs)) < threshold b then None
     else Some (failureRun evs ! (nat (threshold b) - 1)))"
proof (induction evs rule: rev_induct)
  case Nil
  then show ?case
    using assms threshold_pos [OF assms(1)] opened_closed [OF assms(1)] by (simp add: replay_def)
next
  case (snoc ev evs)
  note inv = replay_ok [OF assms, of evs]
  show ?case
  proof (cases ev)
    case (Failed now)
    with inv opened_failure [of "replay failure success evs b" now] snoc threshold_pos [OF assms(1)]
    show ?thesis by (auto simp: replay_snoc nth_append nat_less_iff)
  next
    case Succeeded
    with inv opened_success [of "replay failure success evs b"] threshold_pos [OF assms(1)]
    show ?thesis by (simp add: replay_snoc)
  qed
qed

end

section \<open>The program's breaker meets the contract\<close>

definition breaker_ok :: "ProviderBreaker option \<Rightarrow> bool" where
  "breaker_ok b \<longleftrightarrow>
     (case b of None \<Rightarrow> False
      | Some br \<Rightarrow>
          1 \<le> br_threshold br \<and> circuitBaseCooldown \<le> br_maxCooldown br \<and> 0 \<le> br_consecutive br \<and>
          (br_openUntil br = None \<longleftrightarrow> br_consecutive br < br_threshold br) \<and>
          (br_openedAt br = None \<longleftrightarrow> br_consecutive br < br_threshold br) \<and>
          (if br_openUntil br = None then br_cooldown br = 0
           else circuitBaseCooldown \<le> br_cooldown br \<and> br_cooldown br \<le> br_maxCooldown br))"

definition field :: "(ProviderBreaker \<Rightarrow> int) \<Rightarrow> ProviderBreaker option \<Rightarrow> int" where
  "field f b = (case b of None \<Rightarrow> 0 | Some br \<Rightarrow> f br)"

lemma base_pos: "0 < circuitBaseCooldown"
  by (simp add: circuitBaseCooldown_def)

lemma breaker_okE:
  assumes "breaker_ok b"
  obtains br where "b = Some br" "enabled b" "1 \<le> br_threshold br" "circuitBaseCooldown \<le> br_maxCooldown br"
    "0 \<le> br_consecutive br" "br_openUntil br = None \<longleftrightarrow> br_consecutive br < br_threshold br"
    "br_openedAt br = None \<longleftrightarrow> br_consecutive br < br_threshold br"
    "br_openUntil br = None \<longrightarrow> br_cooldown br = 0"
    "br_openUntil br \<noteq> None \<longrightarrow> circuitBaseCooldown \<le> br_cooldown br \<and> br_cooldown br \<le> br_maxCooldown br"
  using assms by (cases b) (auto simp: breaker_ok_def enabled_def split: if_splits)

interpretation cb: circuit Failure Success Allow OpenedAt breaker_ok "field br_consecutive"
  "field br_threshold" "field br_maxCooldown"
proof (unfold_locales, goal_cases)
  case (1 b now)
  then show ?case using base_pos
    by (elim breaker_okE) (auto simp: breaker_ops breaker_ok_def split: option.splits)
next
  case (2 b)
  then show ?case by (elim breaker_okE) (auto simp: breaker_ops breaker_ok_def)
next
  case (14 b now)
  then show ?case
    by (elim breaker_okE) (auto simp: breaker_ops field_def split: option.splits)
next
  case (12 b now)
  then show ?case using base_pos
    by (elim breaker_okE) (auto simp: breaker_ops field_def split: option.splits if_splits)
qed (auto elim!: breaker_okE simp: breaker_ops field_def split: option.splits if_splits)

lemma new_breaker_ok:
  assumes "1 \<le> th"
  shows "breaker_ok (Some (NewProviderBreaker th mc))"
    and "field br_consecutive (Some (NewProviderBreaker th mc)) = 0"
    and "field br_threshold (Some (NewProviderBreaker th mc)) = th"
  using assms by (simp_all add: breaker_ok_def field_def NewProviderBreaker_def Let_def)

text \<open>The history of a breaker the constructor built.\<close>

definition afterReports :: "int \<Rightarrow> int \<Rightarrow> outcome list \<Rightarrow> ProviderBreaker option" where
  "afterReports th mc evs = replay Failure Success evs (Some (NewProviderBreaker th mc))"

section \<open>Properties\<close>

text \<open>C25: after any history of reports, the next failure finds the breaker open exactly when it
  is at least the threshold-th of an unbroken run of failures (one success in between resets the
  count); the breaker withholds a reconcile only after such a run; and \<open>OpenedAt\<close> is the time of
  the failure that completed the run, however often the cooldown doubled since.\<close>

theorem breaker_opens_exactly:
  assumes "1 \<le> th"
  shows "(snd (fst (Failure (afterReports th mc evs) now)) \<longleftrightarrow> th \<le> int (length (failureRun evs)) + 1) \<and>
    (\<not> snd (Allow (afterReports th mc evs) now) \<longrightarrow> th \<le> int (length (failureRun evs))) \<and>
    OpenedAt (afterReports th mc evs) =
      (if int (length (failureRun evs)) < th then None else Some (failureRun evs ! (nat th - 1)))"
  using new_breaker_ok [OF assms, of mc] cb.replay_failure_opens cb.replay_shut cb.replay_openedAt
  unfolding afterReports_def by metis

theorem breaker_opens_exactly_witness:
  "snd (fst (Failure (afterReports 3 0 [Failed 1, Succeeded, Failed 5, Failed 7]) 9)) \<and>
   OpenedAt (afterReports 3 0 [Succeeded, Failed 5, Failed 7, Failed 9]) = Some 9"
  using breaker_opens_exactly [of 3 0 "[Failed 1, Succeeded, Failed 5, Failed 7]" 9]
    breaker_opens_exactly [of 3 0 "[Succeeded, Failed 5, Failed 7, Failed 9]" 0]
  by (simp add: failureRun_def)

text \<open>The cooldown schedule. The failure that trips the breaker waits the base cooldown; a
  probe that fails doubles the wait up to the cap; a failure that races the cooldown changes
  neither the probe time nor the cooldown, and is told the remaining wait.\<close>

lemma breaker_schedule:
  assumes "breaker_ok (Some br)" and "br_threshold br \<le> br_consecutive br + 1"
  shows "case br_openUntil br of
      None \<Rightarrow> fst (Failure (Some br) now) = (circuitBaseCooldown, True) \<and>
        Allow (snd (Failure (Some br) now)) now = (circuitBaseCooldown, False)
    | Some until \<Rightarrow>
        (if now < until then fst (Failure (Some br) now) = (until - now, True) \<and>
           Allow (snd (Failure (Some br) now)) now = (until - now, False) \<and>
           field br_cooldown (snd (Failure (Some br) now)) = br_cooldown br
         else fst (Failure (Some br) now) = (min (2 * br_cooldown br) (br_maxCooldown br), True) \<and>
           Allow (snd (Failure (Some br) now)) now = (min (2 * br_cooldown br) (br_maxCooldown br), False))"
  using assms base_pos
  by (elim breaker_okE) (auto simp: breaker_ops field_def min_def split: option.splits)

text \<open>Bounds. Whatever the reports and however the cap was configured, an open breaker's
  cooldown lies between the base cooldown and the effective cap (never below the base), the wait it
  hands out is positive, and with a cap below \<open>2^62\<close> ns the doubled cooldown never leaves the range of
  Go's \<open>int64\<close> durations.\<close>

lemma breaker_wait_bounds:
  assumes "1 \<le> th"
  shows "\<exists>br. afterReports th mc evs = Some br \<and> circuitBaseCooldown \<le> br_maxCooldown br \<and>
    (br_openUntil br \<noteq> None \<longrightarrow> circuitBaseCooldown \<le> br_cooldown br \<and> br_cooldown br \<le> br_maxCooldown br) \<and>
    (br_maxCooldown br < 2 ^ 62 \<longrightarrow> 0 \<le> 2 * br_cooldown br \<and> 2 * br_cooldown br < 2 ^ 63) \<and>
    (\<not> snd (Allow (Some br) now) \<longrightarrow> 0 < fst (Allow (Some br) now))"
proof -
  have "breaker_ok (afterReports th mc evs)"
    using cb.replay_ok new_breaker_ok [OF assms] unfolding afterReports_def by blast
  then show ?thesis
  proof (rule breaker_okE)
    fix br assume br: "afterReports th mc evs = Some br" "circuitBaseCooldown \<le> br_maxCooldown br"
      "br_openUntil br = None \<longrightarrow> br_cooldown br = 0"
      "br_openUntil br \<noteq> None \<longrightarrow> circuitBaseCooldown \<le> br_cooldown br \<and> br_cooldown br \<le> br_maxCooldown br"
    then have "0 \<le> br_cooldown br \<and> br_cooldown br \<le> br_maxCooldown br"
      using base_pos by (cases "br_openUntil br") auto
    moreover have "\<not> snd (Allow (Some br) now) \<Longrightarrow> 0 < fst (Allow (Some br) now)"
      by (auto simp: breaker_ops split: option.splits if_splits)
    ultimately show ?thesis using br by (intro exI [of _ br]) auto
  qed
qed

text \<open>A threshold below one disables the breaker, as does a nil breaker: it admits every
  reconcile, never asks for a wait and keeps no state.\<close>

lemma breaker_disabled:
  assumes "b = None \<or> (\<exists>br. b = Some br \<and> br_threshold br < 1)"
  shows "Allow b now = (0, True) \<and> Failure b now = ((0, False), b) \<and> Success b = b \<and> OpenedAt b = None"
  using assms by (auto simp: breaker_ops)

end
