(* ===== verification/World.thy ===== *)
theory World
  imports Complex_Main BucketTypes Breaker
begin

text \<open>
  The boundary of the operator. Everything it talks to is a parameter over an abstract world
  \<open>'w\<close>: the STACKIT control plane (the SDK), the S3 data plane (minio), and the Kubernetes API
  (controller-runtime), each a record of operations \<open>'w \<Rightarrow> (go_error + 'a) \<times> 'w\<close>. What the code
  relies on of them is stated in locales where it is needed; \<open>FakeCloud\<close> instantiates the two
  provider records with the model of \<open>internal/stackitfake\<close>.

  \<open>st\<close> is the state a reconcile works on: the world, the \<open>*Bucket\<close> the pass mutates, the
  caches of the process (admin credential, service-ready flag, verified Buckets, breaker) and two
  histories, the events raised and the calls sent. The call history is what the ordering and
  safety properties speak about; no operation reads it.
\<close>

section \<open>Provider and cluster operations\<close>

record AccessKey =
  ak_AccessKeyID :: string
  ak_SecretAccessKey :: string
  ak_KeyID :: string

record CredentialsGroupInfo =
  g_ID :: string
  g_URN :: string
  g_DisplayName :: string

text \<open>An S3 client: endpoint host, whether TLS is used, credentials, region and addressing style.\<close>

record S3Admin =
  s3_Host :: string
  s3_Secure :: bool
  s3_AccessKeyID :: string
  s3_SecretAccessKey :: string
  s3_Region :: string
  s3_VirtualHosted :: bool

record ObjectInfo =
  o_Key :: string
  o_VersionID :: string
  o_IsDeleteMarker :: bool
  o_IsLatest :: bool
  o_Size :: int

text \<open>The SDK calls are scoped to the project and region the client was built for; only
  \<open>ListBuckets\<close> takes the project explicitly.\<close>

record 'w api =
  api_GetServiceStatus :: "'w \<Rightarrow> (go_error + unit) \<times> 'w"
  api_EnableService :: "'w \<Rightarrow> (go_error + unit) \<times> 'w"
  api_CreateBucket :: "string \<Rightarrow> 'w \<Rightarrow> (go_error + unit) \<times> 'w"
  api_GetBucket :: "string \<Rightarrow> 'w \<Rightarrow> (go_error + string) \<times> 'w"
  api_DeleteBucket :: "string \<Rightarrow> 'w \<Rightarrow> (go_error + unit) \<times> 'w"
  api_ListBuckets :: "string \<Rightarrow> 'w \<Rightarrow> (go_error + string list) \<times> 'w"
  api_CreateCredentialsGroup :: "string \<Rightarrow> 'w \<Rightarrow> (go_error + string \<times> string) \<times> 'w"
  api_DeleteCredentialsGroup :: "string \<Rightarrow> 'w \<Rightarrow> (go_error + unit) \<times> 'w"
  api_ListCredentialsGroups :: "'w \<Rightarrow> (go_error + CredentialsGroupInfo list) \<times> 'w"
  api_CreateAccessKey :: "string \<Rightarrow> 'w \<Rightarrow> (go_error + AccessKey) \<times> 'w"
  api_DeleteAccessKey :: "string \<Rightarrow> string \<Rightarrow> 'w \<Rightarrow> (go_error + unit) \<times> 'w"
  api_ListAccessKeys :: "string \<Rightarrow> 'w \<Rightarrow> (go_error + string list) \<times> 'w"

text \<open>minio. \<open>ListObjects\<close> yields objects until it is exhausted or fails; \<open>RemoveObjects\<close> the
  first object it could not remove, if any. \<open>mc_New\<close> and \<open>mc_MapToBucketTags\<close> only validate
  their argument.\<close>

record 'w minio =
  mc_New :: "S3Admin \<Rightarrow> go_error option"
  mc_MapToBucketTags :: "string gomap \<Rightarrow> go_error option"
  mc_SetBucketPolicy :: "S3Admin \<Rightarrow> string \<Rightarrow> string \<Rightarrow> 'w \<Rightarrow> (go_error + unit) \<times> 'w"
  mc_GetBucketPolicy :: "S3Admin \<Rightarrow> string \<Rightarrow> 'w \<Rightarrow> (go_error + string) \<times> 'w"
  mc_SetBucketTagging :: "S3Admin \<Rightarrow> string \<Rightarrow> string gomap \<Rightarrow> 'w \<Rightarrow> (go_error + unit) \<times> 'w"
  mc_GetBucketTagging :: "S3Admin \<Rightarrow> string \<Rightarrow> 'w \<Rightarrow> (go_error + string gomap) \<times> 'w"
  mc_ListObjects :: "S3Admin \<Rightarrow> string \<Rightarrow> bool \<Rightarrow> 'w \<Rightarrow> (ObjectInfo list \<times> go_error option) \<times> 'w"
  mc_RemoveObjects :: "S3Admin \<Rightarrow> string \<Rightarrow> ObjectInfo list \<Rightarrow> 'w \<Rightarrow> (string \<times> go_error) option \<times> 'w"

record Secret =
  sec_Labels :: "string gomap"
  sec_Type :: string
  sec_Data :: "string gomap"
  sec_Controller :: "string option"

datatype EnvVar = EnvValue string string | EnvSecret string string string

record JobCondition =
  jc_Type :: string
  jc_Status :: bool
  jc_Reason :: string
  jc_Message :: string

record Job =
  job_Namespace :: string
  job_Name :: string
  job_Labels :: "string gomap"
  job_Annotations :: "string gomap"
  job_BackoffLimit :: int
  job_TTLSeconds :: int
  job_RestartPolicy :: string
  job_RunAsNonRoot :: bool
  job_RunAsUser :: int
  job_RunAsGroup :: int
  job_Seccomp :: string
  job_AllowPrivilegeEscalation :: bool
  job_ReadOnlyRootFilesystem :: bool
  job_DropCapabilities :: "string list"
  job_Image :: string
  job_Args :: "string list"
  job_Env :: "EnvVar list"
  job_StartTime :: "int option"
  job_Conditions :: "JobCondition list"

record rcloneStats =
  rs_Bytes :: int
  rs_Speed :: rat
  rs_ETA :: "rat option"

text \<open>\<open>k_UpdateBucket\<close> and \<open>k_UpdateStatus\<close> return the object the server stored, which the client
  decodes into the object passed; \<open>k_UpsertSecret\<close> is \<open>controllerutil.CreateOrUpdate\<close> with the
  mutate function as argument. \<open>k_HTTPPost\<close> is \<open>http.Client.Do\<close> of a JSON POST with basic
  authentication, to a pod of the cluster; \<open>k_DecodeStats\<close> is the JSON decoder of its answer, which
  holds floats.\<close>

record 'w kube =
  k_GetBucket :: "string \<Rightarrow> string \<Rightarrow> 'w \<Rightarrow> (go_error + Bucket) \<times> 'w"
  k_UpdateBucket :: "Bucket \<Rightarrow> 'w \<Rightarrow> (go_error + Bucket) \<times> 'w"
  k_UpdateStatus :: "Bucket \<Rightarrow> 'w \<Rightarrow> (go_error + Bucket) \<times> 'w"
  k_PatchStatus :: "Bucket \<Rightarrow> Bucket \<Rightarrow> 'w \<Rightarrow> (go_error + Bucket) \<times> 'w"
  k_ListBuckets :: "string \<Rightarrow> 'w \<Rightarrow> (go_error + Bucket list) \<times> 'w"
  k_GetSecret :: "string \<Rightarrow> string \<Rightarrow> 'w \<Rightarrow> (go_error + Secret) \<times> 'w"
  k_UpsertSecret :: "string \<Rightarrow> string \<Rightarrow> (Secret \<Rightarrow> go_error + Secret) \<Rightarrow> 'w \<Rightarrow> (go_error + Secret) \<times> 'w"
  k_DeleteSecret :: "string \<Rightarrow> string \<Rightarrow> 'w \<Rightarrow> (go_error + unit) \<times> 'w"
  k_GetJob :: "string \<Rightarrow> string \<Rightarrow> 'w \<Rightarrow> (go_error + Job) \<times> 'w"
  k_CreateJob :: "Job \<Rightarrow> 'w \<Rightarrow> (go_error + unit) \<times> 'w"
  k_DeleteJob :: "string \<Rightarrow> string \<Rightarrow> 'w \<Rightarrow> (go_error + unit) \<times> 'w"
  k_ListPods :: "string \<Rightarrow> string \<Rightarrow> 'w \<Rightarrow> (go_error + (bool \<times> string) list) \<times> 'w"
  k_HTTPPost :: "string \<Rightarrow> string \<times> string \<Rightarrow> string \<Rightarrow> 'w \<Rightarrow> (go_error + int \<times> string) \<times> 'w"
  k_DecodeStats :: "string \<Rightarrow> go_error + rcloneStats"
  k_SetControllerReference :: "Bucket \<Rightarrow> Secret \<Rightarrow> go_error + Secret"

text \<open>The clock, a sleep that reports false when the context was cancelled meanwhile, the error of
  that context, and \<open>crypto/rand\<close>.\<close>

record 'w sys =
  sys_Now :: "'w \<Rightarrow> int"
  sys_Sleep :: "int \<Rightarrow> 'w \<Rightarrow> bool \<times> 'w"
  sys_CtxErr :: "'w \<Rightarrow> go_error"
  sys_RandRead :: "nat \<Rightarrow> 'w \<Rightarrow> (go_error + string) \<times> 'w"

section \<open>State\<close>

text \<open>The calls, each with what its answer was: for a write whether it succeeded, for a read the
  part of the answer later decisions depend on.\<close>

datatype call =
    CGetServiceStatus bool
  | CEnableService bool
  | CCreateBucket string bool
  | CGetBucket string "go_error option"
  | CDeleteBucket string bool
  | CListBuckets string "string list option"
  | CCreateGroup string "(string \<times> string) option"
  | CDeleteGroup string bool
  | CListGroups "CredentialsGroupInfo list option"
  | CCreateKey string "AccessKey option"
  | CDeleteKey string string bool
  | CListKeys string "go_error + string list"
  | CSetPolicy string string bool
  | CGetPolicy string "string option"
  | CSetTags string "string gomap" bool
  | CGetTags string "go_error + string gomap"
  | CListObjects string bool "ObjectInfo list \<times> bool"
  | CRemoveObjects string bool
  | KGetBucket string string bool
  | KUpdateBucket Bucket bool
  | KUpdateStatus Bucket bool
  | KPatchStatus Bucket Bucket bool
  | KListBuckets string bool
  | KGetSecret string string "Secret option"
  | KUpsertSecret string string bool
  | KDeleteSecret string string bool
  | KGetJob string string bool
  | KCreateJob Job bool
  | KDeleteJob string string bool
  | KListPods string string bool
  | KCloneStats bool

record event =
  ev_Warning :: bool
  ev_Reason :: string
  ev_Note :: string

record adminCreds =
  ac_accessKeyID :: string
  ac_secretAccessKey :: string
  ac_urn :: string
  ac_groupID :: string

record 'w st =
  s_world :: 'w
  s_obj :: Bucket
  s_admin :: "adminCreds option"
  s_breaker :: "ProviderBreaker option"
  s_serviceReady :: bool
  s_verified :: "(string \<times> string) list"
  s_events :: "event list"
  s_recreations :: "(string \<times> string) list"
  s_calls :: "call list"

text \<open>One external call: its result, the world it leaves, and its entry in the history (newest
  first).\<close>

definition callOut :: "('w \<Rightarrow> 'r \<times> 'w) \<Rightarrow> ('r \<Rightarrow> call) \<Rightarrow> ('w st, 'r) handler" where
  "callOut f c s = (case f (s_world s) of (r, w) \<Rightarrow> (r, s\<lparr>s_world := w, s_calls := c r # s_calls s\<rparr>))"

lemma callOut_run [exec]:
  "callOut f c s = (fst (f (s_world s)), s\<lparr>s_world := snd (f (s_world s)), s_calls := c (fst (f (s_world s))) # s_calls s\<rparr>)"
  by (simp add: callOut_def split: prod.split)

definition isOk :: "go_error + 'a \<Rightarrow> bool" where
  "isOk r = (case r of Inl e \<Rightarrow> False | Inr a \<Rightarrow> True)"

definition okVal :: "go_error + 'a \<Rightarrow> 'a option" where
  "okVal r = (case r of Inl e \<Rightarrow> None | Inr a \<Rightarrow> Some a)"

definition errVal :: "go_error + 'a \<Rightarrow> go_error option" where
  "errVal r = (case r of Inl e \<Rightarrow> Some e | Inr a \<Rightarrow> None)"

lemma okVal_simps [simp]: "okVal (Inl e) = None" "okVal (Inr a) = Some a" "isOk (Inl e) = False" "isOk (Inr a) = True"
  "errVal (Inl e) = Some e" "errVal (Inr a) = None"
  by (simp_all add: okVal_def isOk_def errVal_def)

text \<open>Reading the clock: \<open>time.Now()\<close>.\<close>

definition clock :: "'w sys \<Rightarrow> 'w st \<Rightarrow> int" where
  "clock y s = sys_Now y (s_world s)"

definition sleepCtx :: "'w sys \<Rightarrow> int \<Rightarrow> ('w st, bool) handler" where
  "sleepCtx y d s = (case sys_Sleep y d (s_world s) of (ok, w) \<Rightarrow> (ok, s\<lparr>s_world := w\<rparr>))"

definition ctxErr :: "'w sys \<Rightarrow> ('w st, go_error, 'a) fallible" where
  "ctxErr y s = (Inl (sys_CtxErr y (s_world s)), s)"

section \<open>Rules\<close>

text \<open>An invariant that an external call keeps: it does not look at the world, and survives the
  new entry of the history.\<close>

lemma keeps_callOut:
  assumes "\<And>s w r. I s \<Longrightarrow> I (s\<lparr>s_world := w, s_calls := c r # s_calls s\<rparr>)"
  shows "keeps I (callOut f c)"
  by (rule keepsI) (auto simp: callOut_def assms split: prod.splits)

text \<open>Most invariants do not look at the world or the history at all.\<close>

definition ext_stable :: "('w st \<Rightarrow> bool) \<Rightarrow> bool" where
  "ext_stable I \<longleftrightarrow> (\<forall>s w cs. I s \<longrightarrow> I (s\<lparr>s_world := w, s_calls := cs\<rparr>))"

lemma keeps_stable [keeps_rules]:
  assumes "ext_stable I"
  shows "keeps I (callOut f c)" "keeps I (sleepCtx y d)"
proof -
  have I: "I (s\<lparr>s_world := w, s_calls := cs\<rparr>)" if "I s" for s w cs
    using assms that by (simp add: ext_stable_def)
  show "keeps I (callOut f c)" by (rule keeps_callOut) (rule I)
  have "I (s\<lparr>s_world := w\<rparr>)" if "I s" for s w
    using I [OF that, where w = w and cs = "s_calls s"] by simp
  then show "keeps I (sleepCtx y d)"
    by (intro keepsI) (auto simp: sleepCtx_def split: prod.splits)
qed

lemma valid_callOut:
  assumes "\<And>s w r. P s \<Longrightarrow> Q r (s\<lparr>s_world := w, s_calls := c r # s_calls s\<rparr>)"
  shows "valid P (callOut f c) Q"
  by (rule validI) (auto simp: callOut_def assms split: prod.splits)

lemma keeps_ctxErr [keeps_rules]: "keeps I (ctxErr y)"
  by (rule keepsI) (auto simp: ctxErr_def)

text \<open>The calls a handler may add to the history: only such that satisfy \<open>A\<close>, and all earlier
  entries stay.\<close>

definition calls_only :: "(call \<Rightarrow> bool) \<Rightarrow> ('w st, 'r) handler \<Rightarrow> bool" where
  "calls_only A m \<longleftrightarrow> (\<forall>s. \<exists>new. s_calls (snd (m s)) = new @ s_calls s \<and> (\<forall>c \<in> set new. A c))"

named_theorems only_rules \<open>which calls an operation may send\<close>

lemma calls_onlyD:
  assumes "calls_only A m" "m s = (r, s')"
  obtains new where "s_calls s' = new @ s_calls s" "\<forall>c \<in> set new. A c"
  using assms unfolding calls_only_def by (metis snd_conv)

lemma only_callOut: "(\<And>r. A (c r)) \<Longrightarrow> calls_only A (callOut f c)"
  by (auto simp: calls_only_def callOut_def split: prod.splits intro: exI [of _ "[x]" for x])

lemma only_same: "(\<And>s. s_calls (snd (m s)) = s_calls s) \<Longrightarrow> calls_only A m"
  by (auto simp: calls_only_def)

lemma only_simple [only_rules]:
  "calls_only A (ret a)" "calls_only A (fault e)" "calls_only A (finish x)"
  by (auto simp: calls_only_def ret_def fault_def finish_def)

lemma only_sleepCtx [only_rules]: "calls_only A (sleepCtx y d)" "calls_only A (ctxErr y)"
  by (auto simp: calls_only_def sleepCtx_def ctxErr_def split: prod.splits)

lemma only_after [only_rules]:
  assumes "calls_only A m" "\<And>x. calls_only A (k x)"
  shows "calls_only A (after m k)"
  unfolding calls_only_def
proof
  fix s
  obtain r s1 where m: "m s = (r, s1)" by (cases "m s") auto
  from calls_onlyD [OF assms(1) m] obtain n1 where n1: "s_calls s1 = n1 @ s_calls s" "\<forall>c \<in> set n1. A c" .
  from assms(2) [of r] obtain n2 where "s_calls (snd (k r s1)) = n2 @ s_calls s1" "\<forall>c \<in> set n2. A c"
    unfolding calls_only_def by blast
  with m n1 show "\<exists>new. s_calls (snd (after m k s)) = new @ s_calls s \<and> (\<forall>c \<in> set new. A c)"
    by (intro exI [of _ "n2 @ n1"]) (auto simp: after_def)
qed

lemma check_as_after: "check m h k = after m (\<lambda>r. case r of Inl e \<Rightarrow> h e | Inr a \<Rightarrow> k a)"
  by (rule ext) (auto simp: check_def after_def split: prod.splits sum.splits)

lemma only_check [only_rules]:
  "calls_only A m \<Longrightarrow> (\<And>e. calls_only A (h e)) \<Longrightarrow> (\<And>a. calls_only A (k a)) \<Longrightarrow> calls_only A (check m h k)"
  unfolding check_as_after by (rule only_after) (auto split: sum.splits)

lemma only_reads [only_rules]: "(\<And>s. calls_only A (f s)) \<Longrightarrow> calls_only A (reads f)"
  by (auto simp: calls_only_def reads_def)

lemma only_sets: "(\<And>s. s_calls (f s) = s_calls s) \<Longrightarrow> calls_only A (sets f)"
  by (auto simp: calls_only_def sets_def)

lemma only_if [only_rules]:
  "(b \<Longrightarrow> calls_only A m) \<Longrightarrow> (\<not> b \<Longrightarrow> calls_only A n) \<Longrightarrow> calls_only A (if b then m else n)"
  by simp

lemma only_option [only_rules]:
  "(x = None \<Longrightarrow> calls_only A m) \<Longrightarrow> (\<And>a. x = Some a \<Longrightarrow> calls_only A (n a)) \<Longrightarrow>
    calls_only A (case x of None \<Rightarrow> m | Some a \<Rightarrow> n a)"
  by (cases x) auto

lemma only_prod [only_rules]:
  "(\<And>a b. x = (a, b) \<Longrightarrow> calls_only A (n a b)) \<Longrightarrow> calls_only A (case x of (a, b) \<Rightarrow> n a b)"
  by (cases x) auto

lemma only_sum [only_rules]:
  "(\<And>e. x = Inl e \<Longrightarrow> calls_only A (m e)) \<Longrightarrow> (\<And>a. x = Inr a \<Longrightarrow> calls_only A (n a)) \<Longrightarrow>
    calls_only A (case x of Inl e \<Rightarrow> m e | Inr a \<Rightarrow> n a)"
  by (cases x) auto

lemma only_let [only_rules]: "calls_only A (f t) \<Longrightarrow> calls_only A (let x = t in f x)"
  by simp

lemma only_weaken: "calls_only B m \<Longrightarrow> (\<And>c. B c \<Longrightarrow> A c) \<Longrightarrow> calls_only A m"
  unfolding calls_only_def by blast

section \<open>Running backwards\<close>

lemma andThen_InrE:
  assumes "andThen m k s = (Inr x, s')"
  obtains a s1 where "m s = (Inr a, s1)" "k a s1 = (Inr x, s')"
  using assms by (cases "m s") (auto simp: exec split: sum.splits)

lemma check_InrE:
  assumes "check m h k s = (Inr x, s')"
  obtains a s1 where "m s = (Inr a, s1)" "k a s1 = (Inr x, s')"
  | e s1 where "m s = (Inl e, s1)" "h e s1 = (Inr x, s')"
  using assms by (cases "m s") (auto simp: exec split: sum.splits)

lemma ret_InrE: "ret a s = (Inr x, s') \<Longrightarrow> (x = a \<Longrightarrow> s' = s \<Longrightarrow> P) \<Longrightarrow> P" and fault_InrE: "fault e s = (Inr x, s') \<Longrightarrow> P"
  by (auto simp: exec)

lemma callOut_elim:
  assumes "callOut f c s = (x, s')"
  obtains w where "f (s_world s) = (x, w)" "s' = s\<lparr>s_world := w, s_calls := c x # s_calls s\<rparr>"
  using assms by (cases "f (s_world s)") (auto simp: callOut_def)

text \<open>Entries of the history stay.\<close>

lemma calls_grow: "calls_only A m \<Longrightarrow> m s = (x, s') \<Longrightarrow> set (s_calls s) \<subseteq> set (s_calls s')"
  by (erule calls_onlyD) auto

abbreviation (input) anyCall :: "call \<Rightarrow> bool" where "anyCall \<equiv> \<lambda>_. True"

section \<open>Call disciplines\<close>

text \<open>An ordering requirement: \<open>G c H\<close> says that \<open>c\<close> may be sent once the calls \<open>H\<close> have been. A
  history is disciplined when every entry was sent in accordance with \<open>G\<close>.\<close>

primrec disciplined :: "(call \<Rightarrow> call set \<Rightarrow> bool) \<Rightarrow> call list \<Rightarrow> bool" where
  "disciplined G [] = True"
| "disciplined G (c # h) = (G c (set h) \<and> disciplined G h)"

lemma disciplined_iff: "disciplined G h \<longleftrightarrow> (\<forall>later c earlier. h = later @ c # earlier \<longrightarrow> G c (set earlier))"
proof (induction h)
  case (Cons x h)
  show ?case
    unfolding disciplined.simps Cons.IH by (auto simp: Cons_eq_append_conv)
qed simp

text \<open>Evidence that, once in the history, stays.\<close>

definition lasting :: "(call set \<Rightarrow> bool) \<Rightarrow> bool" where
  "lasting K \<longleftrightarrow> (\<forall>H H'. H \<subseteq> H' \<longrightarrow> K H \<longrightarrow> K H')"

lemma lastingD: "lasting K \<Longrightarrow> K H \<Longrightarrow> H \<subseteq> H' \<Longrightarrow> K H'"
  by (simp add: lasting_def)

named_theorems lasting_rules \<open>evidence that stays\<close>

lemma lasting_simple [lasting_rules]: "lasting (\<lambda>_. P)" "lasting (\<lambda>H. x \<in> H)"
  "lasting (\<lambda>H. \<exists>y. f y \<in> H)" "lasting (\<lambda>H. \<exists>y. Q y \<and> f y \<in> H)" "lasting (\<lambda>H. \<exists>y. f y \<in> H \<and> Q y)"
  by (auto simp: lasting_def)

lemma lasting_conj [lasting_rules]: "lasting K \<Longrightarrow> lasting L \<Longrightarrow> lasting (\<lambda>H. K H \<and> L H)"
  and lasting_disj [lasting_rules]: "lasting K \<Longrightarrow> lasting L \<Longrightarrow> lasting (\<lambda>H. K H \<or> L H)"
  and lasting_imp [lasting_rules]: "lasting L \<Longrightarrow> lasting (\<lambda>H. P \<longrightarrow> L H)"
  by (auto simp: lasting_def)

lemma lasting_sum [lasting_rules]:
  "(\<And>e. lasting (f e)) \<Longrightarrow> (\<And>a. lasting (g a)) \<Longrightarrow> lasting (\<lambda>H. case x of Inl e \<Rightarrow> f e H | Inr a \<Rightarrow> g a H)"
  by (cases x) auto

lemma lasting_prod [lasting_rules]:
  "(\<And>a b. lasting (f a b)) \<Longrightarrow> lasting (\<lambda>H. case x of (a, b) \<Rightarrow> f a b H)"
  by (cases x) auto

lemma lasting_option [lasting_rules]:
  "lasting f \<Longrightarrow> (\<And>a. lasting (g a)) \<Longrightarrow> lasting (\<lambda>H. case x of None \<Rightarrow> f H | Some a \<Rightarrow> g a H)"
  by (cases x) auto

lemma lasting_If [lasting_rules]:
  "lasting f \<Longrightarrow> lasting g \<Longrightarrow> lasting (\<lambda>H. if b then f H else g H)"
  by (cases b) auto

text \<open>Disciplined so far, with evidence \<open>K\<close> at hand.\<close>

definition disc :: "(call \<Rightarrow> call set \<Rightarrow> bool) \<Rightarrow> (call set \<Rightarrow> bool) \<Rightarrow> 'w st \<Rightarrow> bool" where
  "disc G K s \<longleftrightarrow> disciplined G (s_calls s) \<and> K (set (s_calls s))"

lemma disciplined_append:
  assumes "lasting K" and "\<And>c H. c \<in> set new \<Longrightarrow> K H \<Longrightarrow> G c H" and "disciplined G h" and "K (set h)"
  shows "disciplined G (new @ h)"
  using assms(2)
proof (induction new)
  case (Cons c new)
  have "K (set (new @ h))" using assms(1,4) lastingD by fastforce
  with Cons show ?case by auto
qed (simp add: assms(3))

text \<open>A step whose calls are all in order under the evidence at hand, and what its answer adds.\<close>

lemma disc_step:
  assumes K: "lasting K" and "calls_only A m" and G: "\<And>c H. A c \<Longrightarrow> K H \<Longrightarrow> G c H"
    and E: "\<And>s x s'. m s = (x, s') \<Longrightarrow> E x (set (s_calls s'))"
  shows "valid (disc G K) m (\<lambda>x. disc G (\<lambda>H. K H \<and> E x H))"
proof (rule validI)
  fix s x s'
  assume P: "disc G K s" and run: "m s = (x, s')"
  obtain new where new: "s_calls s' = new @ s_calls s" "\<forall>c \<in> set new. A c"
    by (rule calls_onlyD [OF assms(2) run])
  then have "disciplined G (s_calls s')"
    using disciplined_append [OF K, of new G "s_calls s"] G P unfolding disc_def by auto
  moreover have "K (set (s_calls s'))" using lastingD [OF K, of "set (s_calls s)"] P new unfolding disc_def by auto
  ultimately show "disc G (\<lambda>H. K H \<and> E x H) s'" using E [OF run] unfolding disc_def by simp
qed

lemma disc_keeps:
  assumes "lasting K" and "calls_only A m" and "\<And>c H. A c \<Longrightarrow> K H \<Longrightarrow> G c H"
  shows "valid (disc G K) m (\<lambda>_. disc G K)"
  using disc_step [OF assms, where E = "\<lambda>_ _. True"] by simp

lemma disc_weaken: "valid (disc G K) m Q \<Longrightarrow> (\<And>H. K' H \<Longrightarrow> K H) \<Longrightarrow> valid (disc G K') m Q"
  by (erule valid_weaken) (auto simp: disc_def)

lemma disc_start: "s_calls s = [] \<Longrightarrow> K {} \<Longrightarrow> disc G K s"
  by (simp add: disc_def)

lemma disc_final: "valid (disc G K) m (\<lambda>_. disc G L) \<Longrightarrow> s_calls s = [] \<Longrightarrow> K {} \<Longrightarrow> disciplined G (s_calls (snd (m s)))"
  by (metis disc_def disc_start prod.collapse validD)

text \<open>Sequencing.\<close>

lemma disc_check:
  assumes "lasting K" and "calls_only (\<lambda>c. \<forall>H. K H \<longrightarrow> G c H) m"
    and "\<And>s x s'. m s = (x, s') \<Longrightarrow> E x (set (s_calls s'))"
    and "\<And>e. valid (disc G (\<lambda>H. K H \<and> E (Inl e) H)) (h e) Q"
    and "\<And>a. valid (disc G (\<lambda>H. K H \<and> E (Inr a) H)) (k a) Q"
  shows "valid (disc G K) (check m h k) Q"
  unfolding check_as_after
  by (rule valid_after [OF disc_step [where E = E, OF assms(1,2)]]) (use assms(3-) in \<open>auto split: sum.splits\<close>)

lemma disc_then:
  assumes "lasting K" and "calls_only (\<lambda>c. \<forall>H. K H \<longrightarrow> G c H) m"
    and "\<And>e. valid (disc G K) (h e) Q" and "\<And>a. valid (disc G K) (k a) Q"
  shows "valid (disc G K) (check m h k) Q"
  by (rule disc_check [where E = "\<lambda>_ _. True", OF assms(1,2)]) (use assms(3-) in auto)

lemma disc_after:
  assumes "lasting K" and "calls_only (\<lambda>c. \<forall>H. K H \<longrightarrow> G c H) m" and "\<And>a. valid (disc G K) (k a) Q"
  shows "valid (disc G K) (after m k) Q"
  by (rule valid_after [OF disc_keeps [OF assms(1,2)]]) (use assms(3) in auto)

lemma disc_only:
  assumes "lasting K" and "calls_only (\<lambda>c. \<forall>H. K H \<longrightarrow> G c H) m" and "\<And>H. K H \<Longrightarrow> L H"
  shows "valid (disc G K) m (\<lambda>_. disc G L)"
  by (rule valid_weaken [OF disc_keeps [where G = G, OF assms(1,2)]]) (use assms(3) in \<open>auto simp: disc_def\<close>)

lemma disc_end:
  "(\<And>H. K H \<Longrightarrow> L (Inr a) H) \<Longrightarrow> valid (disc G K) (ret a) (\<lambda>x. disc G (L x))"
  "(\<And>H. K H \<Longrightarrow> M (Inl e) H) \<Longrightarrow> valid (disc G K) (fault e) (\<lambda>x. disc G (M x))"
  "(\<And>H. K H \<Longrightarrow> N y H) \<Longrightarrow> valid (disc G K) (finish y) (\<lambda>x. disc G (N x))"
  by (auto intro!: valid_end simp: disc_def)

lemma disc_last:
  assumes "lasting K" and "calls_only (\<lambda>c. \<forall>H. K H \<longrightarrow> G c H) m"
    and "\<And>s x s'. m s = (x, s') \<Longrightarrow> E x (set (s_calls s'))" and "\<And>x H. K H \<Longrightarrow> E x H \<Longrightarrow> L x H"
  shows "valid (disc G K) m (\<lambda>x. disc G (L x))"
  by (rule valid_weaken [OF disc_step [where G = G and E = E, OF assms(1,2)]]) (use assms(3,4) in \<open>auto simp: disc_def\<close>)

text \<open>Sequencing under an invariant of the rest of the state.\<close>

lemma inv_check:
  assumes "keeps I m" and "lasting K" and "calls_only (\<lambda>c. \<forall>H. K H \<longrightarrow> G c H) m"
    and "\<And>s x s'. m s = (x, s') \<Longrightarrow> E x (set (s_calls s'))"
    and "\<And>e. valid (\<lambda>s. I s \<and> disc G (\<lambda>H. K H \<and> E (Inl e) H) s) (h e) Q"
    and "\<And>a. valid (\<lambda>s. I s \<and> disc G (\<lambda>H. K H \<and> E (Inr a) H) s) (k a) Q"
  shows "valid (\<lambda>s. I s \<and> disc G K s) (check m h k) Q"
  unfolding check_as_after
  by (rule valid_after [OF valid_conj [OF disc_step [where E = E and G = G, OF assms(2,3)] assms(1)]])
    (use assms(4-) in \<open>auto split: sum.splits\<close>)

lemma inv_then:
  assumes "keeps I m" and "lasting K" and "calls_only (\<lambda>c. \<forall>H. K H \<longrightarrow> G c H) m"
    and "\<And>e. valid (\<lambda>s. I s \<and> disc G K s) (h e) Q" and "\<And>a. valid (\<lambda>s. I s \<and> disc G K s) (k a) Q"
  shows "valid (\<lambda>s. I s \<and> disc G K s) (check m h k) Q"
  by (rule inv_check [where E = "\<lambda>_ _. True", OF assms(1-3)]) (use assms(4-) in auto)

lemma inv_after:
  assumes "keeps I m" and "lasting K" and "calls_only (\<lambda>c. \<forall>H. K H \<longrightarrow> G c H) m"
    and "\<And>a. valid (\<lambda>s. I s \<and> disc G K s) (k a) Q"
  shows "valid (\<lambda>s. I s \<and> disc G K s) (after m k) Q"
  by (rule valid_after [OF valid_conj [OF disc_keeps [where G = G, OF assms(2,3)] assms(1)]])
    (use assms(4) in \<open>auto simp: valid_def\<close>)

lemma inv_drop: "valid (disc G K) m Q \<Longrightarrow> valid (\<lambda>s. I s \<and> disc G K s) m Q"
  by (auto simp: valid_def)

lemma lasting_ex: "(\<And>x. lasting (f x)) \<Longrightarrow> lasting (\<lambda>H. \<exists>x. f x H)"
  unfolding lasting_def by blast

lemma inv_last:
  assumes "keeps I m" and "lasting K" and "calls_only (\<lambda>c. \<forall>H. K H \<longrightarrow> G c H) m"
    and "\<And>s x s'. m s = (x, s') \<Longrightarrow> E x (set (s_calls s'))" and "\<And>x H. K H \<Longrightarrow> E x H \<Longrightarrow> L x H"
  shows "valid (\<lambda>s. I s \<and> disc G K s) m (\<lambda>x s. I s \<and> disc G (L x) s)"
  by (rule valid_conj [OF disc_last [where G = G and E = E and L = L, OF assms(2,3)] assms(1)]) (use assms(4,5) in auto)

lemma valid_andThen:
  assumes "valid P m (\<lambda>x s. case x of Inl e \<Rightarrow> Q (Inl e) s | Inr a \<Rightarrow> R a s)" and "\<And>a. valid (R a) (k a) Q"
  shows "valid P (andThen m k) Q"
  by (rule valid_check [where E = "\<lambda>e. Q (Inl e)" and R = R])
    (use assms in \<open>auto intro: valid_end valid_weaken split: sum.splits\<close>)

text \<open>Calls that change nothing outside the operator.\<close>

definition isRead :: "call \<Rightarrow> bool" where
  "isRead c = (case c of
       CGetServiceStatus _ \<Rightarrow> True | CGetBucket _ _ \<Rightarrow> True | CListBuckets _ _ \<Rightarrow> True | CListGroups _ \<Rightarrow> True
     | CListKeys _ _ \<Rightarrow> True | CGetPolicy _ _ \<Rightarrow> True | CGetTags _ _ \<Rightarrow> True | CListObjects _ _ _ \<Rightarrow> True
     | KGetBucket _ _ _ \<Rightarrow> True | KListBuckets _ _ \<Rightarrow> True | KGetSecret _ _ _ \<Rightarrow> True | KGetJob _ _ _ \<Rightarrow> True
     | KListPods _ _ _ \<Rightarrow> True | KCloneStats _ \<Rightarrow> True | _ \<Rightarrow> False)"

lemma isRead_simps [simp]:
  "isRead (CGetServiceStatus a)" "isRead (CGetBucket n x)" "isRead (CListBuckets p ns)" "isRead (CListGroups g)"
  "isRead (CListKeys n ks)" "isRead (CGetPolicy n po)" "isRead (CGetTags n t)" "isRead (CListObjects n v os)"
  "isRead (KGetBucket n m y)" "isRead (KListBuckets n y)" "isRead (KGetSecret n m se)" "isRead (KGetJob n m y)"
  "isRead (KListPods n m y)" "isRead (KCloneStats y)"
  "\<not> isRead (CEnableService y)" "\<not> isRead (CCreateBucket n y)" "\<not> isRead (CDeleteBucket n y)"
  "\<not> isRead (CCreateGroup n cg)" "\<not> isRead (CDeleteGroup n y)" "\<not> isRead (CCreateKey n ck)"
  "\<not> isRead (CDeleteKey n k y)" "\<not> isRead (CSetPolicy n q y)" "\<not> isRead (CSetTags n kv y)"
  "\<not> isRead (CRemoveObjects n y)" "\<not> isRead (KUpdateBucket b y)" "\<not> isRead (KUpdateStatus b y)"
  "\<not> isRead (KPatchStatus b b2 y)" "\<not> isRead (KUpsertSecret n m y)" "\<not> isRead (KDeleteSecret n m y)"
  "\<not> isRead (KCreateJob j y)" "\<not> isRead (KDeleteJob n m y)"
  by (simp_all add: isRead_def)

end
