(* ===== verification/StackitClient.thy ===== *)
theory StackitClient
  imports World
begin

text \<open>
  The control-plane client, \<open>stackit/client.go\<close>: one definition per method, with the wrapping of
  every error, on the raw SDK operations of \<open>World\<close>. The two polling loops carry fuel;
  \<open>ensureService_terminates\<close> and \<open>waitBucketVisible_terminates\<close> show that it never runs out
  when a sleep lasts at least as long as asked and no call turns the clock back.
\<close>

record 'w client =
  cl_ProjectID :: string
  cl_region :: string
  cl_api :: "'w api"
  cl_sys :: "'w sys"

section \<open>The service\<close>

text \<open>The wait after \<open>EnableService\<close>: any error means "not ready yet".\<close>

fun awaitService :: "nat \<Rightarrow> 'w client \<Rightarrow> int \<Rightarrow> ('w st, go_error, unit) fallible" where
  "awaitService 0 c deadline = fault OutOfFuel"
| "awaitService (Suc n) c deadline =
     check (callOut (api_GetServiceStatus (cl_api c)) (\<lambda>r. CGetServiceStatus (isOk r)))
       (\<lambda>e. reads (\<lambda>s.
          if deadline < clock (cl_sys c) s
          then fault (Msg (''object storage in project '' @ cl_ProjectID c @ '' not ready within timeout''))
          else after (sleepCtx (cl_sys c) (seconds 2))
            (\<lambda>ok. if \<not> ok then ctxErr (cl_sys c) else awaitService n c deadline)))
       (\<lambda>_. andDo (sets (\<lambda>s. s\<lparr>s_serviceReady := True\<rparr>)) (ret ()))"

definition EnsureService :: "'w client \<Rightarrow> ('w st, go_error, unit) fallible" where
  "EnsureService c = reads (\<lambda>s.
     if s_serviceReady s then ret ()
     else check (callOut (api_GetServiceStatus (cl_api c)) (\<lambda>r. CGetServiceStatus (isOk r)))
       (\<lambda>err. if \<not> isServiceNotEnabled err
          then fault (wrapf (''check object storage status in project '' @ cl_ProjectID c @ '': '') err)
          else check (callOut (api_EnableService (cl_api c)) (\<lambda>r. CEnableService (isOk r)))
            (\<lambda>err. fault (wrapf (''enable object storage in project '' @ cl_ProjectID c @ '': '') err))
            (\<lambda>_. reads (\<lambda>s. awaitService 17 c (clock (cl_sys c) s + seconds 30))))
       (\<lambda>_. andDo (sets (\<lambda>s. s\<lparr>s_serviceReady := True\<rparr>)) (ret ())))"

section \<open>Buckets\<close>

definition CreateBucket :: "'w client \<Rightarrow> string \<Rightarrow> ('w st, go_error, unit) fallible" where
  "CreateBucket c name =
     check (callOut (api_CreateBucket (cl_api c) name) (\<lambda>r. CCreateBucket name (isOk r)))
       (\<lambda>err. fault (wrapf (''create bucket '' @ quoted name @ '' in project '' @ cl_ProjectID c @ '': '') err)) ret"

definition DeleteBucket :: "'w client \<Rightarrow> string \<Rightarrow> ('w st, go_error, unit) fallible" where
  "DeleteBucket c name =
     check (callOut (api_DeleteBucket (cl_api c) name) (\<lambda>r. CDeleteBucket name (isOk r)))
       (\<lambda>err. fault (wrapf (''delete bucket '' @ quoted name @ '' in project '' @ cl_ProjectID c @ '': '') err)) ret"

definition ListBucketNames :: "'w client \<Rightarrow> string \<Rightarrow> ('w st, go_error, string list) fallible" where
  "ListBucketNames c projectID =
     callOut (api_ListBuckets (cl_api c) projectID) (\<lambda>r. CListBuckets projectID (okVal r))"

definition HasBucket :: "'w client \<Rightarrow> string \<Rightarrow> string \<Rightarrow> ('w st, go_error, bool) fallible" where
  "HasBucket c projectID name =
     andThen (ListBucketNames c projectID) (\<lambda>names. ret (list_ex (\<lambda>n. n = name) names))"

definition BucketExists :: "'w client \<Rightarrow> string \<Rightarrow> ('w st, go_error, bool) fallible" where
  "BucketExists c name =
     check (callOut (api_GetBucket (cl_api c) name) (\<lambda>r. CGetBucket name (errVal r)))
       (\<lambda>err. if isStructuredNotFound err then ret False
          else fault (wrapf (''get bucket '' @ quoted name @ '' in project '' @ cl_ProjectID c @ '': '') err))
       (\<lambda>_. ret True)"

fun awaitBucket :: "nat \<Rightarrow> 'w client \<Rightarrow> string \<Rightarrow> int \<Rightarrow> int \<Rightarrow> ('w st, go_error, unit) fallible" where
  "awaitBucket 0 c name timeout deadline = fault OutOfFuel"
| "awaitBucket (Suc n) c name timeout deadline =
     andThen (HasBucket c (cl_ProjectID c) name)
       (\<lambda>ok. if ok then ret ()
          else reads (\<lambda>s.
            if deadline < clock (cl_sys c) s
            then fault (Msg (''bucket '' @ quoted name @ '' not visible in project '' @ cl_ProjectID c @
              '' within '' @ durString timeout))
            else after (sleepCtx (cl_sys c) (seconds 2))
              (\<lambda>ok. if \<not> ok then ctxErr (cl_sys c) else awaitBucket n c name timeout deadline)))"

definition WaitBucketVisible :: "'w client \<Rightarrow> string \<Rightarrow> int \<Rightarrow> ('w st, go_error, unit) fallible" where
  "WaitBucketVisible c name timeout = reads (\<lambda>s.
     awaitBucket (nat (timeout div seconds 2) + 2) c name timeout (clock (cl_sys c) s + timeout))"

section \<open>Credentials groups and keys\<close>

definition CreateCredentialsGroup :: "'w client \<Rightarrow> string \<Rightarrow> ('w st, go_error, string \<times> string) fallible" where
  "CreateCredentialsGroup c displayName =
     check (callOut (api_CreateCredentialsGroup (cl_api c) displayName) (\<lambda>r. CCreateGroup displayName (okVal r)))
       (\<lambda>err. fault (wrapf (''create credentials group '' @ quoted displayName @ '': '') err)) ret"

definition DeleteCredentialsGroup :: "'w client \<Rightarrow> string \<Rightarrow> ('w st, go_error, unit) fallible" where
  "DeleteCredentialsGroup c groupID =
     check (callOut (api_DeleteCredentialsGroup (cl_api c) groupID) (\<lambda>r. CDeleteGroup groupID (isOk r)))
       (\<lambda>err. fault (wrapf (''delete credentials group '' @ groupID @ '': '') err)) ret"

definition CreateAccessKey :: "'w client \<Rightarrow> string \<Rightarrow> ('w st, go_error, AccessKey) fallible" where
  "CreateAccessKey c groupID =
     check (callOut (api_CreateAccessKey (cl_api c) groupID) (\<lambda>r. CCreateKey groupID (okVal r)))
       (\<lambda>err. fault (wrapf (''create access key in group '' @ groupID @ '': '') err)) ret"

definition DeleteAccessKey :: "'w client \<Rightarrow> string \<Rightarrow> string \<Rightarrow> ('w st, go_error, unit) fallible" where
  "DeleteAccessKey c groupID keyID =
     check (callOut (api_DeleteAccessKey (cl_api c) groupID keyID) (\<lambda>r. CDeleteKey groupID keyID (isOk r)))
       (\<lambda>err. fault (wrapf (''delete access key '' @ keyID @ '' (group '' @ groupID @ ''): '') err)) ret"

definition ListCredentialsGroups :: "'w client \<Rightarrow> ('w st, go_error, CredentialsGroupInfo list) fallible" where
  "ListCredentialsGroups c =
     check (callOut (api_ListCredentialsGroups (cl_api c)) (\<lambda>r. CListGroups (okVal r)))
       (\<lambda>err. fault (wrapf ''list credentials groups: '' err)) ret"

definition FindCredentialsGroupByName ::
    "'w client \<Rightarrow> string \<Rightarrow> ('w st, go_error, (string \<times> string) option) fallible" where
  "FindCredentialsGroupByName c displayName =
     andThen (ListCredentialsGroups c)
       (\<lambda>groups. ret (map_option (\<lambda>g. (g_ID g, g_URN g)) (List.find (\<lambda>g. g_DisplayName g = displayName) groups)))"

definition EnsureCredentialsGroup :: "'w client \<Rightarrow> string \<Rightarrow> ('w st, go_error, string \<times> string) fallible" where
  "EnsureCredentialsGroup c displayName =
     andThen (FindCredentialsGroupByName c displayName)
       (\<lambda>found. case found of Some idurn \<Rightarrow> ret idurn | None \<Rightarrow> CreateCredentialsGroup c displayName)"

definition ListAccessKeyIDs :: "'w client \<Rightarrow> string \<Rightarrow> ('w st, go_error, string list) fallible" where
  "ListAccessKeyIDs c groupID =
     check (callOut (api_ListAccessKeys (cl_api c) groupID) (\<lambda>r. CListKeys groupID r))
       (\<lambda>err. fault (wrapf (''list access keys (group '' @ groupID @ ''): '') err)) ret"

primrec deleteKeys :: "'w client \<Rightarrow> string \<Rightarrow> string list \<Rightarrow> ('w st, go_error, unit) fallible" where
  "deleteKeys c groupID [] = ret ()"
| "deleteKeys c groupID (k # ks) =
     check (DeleteAccessKey c groupID k)
       (\<lambda>err. if StatusCode err = 404 then deleteKeys c groupID ks else fault err)
       (\<lambda>_. deleteKeys c groupID ks)"

definition DeleteAllAccessKeys :: "'w client \<Rightarrow> string \<Rightarrow> ('w st, go_error, unit) fallible" where
  "DeleteAllAccessKeys c groupID =
     check (ListAccessKeyIDs c groupID)
       (\<lambda>err. if StatusCode err = 404 then ret () else fault err)
       (\<lambda>ids. deleteKeys c groupID ids)"

section \<open>Connection details\<close>

definition BucketConnInfo :: "'w client \<Rightarrow> string \<Rightarrow> ('w st, go_error, string \<times> string) fallible" where
  "BucketConnInfo c name =
     check (callOut (api_GetBucket (cl_api c) name) (\<lambda>r. CGetBucket name (errVal r)))
       (\<lambda>err. fault (wrapf (''get bucket '' @ quoted name @ '': '') err))
       (\<lambda>raw. if snd (urlParse raw) = []
          then fault (Msg (''parse bucket path-style url '' @ quoted raw @ '': %!w(<nil>)''))
          else ret (snd (urlParse raw), raw))"

definition BucketEndpoint :: "'w client \<Rightarrow> string \<Rightarrow> ('w st, go_error, string) fallible" where
  "BucketEndpoint c name =
     andThen (BucketConnInfo c name)
       (\<lambda>hr. ret (fst (urlParse (snd hr)) @ ''://'' @ snd (urlParse (snd hr))))"

lemmas client_defs = EnsureService_def CreateBucket_def DeleteBucket_def ListBucketNames_def HasBucket_def
  BucketExists_def WaitBucketVisible_def CreateCredentialsGroup_def DeleteCredentialsGroup_def
  CreateAccessKey_def DeleteAccessKey_def ListCredentialsGroups_def FindCredentialsGroupByName_def
  EnsureCredentialsGroup_def ListAccessKeyIDs_def DeleteAllAccessKeys_def BucketConnInfo_def BucketEndpoint_def

section \<open>Footprints\<close>

text \<open>Client operations touch nothing but the world, the history and the service-ready flag.\<close>

lemma keeps_client [keeps_rules]:
  assumes "ext_stable I"
  shows "keeps I (CreateBucket c n)" "keeps I (DeleteBucket c n)" "keeps I (ListBucketNames c p)"
    "keeps I (HasBucket c p n)" "keeps I (BucketExists c n)"
    "keeps I (CreateCredentialsGroup c n)" "keeps I (DeleteCredentialsGroup c n)" "keeps I (CreateAccessKey c n)"
    "keeps I (DeleteAccessKey c n k)" "keeps I (ListCredentialsGroups c)" "keeps I (FindCredentialsGroupByName c n)"
    "keeps I (EnsureCredentialsGroup c n)" "keeps I (ListAccessKeyIDs c n)"
    "keeps I (BucketConnInfo c n)" "keeps I (BucketEndpoint c n)"
  unfolding client_defs by (intro keeps_rules assms)+

lemma keeps_deleteKeys [keeps_rules]: "ext_stable I \<Longrightarrow> keeps I (deleteKeys c g ks)"
  by (induction ks) (simp_all, (intro keeps_rules | assumption)+)

lemma keeps_DeleteAllAccessKeys [keeps_rules]: "ext_stable I \<Longrightarrow> keeps I (DeleteAllAccessKeys c g)"
  unfolding DeleteAllAccessKeys_def by (intro keeps_rules)

lemma keeps_awaitBucket [keeps_rules]: "ext_stable I \<Longrightarrow> keeps I (awaitBucket n c name t d)"
  by (induction n) (simp_all, (intro keeps_rules | assumption)+)

lemma keeps_WaitBucketVisible [keeps_rules]: "ext_stable I \<Longrightarrow> keeps I (WaitBucketVisible c name t)"
  unfolding WaitBucketVisible_def by (intro keeps_rules)

lemma keeps_serviceReady:
  "(\<And>s. I s \<Longrightarrow> I (s\<lparr>s_serviceReady := True\<rparr>)) \<Longrightarrow> keeps I (sets (\<lambda>s. s\<lparr>s_serviceReady := True\<rparr>))"
  by (rule keeps_sets)

lemma keeps_EnsureService:
  assumes "ext_stable I" "\<And>s. I s \<Longrightarrow> I (s\<lparr>s_serviceReady := True\<rparr>)"
  shows "keeps I (EnsureService c)"
proof -
  have "keeps I (awaitService n c d)" for n d
    by (induction n) (simp_all, (intro keeps_rules keeps_serviceReady assms | assumption)+)
  then show ?thesis
    unfolding EnsureService_def by (intro keeps_rules keeps_serviceReady assms) auto
qed

lemma only_client [only_rules]:
  "(\<And>b. A (CCreateBucket n b)) \<Longrightarrow> calls_only A (CreateBucket c n)"
  "(\<And>b. A (CDeleteBucket n b)) \<Longrightarrow> calls_only A (DeleteBucket c n)"
  "(\<And>b. A (CListBuckets p b)) \<Longrightarrow> calls_only A (HasBucket c p n)"
  "(\<And>e. A (CGetBucket n e)) \<Longrightarrow> calls_only A (BucketExists c n)"
  "(\<And>r. A (CCreateGroup n r)) \<Longrightarrow> calls_only A (CreateCredentialsGroup c n)"
  "(\<And>b. A (CDeleteGroup n b)) \<Longrightarrow> calls_only A (DeleteCredentialsGroup c n)"
  "(\<And>r. A (CCreateKey n r)) \<Longrightarrow> calls_only A (CreateAccessKey c n)"
  "(\<And>b. A (CDeleteKey n k b)) \<Longrightarrow> calls_only A (DeleteAccessKey c n k)"
  "(\<And>r. A (CListGroups r)) \<Longrightarrow> calls_only A (ListCredentialsGroups c)"
  "(\<And>r. A (CListKeys n r)) \<Longrightarrow> calls_only A (ListAccessKeyIDs c n)"
  "(\<And>e. A (CGetBucket n e)) \<Longrightarrow> calls_only A (BucketConnInfo c n)"
  "(\<And>e. A (CGetBucket n e)) \<Longrightarrow> calls_only A (BucketEndpoint c n)"
  unfolding client_defs by (intro only_rules only_callOut, simp)+

lemma only_EnsureCredentialsGroup [only_rules]:
  "(\<And>r. A (CListGroups r)) \<Longrightarrow> (\<And>r. A (CCreateGroup n r)) \<Longrightarrow> calls_only A (EnsureCredentialsGroup c n)"
  unfolding EnsureCredentialsGroup_def FindCredentialsGroupByName_def by (intro only_rules) auto

lemma only_deleteKeys [only_rules]:
  "(\<And>k b. A (CDeleteKey g k b)) \<Longrightarrow> calls_only A (deleteKeys c g ks)"
  by (induction ks) (simp_all, (intro only_rules | simp)+)

lemma only_DeleteAllAccessKeys [only_rules]:
  "(\<And>r. A (CListKeys g r)) \<Longrightarrow> (\<And>k b. A (CDeleteKey g k b)) \<Longrightarrow> calls_only A (DeleteAllAccessKeys c g)"
  unfolding DeleteAllAccessKeys_def by (intro only_rules) auto

lemma only_WaitBucketVisible [only_rules]:
  "(\<And>b. A (CListBuckets (cl_ProjectID c) b)) \<Longrightarrow> calls_only A (WaitBucketVisible c name t)"
proof -
  assume A: "\<And>b. A (CListBuckets (cl_ProjectID c) b)"
  have "calls_only A (awaitBucket n c name t d)" for n d
    by (induction n) (simp_all, (intro only_rules A | assumption)+)
  then show ?thesis unfolding WaitBucketVisible_def by (intro only_rules)
qed

lemma only_EnsureService [only_rules]:
  "(\<And>b. A (CGetServiceStatus b)) \<Longrightarrow> (\<And>b. A (CEnableService b)) \<Longrightarrow> calls_only A (EnsureService c)"
proof -
  assume A: "\<And>b. A (CGetServiceStatus b)" "\<And>b. A (CEnableService b)"
  have r: "calls_only A (sets (\<lambda>s. s\<lparr>s_serviceReady := True\<rparr>))" by (rule only_sets) simp
  have "calls_only A (awaitService n c d)" for n d
    by (induction n) (simp_all, (intro only_rules only_callOut A r | assumption)+)
  then show ?thesis unfolding EnsureService_def by (intro only_rules only_callOut A r) auto
qed

section \<open>The polling loops end\<close>

text \<open>What the loops rely on: a sleep that is not cancelled lasts at least as long as asked, the two
  polled calls do not turn the clock back, and neither they nor the context produce the marker of
  an exhausted loop.\<close>

locale steady =
  fixes c :: "'w client"
  assumes sleep_lasts: "sys_Sleep (cl_sys c) d w = (True, w') \<Longrightarrow> sys_Now (cl_sys c) w + d \<le> sys_Now (cl_sys c) w'"
    and status_clock: "sys_Now (cl_sys c) w \<le> sys_Now (cl_sys c) (snd (api_GetServiceStatus (cl_api c) w))"
    and list_clock: "sys_Now (cl_sys c) w \<le> sys_Now (cl_sys c) (snd (api_ListBuckets (cl_api c) p w))"
    and list_proper: "fst (api_ListBuckets (cl_api c) p w) \<noteq> Inl OutOfFuel"
    and enable_proper: "fst (api_EnableService (cl_api c) w) \<noteq> Inl OutOfFuel"
    and ctx_proper: "sys_CtxErr (cl_sys c) w \<noteq> OutOfFuel"
begin

lemma awaitBucket_ends:
  "deadline < clock (cl_sys c) s + seconds 2 * (int n - 1) \<Longrightarrow> 1 \<le> n \<Longrightarrow>
    fst (awaitBucket n c name t deadline s) \<noteq> Inl OutOfFuel"
proof (induction n arbitrary: s)
  case (Suc n)
  obtain r w where rw: "api_ListBuckets (cl_api c) (cl_ProjectID c) (s_world s) = (r, w)"
    by (cases "api_ListBuckets (cl_api c) (cl_ProjectID c) (s_world s)") auto
  have now: "clock (cl_sys c) s \<le> sys_Now (cl_sys c) w" and r: "r \<noteq> Inl OutOfFuel"
    using list_clock [of "s_world s" "cl_ProjectID c"] list_proper [of "cl_ProjectID c" "s_world s"] rw
    by (simp_all add: clock_def)
  let ?s1 = "s\<lparr>s_world := w, s_calls := CListBuckets (cl_ProjectID c) (okVal r) # s_calls s\<rparr>"
  obtain ok w2 where sl: "sys_Sleep (cl_sys c) (seconds 2) w = (ok, w2)"
    by (cases "sys_Sleep (cl_sys c) (seconds 2) w") auto
  have "fst (awaitBucket n c name t deadline (?s1\<lparr>s_world := w2\<rparr>)) \<noteq> Inl OutOfFuel"
    if ok "\<not> deadline < sys_Now (cl_sys c) w"
  proof (rule Suc.IH)
    have "sys_Now (cl_sys c) w + seconds 2 \<le> sys_Now (cl_sys c) w2"
      using sleep_lasts [of "seconds 2" w w2] sl that by simp
    with Suc.prems now show "deadline < clock (cl_sys c) (?s1\<lparr>s_world := w2\<rparr>) + seconds 2 * (int n - 1)"
      by (simp add: clock_def seconds_def)
    show "1 \<le> n" using Suc.prems now that by (cases n) (simp_all add: clock_def)
  qed
  then show ?case
    using rw sl r ctx_proper
    by (auto simp: HasBucket_def ListBucketNames_def callOut_def run_simps sleepCtx_def ctxErr_def clock_def
        split: sum.splits)
qed simp

lemma awaitService_ends:
  "deadline < clock (cl_sys c) s + seconds 2 * (int n - 1) \<Longrightarrow> 1 \<le> n \<Longrightarrow>
    fst (awaitService n c deadline s) \<noteq> Inl OutOfFuel"
proof (induction n arbitrary: s)
  case (Suc n)
  obtain r w where rw: "api_GetServiceStatus (cl_api c) (s_world s) = (r, w)"
    by (cases "api_GetServiceStatus (cl_api c) (s_world s)") auto
  have now: "clock (cl_sys c) s \<le> sys_Now (cl_sys c) w"
    using status_clock [of "s_world s"] rw by (simp add: clock_def)
  let ?s1 = "s\<lparr>s_world := w, s_calls := CGetServiceStatus (isOk r) # s_calls s\<rparr>"
  obtain ok w2 where sl: "sys_Sleep (cl_sys c) (seconds 2) w = (ok, w2)"
    by (cases "sys_Sleep (cl_sys c) (seconds 2) w") auto
  have "fst (awaitService n c deadline (?s1\<lparr>s_world := w2\<rparr>)) \<noteq> Inl OutOfFuel"
    if ok "\<not> deadline < sys_Now (cl_sys c) w"
  proof (rule Suc.IH)
    have "sys_Now (cl_sys c) w + seconds 2 \<le> sys_Now (cl_sys c) w2"
      using sleep_lasts [of "seconds 2" w w2] sl that by simp
    with Suc.prems now show "deadline < clock (cl_sys c) (?s1\<lparr>s_world := w2\<rparr>) + seconds 2 * (int n - 1)"
      by (simp add: clock_def seconds_def)
    show "1 \<le> n" using Suc.prems now that by (cases n) (simp_all add: clock_def)
  qed
  then show ?case
    using rw sl ctx_proper
    by (auto simp: callOut_def run_simps sleepCtx_def ctxErr_def clock_def split: sum.splits)
qed simp

lemma WaitBucketVisible_ends: "fst (WaitBucketVisible c name t s) \<noteq> Inl OutOfFuel"
proof -
  define q where "q = t div 2000000000"
  have "t < 2000000000 * q + 2000000000" unfolding q_def by presburger
  then have "t < 2000000000 * (m + 1)" if "q \<le> m" for m using that by (simp add: algebra_simps)
  from this [of "int (nat q)"] have "t < 2000000000 * (int (nat q) + 1)" by simp
  then have "t < seconds 2 * (int (nat (t div seconds 2) + 2) - 1)"
    by (simp add: seconds_def q_def)
  then show ?thesis
    unfolding WaitBucketVisible_def reads_def by (intro awaitBucket_ends) (simp_all add: clock_def)
qed

lemma EnsureService_ends: "fst (EnsureService c s) \<noteq> Inl OutOfFuel"
proof -
  have "fst (awaitService 17 c (clock (cl_sys c) t + seconds 30) t) \<noteq> Inl OutOfFuel" for t
    by (rule awaitService_ends) (simp_all add: seconds_def)
  then show ?thesis
    using enable_proper
    by (auto simp: EnsureService_def run_simps callOut_def wrapf_def split: sum.splits prod.splits)
qed

end

end
