(* ===== verification/S3Client.thy ===== *)
theory S3Client
  imports StackitClient
begin

text \<open>
  The S3 data-plane client, \<open>stackit/s3.go\<close> from \<open>NewS3Admin\<close> on: policies, tags, the wipe, the
  size measurement and the empty check, on the raw minio operations of \<open>World\<close>.
  \<open>bucketStats_partition\<close> accounts for every listed entry exactly once.
\<close>

section \<open>Building a client\<close>

definition newS3Client :: "'w minio \<Rightarrow> string \<Rightarrow> string \<Rightarrow> string \<Rightarrow> string \<Rightarrow> bool \<Rightarrow> go_error + S3Admin" where
  "newS3Client mc endpoint accessKeyID secretAccessKey region virtualHosted =
     (let hs = (if hasPrefix endpoint ''http://'' then (trimPrefix endpoint ''http://'', False)
                else if hasPrefix endpoint ''https://'' then (trimPrefix endpoint ''https://'', True)
                else (endpoint, True));
          s3 = \<lparr>s3_Host = fst hs, s3_Secure = snd hs, s3_AccessKeyID = accessKeyID,
                s3_SecretAccessKey = secretAccessKey, s3_Region = region, s3_VirtualHosted = virtualHosted\<rparr>
      in case mc_New mc s3 of
           Some err \<Rightarrow> Inl (wrapf (''init s3 client for '' @ endpoint @ '': '') err)
         | None \<Rightarrow> Inr s3)"

definition NewS3Admin :: "'w minio \<Rightarrow> string \<Rightarrow> string \<Rightarrow> string \<Rightarrow> string \<Rightarrow> go_error + S3Admin" where
  "NewS3Admin mc endpoint accessKeyID secretAccessKey region =
     newS3Client mc endpoint accessKeyID secretAccessKey region False"

definition NewS3VirtualHosted :: "'w minio \<Rightarrow> string \<Rightarrow> string \<Rightarrow> string \<Rightarrow> string \<Rightarrow> go_error + S3Admin" where
  "NewS3VirtualHosted mc endpoint accessKeyID secretAccessKey region =
     newS3Client mc endpoint accessKeyID secretAccessKey region True"

section \<open>Policies and tags\<close>

definition SetBucketPolicy :: "'w minio \<Rightarrow> S3Admin \<Rightarrow> string \<Rightarrow> string \<Rightarrow> ('w st, go_error, unit) fallible" where
  "SetBucketPolicy mc s3 bucket policy =
     check (callOut (mc_SetBucketPolicy mc s3 bucket policy) (\<lambda>r. CSetPolicy bucket policy (isOk r)))
       (\<lambda>err. fault (wrapf (''set bucket policy on '' @ quoted bucket @ '': '') err)) ret"

definition GetBucketPolicy :: "'w minio \<Rightarrow> S3Admin \<Rightarrow> string \<Rightarrow> ('w st, go_error, string) fallible" where
  "GetBucketPolicy mc s3 bucket =
     callOut (mc_GetBucketPolicy mc s3 bucket) (\<lambda>r. CGetPolicy bucket (okVal r))"

definition SetBucketTags :: "'w minio \<Rightarrow> S3Admin \<Rightarrow> string \<Rightarrow> string gomap \<Rightarrow> ('w st, go_error, unit) fallible" where
  "SetBucketTags mc s3 bucket kv =
     (case mc_MapToBucketTags mc kv of
        Some err \<Rightarrow> fault (wrapf (''build bucket tags for '' @ quoted bucket @ '': '') err)
      | None \<Rightarrow>
          check (callOut (mc_SetBucketTagging mc s3 bucket kv) (\<lambda>r. CSetTags bucket kv (isOk r)))
            (\<lambda>err. fault (wrapf (''set bucket tagging on '' @ quoted bucket @ '': '') err)) ret)"

definition BucketTags :: "'w minio \<Rightarrow> S3Admin \<Rightarrow> string \<Rightarrow> ('w st, go_error, string gomap) fallible" where
  "BucketTags mc s3 bucket =
     check (callOut (mc_GetBucketTagging mc s3 bucket) (\<lambda>r. CGetTags bucket r))
       (\<lambda>err. if fst (s3Response err) = ''NoSuchTagSet'' \<or> snd (s3Response err) = 404 then ret []
          else fault (wrapf (''get bucket tagging on '' @ quoted bucket @ '': '') err))
       ret"

section \<open>Contents\<close>

definition ListObjects :: "'w minio \<Rightarrow> S3Admin \<Rightarrow> string \<Rightarrow> bool \<Rightarrow> ('w st, ObjectInfo list \<times> go_error option) handler" where
  "ListObjects mc s3 bucket withVersions =
     callOut (mc_ListObjects mc s3 bucket withVersions) (\<lambda>r. CListObjects bucket withVersions (fst r, snd r = None))"

text \<open>The listing feeds the removal until it is exhausted or fails; a removal error is reported
  first.\<close>

definition WipeBucket :: "'w minio \<Rightarrow> S3Admin \<Rightarrow> string \<Rightarrow> ('w st, go_error, unit) fallible" where
  "WipeBucket mc s3 bucket =
     after (ListObjects mc s3 bucket True) (\<lambda>(objs, listErr).
       after (callOut (mc_RemoveObjects mc s3 bucket objs) (\<lambda>r. CRemoveObjects bucket (r = None)))
         (\<lambda>rm. case rm of
            Some (name, err) \<Rightarrow> fault (wrapf (''wipe bucket '' @ quoted bucket @ '': delete object '' @ quoted name @ '': '') err)
          | None \<Rightarrow> (case listErr of
              Some err \<Rightarrow> fault (wrapf (''wipe bucket '' @ quoted bucket @ '': list objects: '') err)
            | None \<Rightarrow> ret ())))"

record BucketStats =
  bs_Bytes :: int
  bs_Objects :: int
  bs_VersionBytes :: int
  bs_VersionObjects :: int
  bs_Truncated :: bool

definition zeroStats :: BucketStats where
  "zeroStats = \<lparr>bs_Bytes = 0, bs_Objects = 0, bs_VersionBytes = 0, bs_VersionObjects = 0, bs_Truncated = False\<rparr>"

definition BillableBytes :: "BucketStats \<Rightarrow> int" where
  "BillableBytes b = bs_Bytes b + bs_VersionBytes b"

definition countEntry :: "bool \<Rightarrow> ObjectInfo \<Rightarrow> BucketStats \<Rightarrow> BucketStats" where
  "countEntry includeVersions obj st =
     (if o_IsDeleteMarker obj then st\<lparr>bs_VersionObjects := bs_VersionObjects st + 1\<rparr>
      else if includeVersions \<and> \<not> o_IsLatest obj
        then st\<lparr>bs_VersionObjects := bs_VersionObjects st + 1, bs_VersionBytes := bs_VersionBytes st + o_Size obj\<rparr>
      else st\<lparr>bs_Objects := bs_Objects st + 1, bs_Bytes := bs_Bytes st + o_Size obj\<rparr>)"

text \<open>The measuring loop over the listing: the cap ends it before a later listing error is seen.\<close>

fun statsLoop :: "bool \<Rightarrow> int \<Rightarrow> int \<Rightarrow> BucketStats \<Rightarrow> ObjectInfo list \<Rightarrow> go_error option \<Rightarrow> go_error + BucketStats" where
  "statsLoop includeVersions maxEntries seen st [] listErr =
     (case listErr of Some err \<Rightarrow> Inl err | None \<Rightarrow> Inr st)"
| "statsLoop includeVersions maxEntries seen st (obj # objs) listErr =
     (let st' = countEntry includeVersions obj st; seen' = seen + 1 in
      if 0 < maxEntries \<and> maxEntries \<le> seen' then Inr (st'\<lparr>bs_Truncated := True\<rparr>)
      else statsLoop includeVersions maxEntries seen' st' objs listErr)"

definition measureBucket :: "'w minio \<Rightarrow> S3Admin \<Rightarrow> string \<Rightarrow> bool \<Rightarrow> int \<Rightarrow> ('w st, go_error, BucketStats) fallible" where
  "measureBucket mc s3 bucket includeVersions maxEntries =
     after (ListObjects mc s3 bucket includeVersions) (\<lambda>(objs, listErr).
       case statsLoop includeVersions maxEntries 0 zeroStats objs listErr of
         Inl err \<Rightarrow> fault (wrapf (''list objects in '' @ quoted bucket @ '': '') err)
       | Inr st \<Rightarrow> ret st)"

definition BucketUsage :: "'w minio \<Rightarrow> S3Admin \<Rightarrow> string \<Rightarrow> ('w st, go_error, int) fallible" where
  "BucketUsage mc s3 bucket =
     andThen (measureBucket mc s3 bucket False 0) (\<lambda>st. ret (bs_Bytes st))"

definition BucketEmpty :: "'w minio \<Rightarrow> S3Admin \<Rightarrow> string \<Rightarrow> ('w st, go_error, bool) fallible" where
  "BucketEmpty mc s3 bucket =
     after (ListObjects mc s3 bucket False) (\<lambda>(objs, listErr).
       case objs of
         [] \<Rightarrow> (case listErr of None \<Rightarrow> ret True
           | Some err \<Rightarrow> fault (wrapf (''list objects in '' @ quoted bucket @ '': '') err))
       | _ \<Rightarrow> ret False)"

lemmas s3_defs = SetBucketPolicy_def GetBucketPolicy_def SetBucketTags_def BucketTags_def ListObjects_def
  WipeBucket_def measureBucket_def BucketUsage_def BucketEmpty_def

section \<open>Footprints\<close>

lemma keeps_list [keeps_rules]:
  "(xs = [] \<Longrightarrow> keeps I m) \<Longrightarrow> (\<And>y ys. xs = y # ys \<Longrightarrow> keeps I (n y ys)) \<Longrightarrow>
    keeps I (case xs of [] \<Rightarrow> m | y # ys \<Rightarrow> n y ys)"
  by (cases xs) auto

lemma only_list [only_rules]:
  "(xs = [] \<Longrightarrow> calls_only A m) \<Longrightarrow> (\<And>y ys. xs = y # ys \<Longrightarrow> calls_only A (n y ys)) \<Longrightarrow>
    calls_only A (case xs of [] \<Rightarrow> m | y # ys \<Rightarrow> n y ys)"
  by (cases xs) auto

lemma keeps_s3 [keeps_rules]:
  assumes "ext_stable I"
  shows "keeps I (SetBucketPolicy mc s3 b p)" "keeps I (GetBucketPolicy mc s3 b)" "keeps I (SetBucketTags mc s3 b kv)"
    "keeps I (BucketTags mc s3 b)" "keeps I (WipeBucket mc s3 b)" "keeps I (measureBucket mc s3 b v m)"
    "keeps I (BucketUsage mc s3 b)" "keeps I (BucketEmpty mc s3 b)"
  unfolding s3_defs by (intro keeps_rules assms)+

lemma only_s3 [only_rules]:
  "(\<And>x. A (CSetPolicy b p x)) \<Longrightarrow> calls_only A (SetBucketPolicy mc s3 b p)"
  "(\<And>x. A (CGetPolicy b x)) \<Longrightarrow> calls_only A (GetBucketPolicy mc s3 b)"
  "(\<And>x. A (CSetTags b kv x)) \<Longrightarrow> calls_only A (SetBucketTags mc s3 b kv)"
  "(\<And>x. A (CGetTags b x)) \<Longrightarrow> calls_only A (BucketTags mc s3 b)"
  "(\<And>v x. A (CListObjects b v x)) \<Longrightarrow> (\<And>x. A (CRemoveObjects b x)) \<Longrightarrow> calls_only A (WipeBucket mc s3 b)"
  "(\<And>v x. A (CListObjects b v x)) \<Longrightarrow> calls_only A (BucketUsage mc s3 b)"
  "(\<And>v x. A (CListObjects b v x)) \<Longrightarrow> calls_only A (measureBucket mc s3 b v m)"
  "(\<And>v x. A (CListObjects b v x)) \<Longrightarrow> calls_only A (BucketEmpty mc s3 b)"
  unfolding s3_defs by (intro only_rules only_callOut; simp)+

section \<open>The measurement\<close>

definition isCurrent :: "bool \<Rightarrow> ObjectInfo \<Rightarrow> bool" where
  "isCurrent includeVersions obj \<longleftrightarrow> \<not> o_IsDeleteMarker obj \<and> (o_IsLatest obj \<or> \<not> includeVersions)"

text \<open>What a full pass over a list of entries counts.\<close>

definition tally :: "bool \<Rightarrow> ObjectInfo list \<Rightarrow> BucketStats \<Rightarrow> BucketStats" where
  "tally v objs st = fold (countEntry v) objs st"

lemma statsLoop_tally:
  assumes "maxEntries \<le> 0 \<or> seen < maxEntries"
  shows "statsLoop v maxEntries seen st objs listErr =
    (if 0 < maxEntries \<and> maxEntries \<le> seen + int (length objs)
     then Inr ((tally v (take (nat (maxEntries - seen)) objs) st)\<lparr>bs_Truncated := True\<rparr>)
     else case listErr of Some err \<Rightarrow> Inl err | None \<Rightarrow> Inr (tally v objs st))"
  using assms
proof (induction v maxEntries seen st objs listErr rule: statsLoop.induct)
  case (2 v maxEntries seen st obj objs listErr)
  have "nat (maxEntries - seen) = Suc (nat (maxEntries - (seen + 1)))" if "seen < maxEntries"
    using that by simp
  with 2 show ?case by (auto simp: tally_def Let_def split: option.split)
qed (auto simp: tally_def split: option.splits)

lemma tally_sums:
  "bs_Objects (tally v objs st) = bs_Objects st + int (length (filter (isCurrent v) objs))"
  "bs_VersionObjects (tally v objs st) = bs_VersionObjects st + int (length (filter (\<lambda>x. \<not> isCurrent v x) objs))"
  "bs_Bytes (tally v objs st) = bs_Bytes st + sum_list (map o_Size (filter (isCurrent v) objs))"
  "bs_VersionBytes (tally v objs st) = bs_VersionBytes st +
     sum_list (map o_Size (filter (\<lambda>x. \<not> isCurrent v x \<and> \<not> o_IsDeleteMarker x) objs))"
  "bs_Truncated (tally v objs st) = bs_Truncated st"
  by (induction objs arbitrary: st) (auto simp: tally_def countEntry_def isCurrent_def)

section \<open>Properties\<close>

text \<open>The measurement accounts for every listed entry exactly once. Without reaching the cap
  and without a listing error, current objects and non-current entries (delete markers among them)
  partition the listing, their byte counts are the sums of the sizes, and nothing is reported as
  truncated; with the cap reached exactly that many entries were counted and the result says so.\<close>

lemma bucketStats_partition:
  assumes "statsLoop v maxEntries 0 zeroStats objs listErr = Inr st"
  shows "bs_Objects st + bs_VersionObjects st =
      (if bs_Truncated st then maxEntries else int (length objs)) \<and>
    (bs_Truncated st \<longleftrightarrow> 0 < maxEntries \<and> maxEntries \<le> int (length objs)) \<and>
    (let seen = (if bs_Truncated st then take (nat maxEntries) objs else objs) in
     bs_Bytes st = sum_list (map o_Size (filter (isCurrent v) seen)) \<and>
     BillableBytes st = sum_list (map o_Size (filter (\<lambda>x. \<not> o_IsDeleteMarker x) seen)))"
proof -
  have billable: "sum_list (map o_Size (filter (isCurrent v) xs)) +
      sum_list (map o_Size (filter (\<lambda>x. \<not> isCurrent v x \<and> \<not> o_IsDeleteMarker x) xs)) =
      sum_list (map o_Size (filter (\<lambda>x. \<not> o_IsDeleteMarker x) xs))" for xs
    by (induction xs) (auto simp: isCurrent_def)
  have len: "int (length (filter (isCurrent v) xs)) + int (length (filter (\<lambda>x. \<not> isCurrent v x) xs)) = int (length xs)"
    for xs using sum_length_filter_compl [of "isCurrent v" xs] by linarith
  have z: "maxEntries \<le> 0 \<or> 0 < maxEntries" by linarith
  show ?thesis
    using assms billable len
    unfolding statsLoop_tally [OF z]
    by (auto simp: tally_sums zeroStats_def BillableBytes_def min_def split: if_splits option.splits)
qed

text \<open>The empty check errs on the safe side. \<open>BucketEmpty\<close> answers that the bucket is empty only
  when a complete listing of its current objects returned none; an object listed before an error
  means not empty, and an error before any object is reported.\<close>

lemma bucketEmpty_exact:
  "fst (BucketEmpty mc s3 bucket s) =
     (case fst (mc_ListObjects mc s3 bucket False (s_world s)) of
        ([], None) \<Rightarrow> Inr True
      | ([], Some err) \<Rightarrow> Inl (wrapf (''list objects in '' @ quoted bucket @ '': '') err)
      | (_ # _, _) \<Rightarrow> Inr False)"
  by (auto simp: BucketEmpty_def ListObjects_def callOut_def run_simps split: prod.splits list.splits option.splits)

end
