(* ===== verification/FakeCloud.thy ===== *)
theory FakeCloud
  imports S3Client
begin

text \<open>
  The in-memory STACKIT of \<open>internal/stackitfake/fake.go\<close>: the server state and one definition per
  HTTP handler, each a function on the state whose result is the answer as the SDK (control plane)
  or minio (data plane) hands it to the caller: an API error carries the status and the JSON body
  \<open>apiError\<close> writes, an injected raw failure the injected body. The request routing and the JSON and
  XML encodings in between are in \<open>FakeHTTP\<close>.

  The second half puts the server into a concrete world, with an in-memory cluster beside it, and
  instantiates the records of \<open>World\<close>; the witnesses of the development run there. The
  interpretation of \<open>steady\<close> is on that client.
\<close>

section \<open>Server state\<close>

record fakeBucket =
  fb_Objects :: "ObjectInfo list"
  fb_Tags :: "string gomap"
  fb_Policy :: string

record fakeGroup =
  fg_URN :: string
  fg_DisplayName :: string
  fg_Keys :: "AccessKey list"

record Server =
  sv_ProjectID :: string
  sv_Region :: string
  sv_URL :: string
  sv_enabled :: bool
  sv_buckets :: "fakeBucket gomap"
  sv_groups :: "fakeGroup gomap"
  sv_seq :: nat
  sv_failNext :: "int gomap"
  sv_failNextRaw :: "(int \<times> string \<times> string) gomap"
  sv_calls :: "nat gomap"
  sv_omitNext :: "string list"

definition NewServer :: "string \<Rightarrow> string \<Rightarrow> string \<Rightarrow> Server" where
  "NewServer projectID region url =
     \<lparr>sv_ProjectID = projectID, sv_Region = region, sv_URL = url, sv_enabled = True, sv_buckets = [], sv_groups = [],
      sv_seq = 0, sv_failNext = [], sv_failNextRaw = [], sv_calls = [], sv_omitNext = []\<rparr>"

definition DisableService :: "Server \<Rightarrow> Server" where
  "DisableService s = s\<lparr>sv_enabled := False\<rparr>"

definition FailNext :: "string \<Rightarrow> int \<Rightarrow> Server \<Rightarrow> Server" where
  "FailNext op status s = s\<lparr>sv_failNext := mput op status (sv_failNext s)\<rparr>"

definition FailNextRaw :: "string \<Rightarrow> int \<Rightarrow> string \<Rightarrow> string \<Rightarrow> Server \<Rightarrow> Server" where
  "FailNextRaw op status contentType body s = s\<lparr>sv_failNextRaw := mput op (status, contentType, body) (sv_failNextRaw s)\<rparr>"

definition OmitFromNextListing :: "string \<Rightarrow> Server \<Rightarrow> Server" where
  "OmitFromNextListing gid s = s\<lparr>sv_omitNext := gid # sv_omitNext s\<rparr>"

definition SeedBucket :: "string \<Rightarrow> string gomap \<Rightarrow> Server \<Rightarrow> Server" where
  "SeedBucket name tags s =
     s\<lparr>sv_buckets := mput name \<lparr>fb_Objects = [], fb_Tags = tags, fb_Policy = []\<rparr> (sv_buckets s)\<rparr>"

definition countCall :: "string \<Rightarrow> Server \<Rightarrow> Server" where
  "countCall op s =
     s\<lparr>sv_calls := mput op ((case map_of (sv_calls s) op of None \<Rightarrow> 0 | Some n \<Rightarrow> n) + 1) (sv_calls s)\<rparr>"

definition failFor :: "string \<Rightarrow> Server \<Rightarrow> int option \<times> Server" where
  "failFor op s =
     (case map_of (sv_failNext s) op of
        Some st \<Rightarrow> (Some st, (countCall op s)\<lparr>sv_failNext := AList.delete op (sv_failNext s)\<rparr>)
      | None \<Rightarrow> (None, countCall op s))"

text \<open>The error envelope of the control plane; the JSON encoder ends it with a newline.\<close>

definition apiError :: "int \<Rightarrow> string \<Rightarrow> go_error" where
  "apiError status msg = ApiError status (marshal (JObj [(''message'', JStr msg)]) @ [CHR 0x0A]) msg"

definition cpFail :: "string \<Rightarrow> Server \<Rightarrow> go_error option \<times> Server" where
  "cpFail op s =
     (case map_of (sv_failNextRaw s) op of
        Some (st, ct, body) \<Rightarrow>
          (Some (ApiError st body body), (countCall op s)\<lparr>sv_failNextRaw := AList.delete op (sv_failNextRaw s)\<rparr>)
      | None \<Rightarrow>
          (case failFor op s of (Some st, s') \<Rightarrow> (Some (apiError st (''injected '' @ op @ '' failure'')), s')
           | (None, s') \<Rightarrow> (None, s')))"

text \<open>Serve an operation unless a failure is armed for it.\<close>

definition serve :: "string \<Rightarrow> (Server \<Rightarrow> (go_error + 'a) \<times> Server) \<Rightarrow> Server \<Rightarrow> (go_error + 'a) \<times> Server" where
  "serve op f s = (case cpFail op s of (Some e, s') \<Rightarrow> (Inl e, s') | (None, s') \<Rightarrow> f s')"

definition nextID :: "string \<Rightarrow> Server \<Rightarrow> string \<times> Server" where
  "nextID prefix s = (prefix @ ''-'' @ showNat (sv_seq s + 1), s\<lparr>sv_seq := sv_seq s + 1\<rparr>)"

definition bucketURL :: "Server \<Rightarrow> string \<Rightarrow> string" where
  "bucketURL s name = sv_URL s @ ''/'' @ name"

section \<open>Control plane\<close>

definition serviceStatus :: "Server \<Rightarrow> (go_error + unit) \<times> Server" where
  "serviceStatus = serve ''ServiceStatus''
     (\<lambda>s. (if \<not> sv_enabled s then Inl (apiError 404 ''object storage not enabled'') else Inr (), s))"

definition enableService :: "Server \<Rightarrow> (go_error + unit) \<times> Server" where
  "enableService = serve ''EnableService'' (\<lambda>s. (Inr (), s\<lparr>sv_enabled := True\<rparr>))"

definition handleListBuckets :: "string \<Rightarrow> Server \<Rightarrow> (go_error + string list) \<times> Server" where
  "handleListBuckets projectID s =
     (if projectID \<noteq> sv_ProjectID s then (Inl (apiError 403 (''no permission on project '' @ projectID)), s)
      else serve ''ListBuckets'' (\<lambda>s. (Inr (sort (map fst (sv_buckets s))), s)) s)"

definition createBucket :: "string \<Rightarrow> Server \<Rightarrow> (go_error + unit) \<times> Server" where
  "createBucket name = serve ''CreateBucket'' (\<lambda>s.
     if map_of (sv_buckets s) name \<noteq> None then (Inl (apiError 409 ''bucket already exists''), s)
     else (Inr (), s\<lparr>sv_buckets := mput name \<lparr>fb_Objects = [], fb_Tags = [], fb_Policy = []\<rparr> (sv_buckets s)\<rparr>))"

definition getBucket :: "string \<Rightarrow> Server \<Rightarrow> (go_error + string) \<times> Server" where
  "getBucket name = serve ''GetBucket'' (\<lambda>s.
     if map_of (sv_buckets s) name = None then (Inl (apiError 404 ''bucket not found''), s)
     else (Inr (bucketURL s name), s))"

definition deleteBucket :: "string \<Rightarrow> Server \<Rightarrow> (go_error + unit) \<times> Server" where
  "deleteBucket name = serve ''DeleteBucket'' (\<lambda>s.
     case map_of (sv_buckets s) name of
       None \<Rightarrow> (Inl (apiError 404 ''bucket not found''), s)
     | Some b \<Rightarrow>
         if fb_Objects b \<noteq> [] then (Inl (apiError 409 ''bucket is not empty''), s)
         else (Inr (), s\<lparr>sv_buckets := AList.delete name (sv_buckets s)\<rparr>))"

definition handleCreateGroup :: "string \<Rightarrow> Server \<Rightarrow> (go_error + string \<times> string) \<times> Server" where
  "handleCreateGroup displayName = serve ''CreateGroup'' (\<lambda>s.
     if displayName = [] then (Inl (apiError 400 ''missing displayName''), s)
     else case nextID ''cg'' s of (gid, s') \<Rightarrow>
       let urn = ''urn:sgws:identity::'' @ sv_ProjectID s' @ '':group/'' @ gid in
       (Inr (gid, urn),
        s'\<lparr>sv_groups := mput gid \<lparr>fg_URN = urn, fg_DisplayName = displayName, fg_Keys = []\<rparr> (sv_groups s')\<rparr>))"

definition handleDeleteGroup :: "string \<Rightarrow> Server \<Rightarrow> (go_error + unit) \<times> Server" where
  "handleDeleteGroup gid = serve ''DeleteGroup'' (\<lambda>s.
     case map_of (sv_groups s) gid of
       None \<Rightarrow> (Inl (apiError 404 ''credentials group not found''), s)
     | Some g \<Rightarrow>
         if fg_Keys g \<noteq> [] then (Inl (apiError 422 ''credentials group still has access keys''), s)
         else (Inr (), s\<lparr>sv_groups := AList.delete gid (sv_groups s)\<rparr>))"

definition handleListGroups :: "Server \<Rightarrow> (go_error + CredentialsGroupInfo list) \<times> Server" where
  "handleListGroups = serve ''ListGroups'' (\<lambda>s.
     (Inr (map (\<lambda>gid. case map_of (sv_groups s) gid of
               Some g \<Rightarrow> \<lparr>g_ID = gid, g_URN = fg_URN g, g_DisplayName = fg_DisplayName g\<rparr>
             | None \<Rightarrow> \<lparr>g_ID = gid, g_URN = [], g_DisplayName = []\<rparr>)
        (sort (filter (\<lambda>gid. gid \<notin> set (sv_omitNext s)) (map fst (sv_groups s))))),
      s\<lparr>sv_omitNext := []\<rparr>))"

definition handleCreateKey :: "string \<Rightarrow> Server \<Rightarrow> (go_error + AccessKey) \<times> Server" where
  "handleCreateKey gid = serve ''CreateKey'' (\<lambda>s.
     case map_of (sv_groups s) gid of
       None \<Rightarrow> (Inl (apiError 404 ''credentials group not found''), s)
     | Some g \<Rightarrow>
         (case nextID ''key'' s of (kid, s') \<Rightarrow>
            let ak = \<lparr>ak_AccessKeyID = ''AK'' @ kid, ak_SecretAccessKey = ''SK'' @ kid, ak_KeyID = kid\<rparr> in
            (Inr ak, s'\<lparr>sv_groups := mput gid (g\<lparr>fg_Keys := fg_Keys g @ [ak]\<rparr>) (sv_groups s')\<rparr>)))"

fun removeKey :: "string \<Rightarrow> AccessKey list \<Rightarrow> AccessKey list option" where
  "removeKey kid [] = None"
| "removeKey kid (k # ks) = (if ak_KeyID k = kid then Some ks else map_option (Cons k) (removeKey kid ks))"

definition handleDeleteKey :: "string \<Rightarrow> string \<Rightarrow> Server \<Rightarrow> (go_error + unit) \<times> Server" where
  "handleDeleteKey gid kid = serve ''DeleteKey'' (\<lambda>s.
     case map_of (sv_groups s) gid of
       None \<Rightarrow> (Inl (apiError 500 ''credentials-group query parameter required''), s)
     | Some g \<Rightarrow>
         (case removeKey kid (fg_Keys g) of
            None \<Rightarrow> (Inl (apiError 404 ''access key not found''), s)
          | Some ks \<Rightarrow> (Inr (), s\<lparr>sv_groups := mput gid (g\<lparr>fg_Keys := ks\<rparr>) (sv_groups s)\<rparr>)))"

definition handleListKeys :: "string \<Rightarrow> Server \<Rightarrow> (go_error + string list) \<times> Server" where
  "handleListKeys gid = serve ''ListKeys'' (\<lambda>s.
     case map_of (sv_groups s) gid of
       None \<Rightarrow> (Inl (apiError 404 ''credentials group not found''), s)
     | Some g \<Rightarrow> (Inr (map ak_KeyID (fg_Keys g)), s))"

section \<open>Data plane\<close>

definition s3Error :: "int \<Rightarrow> string \<Rightarrow> string \<Rightarrow> go_error" where
  "s3Error status code msg = S3Error code status msg"

text \<open>A data-plane request addresses an existing bucket; an armed failure is served as
  \<open>AccessDenied\<close>.\<close>

definition dataPlane :: "string \<Rightarrow> string \<Rightarrow> (fakeBucket \<Rightarrow> Server \<Rightarrow> (go_error + 'a) \<times> Server)
    \<Rightarrow> Server \<Rightarrow> (go_error + 'a) \<times> Server" where
  "dataPlane op name f s =
     (case map_of (sv_buckets s) name of
        None \<Rightarrow> (Inl (s3Error 404 ''NoSuchBucket'' (''bucket '' @ name @ '' does not exist'')), s)
      | Some b \<Rightarrow>
          (case failFor op s of
             (Some st, s') \<Rightarrow> (Inl (s3Error st ''AccessDenied'' (''injected '' @ op @ '' failure'')), s')
           | (None, s') \<Rightarrow> f b s'))"

definition getPolicy :: "string \<Rightarrow> Server \<Rightarrow> (go_error + string) \<times> Server" where
  "getPolicy name = dataPlane ''S3GetPolicy'' name (\<lambda>b s.
     if fb_Policy b = [] then (Inl (s3Error 404 ''NoSuchBucketPolicy'' (''no policy on '' @ name)), s)
     else (Inr (fb_Policy b), s))"

definition putPolicy :: "string \<Rightarrow> string \<Rightarrow> Server \<Rightarrow> (go_error + unit) \<times> Server" where
  "putPolicy name policy = dataPlane ''S3PutPolicy'' name (\<lambda>b s.
     (Inr (), s\<lparr>sv_buckets := mput name (b\<lparr>fb_Policy := policy\<rparr>) (sv_buckets s)\<rparr>))"

definition getTagging :: "string \<Rightarrow> Server \<Rightarrow> (go_error + string gomap) \<times> Server" where
  "getTagging name = dataPlane ''S3GetTagging'' name (\<lambda>b s.
     if fb_Tags b = [] then (Inl (s3Error 404 ''NoSuchTagSet'' (''no tags on '' @ name)), s)
     else (Inr (sort_key fst (fb_Tags b)), s))"

definition putTagging :: "string \<Rightarrow> string gomap \<Rightarrow> Server \<Rightarrow> (go_error + unit) \<times> Server" where
  "putTagging name tags = dataPlane ''S3PutTagging'' name (\<lambda>b s.
     (Inr (), s\<lparr>sv_buckets := mput name (b\<lparr>fb_Tags := tags\<rparr>) (sv_buckets s)\<rparr>))"

definition handleListVersions :: "string \<Rightarrow> Server \<Rightarrow> (go_error + ObjectInfo list) \<times> Server" where
  "handleListVersions name = dataPlane ''S3ListObjects'' name (\<lambda>b s. (Inr (fb_Objects b), s))"

definition handleListObjectsV2 :: "string \<Rightarrow> Server \<Rightarrow> (go_error + ObjectInfo list) \<times> Server" where
  "handleListObjectsV2 name = dataPlane ''S3ListObjects'' name (\<lambda>b s.
     (Inr (filter (\<lambda>obj. \<not> o_IsDeleteMarker obj \<and> o_IsLatest obj) (fb_Objects b)), s))"

definition removeVersion :: "ObjectInfo \<Rightarrow> ObjectInfo list \<Rightarrow> ObjectInfo list" where
  "removeVersion target = filter (\<lambda>obj. \<not> (o_Key obj = o_Key target \<and>
     (o_VersionID target = [] \<or> o_VersionID obj = o_VersionID target)))"

definition handleMultiDelete :: "string \<Rightarrow> ObjectInfo list \<Rightarrow> Server \<Rightarrow> (go_error + unit) \<times> Server" where
  "handleMultiDelete name targets = dataPlane ''S3Delete'' name (\<lambda>b s.
     (Inr (), s\<lparr>sv_buckets := mput name (b\<lparr>fb_Objects := fold removeVersion targets (fb_Objects b)\<rparr>) (sv_buckets s)\<rparr>))"

section \<open>A concrete world\<close>

record fworld =
  fw_cloud :: Server
  fw_now :: int
  fw_crs :: "Bucket list"
  fw_secrets :: "((string \<times> string) \<times> Secret) list"
  fw_jobs :: "((string \<times> string) \<times> Job) list"

definition onCloud :: "(Server \<Rightarrow> 'r \<times> Server) \<Rightarrow> fworld \<Rightarrow> 'r \<times> fworld" where
  "onCloud f w = (case f (fw_cloud w) of (r, c) \<Rightarrow> (r, w\<lparr>fw_cloud := c\<rparr>))"

definition fakeAPI :: "fworld api" where
  "fakeAPI = \<lparr>api_GetServiceStatus = onCloud serviceStatus, api_EnableService = onCloud enableService,
     api_CreateBucket = (\<lambda>n. onCloud (createBucket n)), api_GetBucket = (\<lambda>n. onCloud (getBucket n)),
     api_DeleteBucket = (\<lambda>n. onCloud (deleteBucket n)), api_ListBuckets = (\<lambda>p. onCloud (handleListBuckets p)),
     api_CreateCredentialsGroup = (\<lambda>n. onCloud (handleCreateGroup n)),
     api_DeleteCredentialsGroup = (\<lambda>g. onCloud (handleDeleteGroup g)),
     api_ListCredentialsGroups = onCloud handleListGroups,
     api_CreateAccessKey = (\<lambda>g. onCloud (handleCreateKey g)),
     api_DeleteAccessKey = (\<lambda>g k. onCloud (handleDeleteKey g k)),
     api_ListAccessKeys = (\<lambda>g. onCloud (handleListKeys g))\<rparr>"

text \<open>minio maps a missing policy to the empty document.\<close>

definition fakeMinio :: "fworld minio" where
  "fakeMinio = \<lparr>mc_New = (\<lambda>_. None), mc_MapToBucketTags = (\<lambda>_. None),
     mc_SetBucketPolicy = (\<lambda>_ b p. onCloud (putPolicy b p)),
     mc_GetBucketPolicy = (\<lambda>_ b w. case onCloud (getPolicy b) w of
        (Inl e, w') \<Rightarrow> (if fst (s3Response e) = ''NoSuchBucketPolicy'' then Inr [] else Inl e, w')
      | (Inr p, w') \<Rightarrow> (Inr p, w')),
     mc_SetBucketTagging = (\<lambda>_ b kv. onCloud (putTagging b kv)),
     mc_GetBucketTagging = (\<lambda>_ b. onCloud (getTagging b)),
     mc_ListObjects = (\<lambda>_ b v w. case onCloud (if v then handleListVersions b else handleListObjectsV2 b) w of
        (Inl e, w') \<Rightarrow> (([], Some e), w') | (Inr os, w') \<Rightarrow> ((os, None), w')),
     mc_RemoveObjects = (\<lambda>_ b os w. if os = [] then (None, w) else case onCloud (handleMultiDelete b os) w of
        (Inl e, w') \<Rightarrow> (Some (o_Key (hd os), e), w') | (Inr _, w') \<Rightarrow> (None, w'))\<rparr>"

definition sameBucket :: "Bucket \<Rightarrow> Bucket \<Rightarrow> bool" where
  "sameBucket a b \<longleftrightarrow> b_Namespace a = b_Namespace b \<and> b_Name a = b_Name b"

definition notFound :: go_error where "notFound = KubeErr KNotFound ''not found''"

definition storeCR :: "(Bucket \<Rightarrow> Bucket) \<Rightarrow> Bucket \<Rightarrow> fworld \<Rightarrow> (go_error + Bucket) \<times> fworld" where
  "storeCR f b w =
     (case List.find (sameBucket b) (fw_crs w) of
        None \<Rightarrow> (Inl notFound, w)
      | Some old \<Rightarrow> (Inr (f old), w\<lparr>fw_crs := map (\<lambda>x. if sameBucket b x then f x else x) (fw_crs w)\<rparr>))"

definition zeroSecret :: Secret where
  "zeroSecret = \<lparr>sec_Labels = [], sec_Type = [], sec_Data = [], sec_Controller = None\<rparr>"

definition fakeKube :: "fworld kube" where
  "fakeKube = \<lparr>
     k_GetBucket = (\<lambda>ns n w. (case List.find (\<lambda>b. b_Namespace b = ns \<and> b_Name b = n) (fw_crs w) of
        None \<Rightarrow> Inl notFound | Some b \<Rightarrow> Inr b, w)),
     k_UpdateBucket = (\<lambda>b. storeCR (\<lambda>old. b\<lparr>b_Status := b_Status old\<rparr>) b),
     k_UpdateStatus = (\<lambda>b. storeCR (\<lambda>old. old\<lparr>b_Status := b_Status b\<rparr>) b),
     k_PatchStatus = (\<lambda>base b. storeCR (\<lambda>old. old\<lparr>b_Status := (b_Status old)\<lparr>st_Usage := st_Usage (b_Status b)\<rparr>\<rparr>) b),
     k_ListBuckets = (\<lambda>ns w. (Inr (filter (\<lambda>b. b_Namespace b = ns) (fw_crs w)), w)),
     k_GetSecret = (\<lambda>ns n w. (case map_of (fw_secrets w) (ns, n) of None \<Rightarrow> Inl notFound | Some x \<Rightarrow> Inr x, w)),
     k_UpsertSecret = (\<lambda>ns n f w.
        case f (case map_of (fw_secrets w) (ns, n) of None \<Rightarrow> zeroSecret | Some x \<Rightarrow> x) of
          Inl e \<Rightarrow> (Inl e, w)
        | Inr x \<Rightarrow> (Inr x, w\<lparr>fw_secrets := AList.update (ns, n) x (fw_secrets w)\<rparr>)),
     k_DeleteSecret = (\<lambda>ns n w. if map_of (fw_secrets w) (ns, n) = None then (Inl notFound, w)
        else (Inr (), w\<lparr>fw_secrets := AList.delete (ns, n) (fw_secrets w)\<rparr>)),
     k_GetJob = (\<lambda>ns n w. (case map_of (fw_jobs w) (ns, n) of None \<Rightarrow> Inl notFound | Some x \<Rightarrow> Inr x, w)),
     k_CreateJob = (\<lambda>j w. (Inr (), w\<lparr>fw_jobs := AList.update (job_Namespace j, job_Name j) j (fw_jobs w)\<rparr>)),
     k_DeleteJob = (\<lambda>ns n w. if map_of (fw_jobs w) (ns, n) = None then (Inl notFound, w)
        else (Inr (), w\<lparr>fw_jobs := AList.delete (ns, n) (fw_jobs w)\<rparr>)),
     k_ListPods = (\<lambda>ns j w. (Inr [], w)),
     k_HTTPPost = (\<lambda>u auth body w. (Inl (TransportError ''no pod''), w)),
     k_DecodeStats = (\<lambda>body. Inl (Msg ''unexpected end of JSON input'')),
     k_SetControllerReference = (\<lambda>b x. Inr (x\<lparr>sec_Controller := Some (b_UID b)\<rparr>))\<rparr>"

definition fakeSys :: "fworld sys" where
  "fakeSys = \<lparr>sys_Now = fw_now, sys_Sleep = (\<lambda>d w. (True, w\<lparr>fw_now := fw_now w + d\<rparr>)),
     sys_CtxErr = (\<lambda>_. CtxErr ''context canceled''), sys_RandRead = (\<lambda>n w. (Inr (replicate n (CHR ''A'')), w))\<rparr>"

definition fakeClient :: "string \<Rightarrow> string \<Rightarrow> fworld client" where
  "fakeClient projectID region = \<lparr>cl_ProjectID = projectID, cl_region = region, cl_api = fakeAPI, cl_sys = fakeSys\<rparr>"

definition emptyWorld :: fworld where
  "emptyWorld = \<lparr>fw_cloud = NewServer ''proj'' ''eu01'' ''https://s3.local'', fw_now = 0, fw_crs = [], fw_secrets = [], fw_jobs = []\<rparr>"

text \<open>A process that has just started, about to reconcile \<open>b\<close>.\<close>

definition fakeState :: "fworld \<Rightarrow> Bucket \<Rightarrow> fworld st" where
  "fakeState w b = \<lparr>s_world = w, s_obj = b, s_admin = None, s_breaker = None, s_serviceReady = False,
     s_verified = [], s_events = [], s_recreations = [], s_calls = []\<rparr>"

section \<open>Laws of the fake\<close>

lemma onCloud_now: "sys_Now fakeSys (snd (onCloud f w)) = sys_Now fakeSys w"
  by (simp add: onCloud_def fakeSys_def split: prod.splits)

lemma apiError_answer: "apiAnswer (apiError st msg) = Some st"
proof -
  have "unmarshal (marshal (JObj [(''message'', JStr msg)]) @ [CHR 0x0A]) \<noteq> None"
    by (subst unmarshal_encoded) simp_all
  then show ?thesis by (simp add: apiError_def apiAnswer_def jsonValid_def)
qed

lemma serve_proper:
  "(\<And>t. fst (f t) \<noteq> Inl OutOfFuel) \<Longrightarrow> fst (serve op f s) \<noteq> Inl OutOfFuel"
  by (auto simp: serve_def cpFail_def failFor_def apiError_def split: option.splits prod.splits if_splits)

interpretation fakeSteady: steady "fakeClient projectID region"
proof (unfold_locales, goal_cases)
  case (1 d w w')
  then show ?case by (auto simp: fakeClient_def fakeSys_def)
next
  case (2 w)
  show ?case using onCloud_now [of serviceStatus w] by (simp add: fakeClient_def fakeAPI_def)
next
  case (3 w p)
  show ?case using onCloud_now [of "handleListBuckets p" w] by (simp add: fakeClient_def fakeAPI_def)
next
  case (4 p w)
  have "fst (handleListBuckets p s) \<noteq> Inl OutOfFuel" for s
    using serve_proper [of "\<lambda>s. (Inr (sort (map fst (sv_buckets s))), s)" "''ListBuckets''" s]
    by (simp add: handleListBuckets_def apiError_def)
  then show ?case by (simp add: fakeClient_def fakeAPI_def onCloud_def split: prod.splits) (metis fst_conv)
next
  case (5 w)
  have "fst (enableService s) \<noteq> Inl OutOfFuel" for s
    unfolding enableService_def by (rule serve_proper) simp
  then show ?case by (simp add: fakeClient_def fakeAPI_def onCloud_def split: prod.splits) (metis fst_conv)
next
  case (6 w)
  show ?case by (simp add: fakeClient_def fakeSys_def)
qed

section \<open>Properties\<close>

text \<open>C36: the two polling loops of the client end. Whenever a sleep lasts at least as long as asked
  and the polled calls do not turn the clock back, \<open>WaitBucketVisible\<close> and \<open>EnsureService\<close> return
  an answer of their own (success, the error of a call, the cancelled context or their timeout),
  for every timeout and every behaviour of the provider.\<close>

theorem polling_terminates:
  assumes "steady c"
  shows "fst (WaitBucketVisible c name timeout s) \<noteq> Inl OutOfFuel \<and> fst (EnsureService c s) \<noteq> Inl OutOfFuel"
  using steady.WaitBucketVisible_ends [OF assms] steady.EnsureService_ends [OF assms] by blast

theorem polling_terminates_witness:
  "fst (WaitBucketVisible (fakeClient ''proj'' ''eu01'') ''b'' (seconds 60) (fakeState emptyWorld sampleBucket))
     \<noteq> Inl OutOfFuel"
  using polling_terminates [OF fakeSteady.steady_axioms] by blast

text \<open>Service enablement is never guessed. \<open>EnsureService\<close> asks the provider to enable the
  service only after the provider itself answered, in structured form, that it is not enabled; once
  the service was seen ready no further call is made.\<close>

lemma enable_only_on_answer:
  assumes "CEnableService ok \<in> set (s_calls (snd (EnsureService c s))) - set (s_calls s)"
  shows "\<not> s_serviceReady s \<and> (\<exists>e. fst (api_GetServiceStatus (cl_api c) (s_world s)) = Inl e \<and> apiAnswer e = Some 404)"
proof -
  have *: "\<not> s_serviceReady s" using assms by (auto simp: EnsureService_def run_simps)
  have "\<exists>e. fst (api_GetServiceStatus (cl_api c) (s_world s)) = Inl e \<and> isServiceNotEnabled e"
    using assms * by (auto simp: EnsureService_def run_simps callOut_def split: prod.splits sum.splits if_splits)
  with * show ?thesis
    by (auto simp: isServiceNotEnabled_def isStructuredNotFound_def split: option.splits)
qed

end
