(* ===== verification/Reconciler.thy ===== *)
theory Reconciler
  imports FakeCloud
begin

text \<open>
  The parts of \<open>internal/controller/bucket_controller.go\<close> every pass shares: the reconciler's
  configuration, events, conditions, and how a failed pass is recorded (\<open>fail\<close>,
  \<open>failNoRequeue\<close>, \<open>degrade\<close>, \<open>markFailedReason\<close>, \<open>holdForProvider\<close>), the naming and
  rotation helpers and the small pure functions. A pass mutates the Bucket in \<open>s_obj\<close>; a Kubernetes
  write that succeeds replaces it by what the server stored.

  The properties say when Ready survives a failure (\<open>hold_only_when_unverifiable\<close>), how a failure
  reaches the breaker (\<open>fail_feeds_breaker\<close>) and that definitive faults never do.
\<close>

section \<open>Configuration\<close>

record 'w reconciler =
  r_hasRecorder :: bool
  r_Stackit :: "'w client option"
  r_OperatorVersion :: string
  r_Naming :: BucketNaming
  r_AdminSecretName :: string
  r_AdminSecretNamespace :: string
  r_OwnershipName :: string
  r_EnableWipeOnDelete :: bool
  r_CloneImage :: string
  r_DriftResyncInterval :: int
  r_ProviderDegradedGrace :: int
  r_minio :: "'w minio"
  r_kube :: "'w kube"
  r_sys :: "'w sys"

text \<open>What a pass returns: \<open>ctrl.Result.RequeueAfter\<close> (zero: none) and the error.\<close>

type_synonym Result = "int \<times> go_error option"

definition managedByLabel :: string where "managedByLabel = ''app.kubernetes.io/managed-by''"
definition managedByValue :: string where "managedByValue = ''stackit-s3-provisioner''"
definition bucketVisibleTimeout :: int where "bucketVisibleTimeout = 60 * 10 ^ 9"
definition adminGroupName :: string where "adminGroupName = ''operator-admin''"
definition adminSecretKeyAccessKeyID :: string where "adminSecretKeyAccessKeyID = ''accessKeyID''"
definition adminSecretKeySecretAccessKey :: string where "adminSecretKeySecretAccessKey = ''secretAccessKey''"
definition adminSecretKeyURN :: string where "adminSecretKeyURN = ''urn''"
definition adminSecretKeyGroupID :: string where "adminSecretKeyGroupID = ''credentialsGroupID''"

section \<open>Conditions and events\<close>

text \<open>\<open>meta.SetStatusCondition\<close>, \<open>RemoveStatusCondition\<close>, \<open>FindStatusCondition\<close> and
  \<open>IsStatusConditionTrue\<close> of apimachinery, on a list keyed by type.\<close>

definition condition :: "string \<Rightarrow> bool \<Rightarrow> string \<Rightarrow> string \<Rightarrow> Condition" where
  "condition ty status reason msg =
     \<lparr>c_Type = ty, c_Status = status, c_Reason = reason, c_Message = msg, c_ObservedGeneration = 0\<rparr>"

fun setCondition :: "Condition \<Rightarrow> Condition list \<Rightarrow> Condition list" where
  "setCondition c [] = [c]"
| "setCondition c (d # ds) = (if c_Type d = c_Type c then c # ds else d # setCondition c ds)"

definition removeCondition :: "string \<Rightarrow> Condition list \<Rightarrow> Condition list" where
  "removeCondition ty = filter (\<lambda>c. c_Type c \<noteq> ty)"

definition findCondition :: "string \<Rightarrow> Condition list \<Rightarrow> Condition option" where
  "findCondition ty = List.find (\<lambda>c. c_Type c = ty)"

definition isConditionTrue :: "Condition list \<Rightarrow> string \<Rightarrow> bool" where
  "isConditionTrue cs ty = (case findCondition ty cs of None \<Rightarrow> False | Some c \<Rightarrow> c_Status c)"

definition raise :: "'w reconciler \<Rightarrow> bool \<Rightarrow> string \<Rightarrow> string \<Rightarrow> ('w st, unit) handler" where
  "raise r warning reason note =
     (if r_hasRecorder r
      then sets (\<lambda>s. s\<lparr>s_events := \<lparr>ev_Warning = warning, ev_Reason = reason, ev_Note = note\<rparr> # s_events s\<rparr>)
      else finish ())"

definition modObj :: "(Bucket \<Rightarrow> Bucket) \<Rightarrow> ('w st, unit) handler" where
  "modObj f = sets (\<lambda>s. s\<lparr>s_obj := f (s_obj s)\<rparr>)"

definition modStatus :: "(BucketStatus \<Rightarrow> BucketStatus) \<Rightarrow> ('w st, unit) handler" where
  "modStatus f = modObj (\<lambda>b. b\<lparr>b_Status := f (b_Status b)\<rparr>)"

text \<open>\<open>r.Status().Update(ctx, b)\<close> and \<open>r.Update(ctx, b)\<close>: the error, if any.\<close>

definition updateStatus :: "'w reconciler \<Rightarrow> ('w st, go_error option) handler" where
  "updateStatus r = reads (\<lambda>s.
     check (callOut (k_UpdateStatus (r_kube r) (s_obj s)) (\<lambda>x. KUpdateStatus (s_obj s) (isOk x)))
       (\<lambda>e. finish (Some e)) (\<lambda>b. andDo (modObj (\<lambda>_. b)) (finish None)))"

definition updateObj :: "'w reconciler \<Rightarrow> ('w st, go_error option) handler" where
  "updateObj r = reads (\<lambda>s.
     check (callOut (k_UpdateBucket (r_kube r) (s_obj s)) (\<lambda>x. KUpdateBucket (s_obj s) (isOk x)))
       (\<lambda>e. finish (Some e)) (\<lambda>b. andDo (modObj (\<lambda>_. b)) (finish None)))"

text \<open>\<open>client.IgnoreNotFound\<close>.\<close>

definition ignoreNotFound :: "go_error option \<Rightarrow> go_error option" where
  "ignoreNotFound e = (case e of Some err \<Rightarrow> if is_kube KNotFound err then None else Some err | None \<Rightarrow> None)"

section \<open>Recording a failed pass\<close>

definition holdsReadyThrough :: "'w reconciler \<Rightarrow> Bucket \<Rightarrow> go_error \<Rightarrow> bool" where
  "holdsReadyThrough r b err =
     (if r_ProviderDegradedGrace r \<le> 0 then False
      else if b_DeletionTimestamp b \<noteq> None then False
      else if ProviderRefused err then False
      else if is_sentinel ErrCredentialDestroyed err then False
      else st_ObservedGeneration (b_Status b) = b_Generation b \<and> st_Phase (b_Status b) = PhaseReady \<and>
        isConditionTrue (st_Conditions (b_Status b)) ConditionReady)"

definition degrade :: "'w reconciler \<Rightarrow> go_error \<Rightarrow> ('w st, bool) handler" where
  "degrade r err = reads (\<lambda>s.
     if \<not> holdsReadyThrough r (s_obj s) err then finish False
     else let now = clock (r_sys r) s in
       andDo (modStatus (\<lambda>t. if st_DegradedSince t = None then t\<lparr>st_DegradedSince := Some now\<rparr> else t))
         (if (case st_DegradedSince (b_Status (s_obj s)) of None \<Rightarrow> False
              | Some since \<Rightarrow> r_ProviderDegradedGrace r \<le> now - since)
          then finish False
          else andDo (modStatus (\<lambda>t. t\<lparr>st_Conditions := setCondition (condition ConditionProviderReachable False
                   ReasonProviderUnreachable (errText err)) (st_Conditions t),
                 st_Message := errText err, st_OperatorVersion := r_OperatorVersion r\<rparr>))
            (andDo (raise r True ReasonFailed (errText err))
              (after (updateStatus r) (\<lambda>_. finish True)))))"

definition recovering :: "Bucket \<Rightarrow> bool" where
  "recovering b \<longleftrightarrow> st_Phase (b_Status b) = PhaseFailed \<or> st_DegradedSince (b_Status b) \<noteq> None \<or>
     findCondition ConditionProviderReachable (st_Conditions (b_Status b)) \<noteq> None \<or>
     findCondition ConditionBucketPresent (st_Conditions (b_Status b)) \<noteq> None"

definition clearDegraded :: "BucketStatus \<Rightarrow> BucketStatus" where
  "clearDegraded t = t\<lparr>st_DegradedSince := None,
     st_Conditions := removeCondition ConditionProviderReachable (st_Conditions t)\<rparr>"

definition markFailedReason :: "'w reconciler \<Rightarrow> string \<Rightarrow> go_error \<Rightarrow> ('w st, unit) handler" where
  "markFailedReason r reason err =
     andDo (modObj (\<lambda>b. b\<lparr>b_Status := (b_Status b)\<lparr>
         st_Conditions := setCondition (condition ConditionReady False reason (errText err)) (st_Conditions (b_Status b)),
         st_Phase := PhaseFailed, st_Message := errText err, st_ObservedGeneration := b_Generation b,
         st_OperatorVersion := r_OperatorVersion r\<rparr>\<rparr>))
       (andDo (raise r True reason (errText err)) (after (updateStatus r) (\<lambda>_. finish ())))"

definition markFailed :: "'w reconciler \<Rightarrow> go_error \<Rightarrow> ('w st, unit) handler" where
  "markFailed r err = markFailedReason r ReasonFailed err"

text \<open>\<open>r.Breaker.Failure()\<close> and \<open>r.Breaker.Success()\<close> at the current time.\<close>

definition breakerFailure :: "'w reconciler \<Rightarrow> ('w st, int \<times> bool) handler" where
  "breakerFailure r s =
     (case Failure (s_breaker s) (clock (r_sys r) s) of (res, br) \<Rightarrow> (res, s\<lparr>s_breaker := br\<rparr>))"

definition breakerSuccess :: "('w st, unit) handler" where
  "breakerSuccess = sets (\<lambda>s. s\<lparr>s_breaker := Success (s_breaker s)\<rparr>)"

definition fail :: "'w reconciler \<Rightarrow> go_error \<Rightarrow> ('w st, Result) handler" where
  "fail r err =
     after (degrade r err) (\<lambda>held.
       andDo (if held then finish () else markFailed r err)
         (after (breakerFailure r) (\<lambda>(wait, opened).
            if opened then finish (wait, None) else finish (0, Some err))))"

definition failNoRequeue :: "'w reconciler \<Rightarrow> go_error \<Rightarrow> ('w st, Result) handler" where
  "failNoRequeue r err = andDo (markFailed r err) (finish (0, None))"

definition providerHoldNeedsWrite :: "'w reconciler \<Rightarrow> Bucket \<Rightarrow> int \<Rightarrow> bool" where
  "providerHoldNeedsWrite r b now =
     (if st_Phase (b_Status b) = PhaseFailed then False
      else case st_DegradedSince (b_Status b) of None \<Rightarrow> True
        | Some since \<Rightarrow> 0 < r_ProviderDegradedGrace r \<and> r_ProviderDegradedGrace r \<le> now - since)"

definition errProviderUnavailable :: go_error where
  "errProviderUnavailable = Sentinel ErrProviderUnavailable ''StackIT API unavailable (provider circuit open)''"

definition holdForProvider :: "'w reconciler \<Rightarrow> int \<Rightarrow> ('w st, Result) handler" where
  "holdForProvider r wait = reads (\<lambda>s.
     andDo (if providerHoldNeedsWrite r (s_obj s) (clock (r_sys r) s)
            then let err = Wrap [] errProviderUnavailable (''; next provider probe in '' @ durString (roundSeconds wait)) in
              after (degrade r err) (\<lambda>held. if held then finish () else markFailed r err)
            else finish ())
       (finish (wait, None)))"

section \<open>Names and identities\<close>

definition decideBucketName :: "BucketNaming \<Rightarrow> Bucket \<Rightarrow> string \<times> bool" where
  "decideBucketName naming b =
     (if st_ResolvedBucketName (b_Status b) \<noteq> [] then (st_ResolvedBucketName (b_Status b), False)
      else if mget (b_Annotations b) ResolvedBucketNameAnnotation \<noteq> []
        then (mget (b_Annotations b) ResolvedBucketNameAnnotation, False)
      else if st_BucketURL (b_Status b) \<noteq> [] then (sp_BucketName (b_Spec b), False)
      else (ComposeBucketName naming b, True))"

definition persistResolvedName :: "'w reconciler \<Rightarrow> string \<Rightarrow> ('w st, go_error option) handler" where
  "persistResolvedName r name = reads (\<lambda>s.
     if mget (b_Annotations (s_obj s)) ResolvedBucketNameAnnotation = name then finish None
     else andDo (modObj (\<lambda>b. b\<lparr>b_Annotations := mput ResolvedBucketNameAnnotation name (b_Annotations b)\<rparr>))
       (updateObj r))"

text \<open>FNV-1a, 32 bits: the prime is 16777619 and the offset basis 2166136261.\<close>

definition fnv32a :: "string \<Rightarrow> 32 word" where
  "fnv32a s = fold (\<lambda>c h. (xor h (of_nat (of_char c))) * 16777619) s 2166136261"

fun hexNat :: "nat \<Rightarrow> nat \<Rightarrow> string" where
  "hexNat 0 n = []"
| "hexNat (Suc d) n = hexNat d (n div 16) @ [hexDigit (n mod 16)]"

definition shortHash :: "string \<Rightarrow> string" where
  "shortHash s = hexNat 8 (unat (fnv32a s))"

definition maxGroupNameLen :: nat where "maxGroupNameLen = 32"

definition truncatedName :: "nat \<Rightarrow> string \<Rightarrow> string \<Rightarrow> string" where
  "truncatedName maxLen suffix base =
     (let keep = maxLen - length suffix - 1 in
      (if keep < length base then take keep base else base) @ ''-'' @ suffix)"

definition workloadGroupName :: "Bucket \<Rightarrow> string" where
  "workloadGroupName b =
     truncatedName maxGroupNameLen (shortHash (b_Namespace b @ ''/'' @ b_Name b))
       (''s3op-'' @ b_Namespace b @ ''-'' @ b_Name b)"

definition secretHasCreds :: "Secret \<Rightarrow> Bucket \<Rightarrow> bool" where
  "secretHasCreds sec b =
     (let keys = sr_Keys (sp_SecretRef (b_Spec b)) in
      mget (sec_Data sec) (AccessKeyIDKey keys) \<noteq> [] \<and> mget (sec_Data sec) (SecretAccessKeyKey keys) \<noteq> [])"

definition secretAccessKeyID :: "Secret \<Rightarrow> Bucket \<Rightarrow> string" where
  "secretAccessKeyID sec b = mget (sec_Data sec) (AccessKeyIDKey (sr_Keys (sp_SecretRef (b_Spec b))))"

definition adminFromSecret :: "Secret \<Rightarrow> adminCreds option" where
  "adminFromSecret sec =
     (let ak = mget (sec_Data sec) adminSecretKeyAccessKeyID;
          sk = mget (sec_Data sec) adminSecretKeySecretAccessKey;
          urn = mget (sec_Data sec) adminSecretKeyURN
      in if ak = [] \<or> sk = [] \<or> urn = [] then None
         else Some \<lparr>ac_accessKeyID = ak, ac_secretAccessKey = sk, ac_urn = urn,
           ac_groupID = mget (sec_Data sec) adminSecretKeyGroupID\<rparr>)"

definition provisioningSettled :: "Bucket \<Rightarrow> bool" where
  "provisioningSettled b \<longleftrightarrow> st_ObservedGeneration (b_Status b) = b_Generation b \<and>
     (st_Phase (b_Status b) = PhaseReady \<or> st_Phase (b_Status b) = PhaseFailed)"

definition markProvisioning :: "'w reconciler \<Rightarrow> ('w st, unit) handler" where
  "markProvisioning r = reads (\<lambda>s.
     if provisioningSettled (s_obj s) \<or> st_Phase (b_Status (s_obj s)) = PhaseProvisioning then finish ()
     else andDo (modStatus (\<lambda>t. t\<lparr>st_Phase := PhaseProvisioning,
         st_Message := ''provisioning bucket and workload credentials''\<rparr>))
       (after (updateStatus r) (\<lambda>_. finish ())))"

definition isAdminSecret :: "'w reconciler \<Rightarrow> Bucket \<Rightarrow> bool" where
  "isAdminSecret r b \<longleftrightarrow> sr_Name (sp_SecretRef (b_Spec b)) = r_AdminSecretName r \<and>
     b_Namespace b = r_AdminSecretNamespace r"

definition specGuardError :: "'w reconciler \<Rightarrow> 'w client \<Rightarrow> Bucket \<Rightarrow> go_error option" where
  "specGuardError r c b =
     (case ValidateSecretKeys b of Some err \<Rightarrow> Some err
      | None \<Rightarrow>
          if isAdminSecret r b
          then Some (Msg (''secretRef '' @ b_Namespace b @ ''/'' @ sr_Name (sp_SecretRef (b_Spec b)) @
            '' targets the operator'' @ [CHR 0x27] @ ''s admin credentials Secret; refusing to provision''))
          else if GetRegion b \<noteq> cl_region c
          then Some (Msg (''spec.region '' @ quoted (GetRegion b) @ '' does not match this operator'' @ [CHR 0x27] @
            ''s region '' @ quoted (cl_region c) @ ''; provisioning is limited to '' @ quoted (cl_region c)))
          else None)"

definition reasonRotated :: string where "reasonRotated = ''CredentialsRotated''"

definition recordPendingRotation :: "'w reconciler \<Rightarrow> ('w st, unit) handler" where
  "recordPendingRotation r = reads (\<lambda>s.
     let trigger = PendingRotationTrigger (s_obj s) in
     if trigger = [] then finish ()
     else andDo (modStatus (\<lambda>t. t\<lparr>st_LastRotationTrigger := trigger, st_LastRotationTime := Some (clock (r_sys r) s)\<rparr>))
       (raise r False reasonRotated ''workload access key rotated (rotate-credentials-at annotation)''))"

lemmas status_defs = degrade_def markFailedReason_def markFailed_def fail_def failNoRequeue_def
  holdForProvider_def updateStatus_def updateObj_def modStatus_def modObj_def raise_def breakerFailure_def
  breakerSuccess_def

text \<open>The hash on integers, which the kernel evaluates quickly.\<close>

definition fnvInt :: "string \<Rightarrow> int" where
  "fnvInt s = fold (\<lambda>c h. (xor h (of_char c) * 16777619) mod 4294967296) s 2166136261"

fun hexInt :: "nat \<Rightarrow> int \<Rightarrow> string" where
  "hexInt 0 n = []"
| "hexInt (Suc d) n = hexInt d (n div 16) @ [hexDigit (nat (n mod 16))]"

lemma fnv_step: "uint (xor h (of_nat (of_char c)) * 16777619 :: 32 word) = (xor (uint h) (of_char c) * 16777619) mod 4294967296"
proof -
  have u: "uint (of_nat n :: 32 word) = int (take_bit 32 n)" for n by (simp add: unsigned_of_nat)
  have "take_bit 32 (of_char c) = (of_char c :: nat)"
    by (rule take_bit_nat_eq_self) (rule order.strict_trans [of _ 256], simp_all)
  then have "uint (of_nat (of_char c) :: 32 word) = of_char c"
    unfolding u by (simp only: of_nat_of_char)
  then show ?thesis by (simp add: uint_word_ariths unsigned_xor_eq)
qed

lemma uint_fnv32a: "uint (fnv32a s) = fnvInt s"
proof -
  have "uint (fold (\<lambda>c h. xor h (of_nat (of_char c)) * 16777619) s (h :: 32 word)) =
      fold (\<lambda>c h. (xor h (of_char c) * 16777619) mod 4294967296) s (uint h)" for h
    by (induction s arbitrary: h) (simp_all add: fnv_step)
  then show ?thesis by (simp add: fnv32a_def fnvInt_def)
qed

lemma hexNat_int: "hexNat d n = hexInt d (int n)"
  by (induction d arbitrary: n) (simp_all add: zdiv_int nat_mod_distrib)

lemma shortHash_code [code]: "shortHash s = hexInt 8 (fnvInt s)"
  by (simp add: shortHash_def hexNat_int uint_fnv32a)

section \<open>A concrete reconciler\<close>

text \<open>The reconciler of the witnesses: the fake provider and cluster, a grace of ten minutes.\<close>

definition fakeReconciler :: "fworld reconciler" where
  "fakeReconciler = \<lparr>r_hasRecorder = True, r_Stackit = Some (fakeClient ''proj'' ''eu01''), r_OperatorVersion = ''v1'',
     r_Naming = \<lparr>bn_Prefix = ''c1'', bn_IncludeNamespace = True\<rparr>, r_AdminSecretName = ''admin-creds'',
     r_AdminSecretNamespace = ''ops'', r_OwnershipName = [], r_EnableWipeOnDelete = False, r_CloneImage = [],
     r_DriftResyncInterval = seconds 600, r_ProviderDegradedGrace = seconds 600, r_minio = fakeMinio,
     r_kube = fakeKube, r_sys = fakeSys\<rparr>"

definition readyBucket :: Bucket where
  "readyBucket = sampleBucket\<lparr>b_Finalizers := [BucketFinalizer],
     b_Annotations := [(ResolvedBucketNameAnnotation, ''c1-team-data'')],
     b_Status := zeroStatus\<lparr>st_Phase := PhaseReady, st_ObservedGeneration := 1, st_ResolvedBucketName := ''c1-team-data'',
       st_CredentialsGroupID := ''cg-2'', st_Conditions := [condition ConditionReady True ReasonProvisioned []]\<rparr>\<rparr>"

section \<open>Footprints\<close>

lemma only_local [only_rules]:
  "calls_only A (raise r w x y)" "calls_only A (modObj f)" "calls_only A (modStatus g)" "calls_only A (breakerFailure r)"
  "calls_only A breakerSuccess"
  by (rule only_same, simp add: status_defs sets_def finish_def split: prod.splits)+

lemma only_status [only_rules]:
  assumes "\<And>b ok. A (KUpdateStatus b ok)"
  shows "calls_only A (updateStatus r)" "calls_only A (degrade r e)" "calls_only A (markFailedReason r x e)"
    "calls_only A (markFailed r e)" "calls_only A (fail r e)" "calls_only A (failNoRequeue r e)"
    "calls_only A (holdForProvider r wt)" "calls_only A (markProvisioning r)"
proof -
  show u: "calls_only A (updateStatus r)" unfolding updateStatus_def by (intro only_rules only_callOut assms)
  show d: "calls_only A (degrade r e)" for e unfolding degrade_def by (intro only_rules u)
  show m: "calls_only A (markFailedReason r x e)" for x e unfolding markFailedReason_def by (intro only_rules u)
  show "calls_only A (markFailed r e)" unfolding markFailed_def by (rule m)
  show "calls_only A (fail r e)" unfolding fail_def markFailed_def by (intro only_rules d m)
  show "calls_only A (failNoRequeue r e)" unfolding failNoRequeue_def markFailed_def by (intro only_rules m)
  show "calls_only A (holdForProvider r wt)" unfolding holdForProvider_def markFailed_def by (intro only_rules d m)
  show "calls_only A (markProvisioning r)" unfolding markProvisioning_def by (intro only_rules u)
qed

lemma only_updateObj [only_rules]: "(\<And>b ok. A (KUpdateBucket b ok)) \<Longrightarrow> calls_only A (updateObj r)"
  unfolding updateObj_def by (intro only_rules only_callOut)

lemma only_persistResolvedName [only_rules]:
  "(\<And>b ok. A (KUpdateBucket b ok)) \<Longrightarrow> calls_only A (persistResolvedName r n)"
  unfolding persistResolvedName_def by (intro only_rules)

lemma only_recordPendingRotation [only_rules]: "calls_only A (recordPendingRotation r)"
  unfolding recordPendingRotation_def by (intro only_rules)

text \<open>Conditions.\<close>

lemma findCondition_set:
  "findCondition ty (setCondition c cs) = (if ty = c_Type c then Some c else findCondition ty cs)"
  by (induction c cs rule: setCondition.induct) (auto simp: findCondition_def)

lemma isConditionTrue_set:
  "isConditionTrue (setCondition c cs) ty = (if ty = c_Type c then c_Status c else isConditionTrue cs ty)"
  by (simp add: isConditionTrue_def findCondition_set)

lemma findCondition_remove:
  "findCondition ty (removeCondition ty' cs) = (if ty = ty' then None else findCondition ty cs)"
  by (induction cs) (auto simp: findCondition_def removeCondition_def)

lemma cond_types:
  "ConditionReady \<noteq> ConditionProviderReachable" "ConditionReady \<noteq> ConditionBucketPresent"
  "ConditionProviderReachable \<noteq> ConditionBucketPresent" "ConditionReady \<noteq> ConditionCloneCompleted"
  "ConditionProviderReachable \<noteq> ConditionReady" "ConditionBucketPresent \<noteq> ConditionReady"
  "ConditionBucketPresent \<noteq> ConditionProviderReachable"
  by (simp_all add: api_consts)

text \<open>What each way of ending a pass writes: one status update, whose object is known.\<close>

lemma raise_simps [simp]:
  "s_calls (snd (raise r w x y s)) = s_calls s" "s_obj (snd (raise r w x y s)) = s_obj s"
  "s_world (snd (raise r w x y s)) = s_world s" "s_breaker (snd (raise r w x y s)) = s_breaker s"
  by (simp_all add: raise_def exec)

lemma mod_run [exec]:
  "modObj f s = ((), s\<lparr>s_obj := f (s_obj s)\<rparr>)"
  "modStatus g s = ((), s\<lparr>s_obj := (s_obj s)\<lparr>b_Status := g (b_Status (s_obj s))\<rparr>\<rparr>)"
  by (simp_all add: modStatus_def modObj_def exec)

lemma breaker_run [exec]:
  "breakerFailure r s = (fst (Failure (s_breaker s) (clock (r_sys r) s)),
     s\<lparr>s_breaker := snd (Failure (s_breaker s) (clock (r_sys r) s))\<rparr>)"
  "breakerSuccess s = ((), s\<lparr>s_breaker := Success (s_breaker s)\<rparr>)"
  by (simp_all add: breakerFailure_def breakerSuccess_def exec split: prod.split)

text \<open>The answer of the server to a status update, and the state it leaves.\<close>

definition statusAnswer :: "'w reconciler \<Rightarrow> 'w st \<Rightarrow> go_error + Bucket" where
  "statusAnswer r s = fst (k_UpdateStatus (r_kube r) (s_obj s) (s_world s))"

lemma updateStatus_run:
  "s_calls (snd (updateStatus r s)) = KUpdateStatus (s_obj s) (isOk (statusAnswer r s)) # s_calls s"
  "s_breaker (snd (updateStatus r s)) = s_breaker s"
  "s_obj (snd (updateStatus r s)) = (case statusAnswer r s of Inl e \<Rightarrow> s_obj s | Inr b \<Rightarrow> b)"
  "fst (updateStatus r s) = errVal (statusAnswer r s)"
  "s_world (snd (updateStatus r s)) = snd (k_UpdateStatus (r_kube r) (s_obj s) (s_world s))"
  by (auto simp: updateStatus_def exec statusAnswer_def split: sum.split)

definition failedStatus :: "'w reconciler \<Rightarrow> string \<Rightarrow> go_error \<Rightarrow> Bucket \<Rightarrow> Bucket" where
  "failedStatus r reason err b = b\<lparr>b_Status := (b_Status b)\<lparr>
     st_Conditions := setCondition (condition ConditionReady False reason (errText err)) (st_Conditions (b_Status b)),
     st_Phase := PhaseFailed, st_Message := errText err, st_ObservedGeneration := b_Generation b,
     st_OperatorVersion := r_OperatorVersion r\<rparr>\<rparr>"

lemma failedStatus_simps:
  "st_Phase (b_Status (failedStatus r reason err b)) = PhaseFailed"
  "\<not> isConditionTrue (st_Conditions (b_Status (failedStatus r reason err b))) ConditionReady"
  "findCondition ConditionReady (st_Conditions (b_Status (failedStatus r reason err b))) =
     Some (condition ConditionReady False reason (errText err))"
  "st_DegradedSince (b_Status (failedStatus r reason err b)) = st_DegradedSince (b_Status b)"
  by (simp_all add: failedStatus_def isConditionTrue_set findCondition_set condition_def)

lemma markFailedReason_run:
  "\<exists>ok. s_calls (snd (markFailedReason r reason err s)) = KUpdateStatus (failedStatus r reason err (s_obj s)) ok # s_calls s"
  "s_breaker (snd (markFailedReason r reason err s)) = s_breaker s"
  by (simp_all add: markFailedReason_def exec updateStatus_run failedStatus_def)

text \<open>The two records of a failure: Ready held with the degradation noted, or Failed.\<close>

definition heldStatus :: "go_error \<Rightarrow> Bucket \<Rightarrow> bool" where
  "heldStatus err b \<longleftrightarrow> st_DegradedSince (b_Status b) \<noteq> None \<and> st_Message (b_Status b) = errText err"

definition failedBucket :: "go_error \<Rightarrow> Bucket \<Rightarrow> bool" where
  "failedBucket err b \<longleftrightarrow> st_Phase (b_Status b) = PhaseFailed \<and> \<not> isConditionTrue (st_Conditions (b_Status b)) ConditionReady \<and>
     st_Message (b_Status b) = errText err \<and> st_ObservedGeneration (b_Status b) = b_Generation b"

lemma failedStatus_failed: "failedBucket err (failedStatus r reason err b)"
  by (simp add: failedBucket_def failedStatus_simps) (simp add: failedStatus_def)

lemma degrade_shape:
  "s_breaker (snd (degrade r err s)) = s_breaker s \<and>
   (if fst (degrade r err s) then \<exists>b ok. s_calls (snd (degrade r err s)) = KUpdateStatus b ok # s_calls s \<and> heldStatus err b
    else s_calls (snd (degrade r err s)) = s_calls s)"
  by (auto simp: degrade_def exec Let_def updateStatus_run heldStatus_def split: option.split)

lemma fail_shape:
  "\<exists>b ok now. s_calls (snd (fail r err s)) = KUpdateStatus b ok # s_calls s \<and>
     (if fst (degrade r err s) then heldStatus err b else failedBucket err b) \<and>
     s_breaker (snd (fail r err s)) = snd (Failure (s_breaker s) now) \<and>
     fst (fail r err s) = (case fst (Failure (s_breaker s) now) of (wait, opened) \<Rightarrow> if opened then (wait, None) else (0, Some err))"
proof -
  let ?s1 = "snd (degrade r err s)"
  let ?s2 = "snd ((if fst (degrade r err s) then finish () else markFailed r err) ?s1)"
  have run: "fail r err s = ((case fst (Failure (s_breaker ?s2) (clock (r_sys r) ?s2)) of (wait, opened) \<Rightarrow>
        if opened then (wait, None) else (0, Some err)),
      ?s2\<lparr>s_breaker := snd (Failure (s_breaker ?s2) (clock (r_sys r) ?s2))\<rparr>)"
    by (simp add: fail_def exec split: prod.split)
  have br: "s_breaker ?s2 = s_breaker s"
    using degrade_shape [of r err s] by (simp add: exec markFailed_def markFailedReason_run)
  have "\<exists>b ok. s_calls ?s2 = KUpdateStatus b ok # s_calls s \<and> (if fst (degrade r err s) then heldStatus err b else failedBucket err b)"
  proof (cases "fst (degrade r err s)")
    case True
    with degrade_shape [of r err s] show ?thesis by (simp add: exec)
  next
    case False
    obtain ok where "s_calls (snd (markFailed r err ?s1)) = KUpdateStatus (failedStatus r ReasonFailed err (s_obj ?s1)) ok # s_calls ?s1"
      using markFailedReason_run(1) [of r ReasonFailed err ?s1] by (auto simp: markFailed_def)
    with False degrade_shape [of r err s] show ?thesis by (auto simp: failedStatus_failed)
  qed
  then show ?thesis unfolding run br by auto
qed

section \<open>Properties\<close>



text \<open>C23: how a failed pass ends. \<open>fail\<close> always writes one status, and it is a Failed one unless
  \<open>degrade\<close> held Ready: in particular after the provider's refusal or a destroyed credential. The
  breaker receives exactly one failure, and the pass returns the breaker's wait without error when
  that opened it, the error otherwise.\<close>

theorem fail_records_failure:
  "\<exists>b ok. s_calls (snd (fail r err s)) = KUpdateStatus b ok # s_calls s \<and>
     (fst (degrade r err s) \<or>
      (st_Phase (b_Status b) = PhaseFailed \<and> \<not> isConditionTrue (st_Conditions (b_Status b)) ConditionReady \<and>
       st_Message (b_Status b) = errText err \<and> st_ObservedGeneration (b_Status b) = b_Generation b)) \<and>
     (\<exists>now. s_breaker (snd (fail r err s)) = snd (Failure (s_breaker s) now) \<and>
        fst (fail r err s) = (case fst (Failure (s_breaker s) now) of (wait, opened) \<Rightarrow>
          if opened then (wait, None) else (0, Some err)))"
proof -
  obtain b ok now where "s_calls (snd (fail r err s)) = KUpdateStatus b ok # s_calls s"
    "if fst (degrade r err s) then heldStatus err b else failedBucket err b"
    "s_breaker (snd (fail r err s)) = snd (Failure (s_breaker s) now)"
    "fst (fail r err s) = (case fst (Failure (s_breaker s) now) of (wait, opened) \<Rightarrow> if opened then (wait, None) else (0, Some err))"
    using fail_shape [of r err s] by blast
  then show ?thesis by (auto simp: failedBucket_def split: if_splits)
qed

text \<open>C28: a bucket name, once frozen, stays. When the update that freezes it succeeds and the server
  stores the annotations it was sent, the next decision yields the same name and composes nothing,
  whatever the naming policy has become and even when the status was lost; a name recorded in the
  status wins over everything.\<close>

theorem frozen_name_stable:
  assumes stored: "\<And>b b' w w'. k_UpdateBucket (r_kube r) b w = (Inr b', w') \<Longrightarrow> b_Annotations b' = b_Annotations b"
    and "fst (persistResolvedName r name s) = None" and "name \<noteq> []"
  shows "decideBucketName naming ((s_obj (snd (persistResolvedName r name s)))\<lparr>b_Status := zeroStatus\<rparr>) = (name, False) \<and>
    (st_ResolvedBucketName (b_Status b) = name \<longrightarrow> decideBucketName naming b = (name, False) \<and> EffectiveBucketName b = name)"
proof -
  let ?b = "(s_obj s)\<lparr>b_Annotations := mput ResolvedBucketNameAnnotation name (b_Annotations (s_obj s))\<rparr>"
  have "mget (b_Annotations (s_obj (snd (persistResolvedName r name s)))) ResolvedBucketNameAnnotation = name"
  proof (cases "mget (b_Annotations (s_obj s)) ResolvedBucketNameAnnotation = name")
    case True
    then show ?thesis by (simp add: persistResolvedName_def exec)
  next
    case False
    obtain x w' where x: "k_UpdateBucket (r_kube r) ?b (s_world s) = (x, w')"
      by (cases "k_UpdateBucket (r_kube r) ?b (s_world s)") auto
    with False assms(2) obtain b' where "x = Inr b'"
      by (cases x) (auto simp: persistResolvedName_def updateObj_def exec)
    with x False stored [of ?b "s_world s" b' w'] show ?thesis
      by (simp add: persistResolvedName_def updateObj_def exec)
  qed
  with assms(3) show ?thesis
    by (simp add: decideBucketName_def zeroStatus_def EffectiveBucketName_def)
qed

lemma fakeKube_stores:
  "k_UpdateBucket (r_kube fakeReconciler) b w = (Inr b', w') \<Longrightarrow> b_Annotations b' = b_Annotations b"
  by (auto simp: fakeReconciler_def fakeKube_def storeCR_def split: option.splits)

theorem frozen_name_stable_witness:
  "decideBucketName \<lparr>bn_Prefix = ''other'', bn_IncludeNamespace = False\<rparr>
     ((s_obj (snd (persistResolvedName fakeReconciler ''c1-team-data''
        (fakeState (emptyWorld\<lparr>fw_crs := [sampleBucket]\<rparr>) sampleBucket))))\<lparr>b_Status := zeroStatus\<rparr>) = (''c1-team-data'', False)"
proof -
  have "fst (persistResolvedName fakeReconciler ''c1-team-data''
        (fakeState (emptyWorld\<lparr>fw_crs := [sampleBucket]\<rparr>) sampleBucket)) = None" by code_simp
  from frozen_name_stable [OF fakeKube_stores this] show ?thesis by simp
qed

lemma hexNat_length [simp]: "length (hexNat d n) = d"
  by (induction d arbitrary: n) simp_all

lemma truncatedName_length: "length suffix < maxLen \<Longrightarrow> length (truncatedName maxLen suffix base) \<le> maxLen"
  by (auto simp: truncatedName_def Let_def)

text \<open>The credentials-group display name fits the provider's limit: it has at most 32
  characters, for every namespace and name, and ends in the eight hexadecimal digits of the FNV-1a
  hash of \<open>namespace/name\<close>.\<close>

lemma workloadGroupName_bounded:
  "length (workloadGroupName b) \<le> 32 \<and>
   hasSuffix (workloadGroupName b) (CHR ''-'' # shortHash (b_Namespace b @ ''/'' @ b_Name b)) \<and>
   length (shortHash (b_Namespace b @ ''/'' @ b_Name b)) = 8"
proof -
  have "length (workloadGroupName b) \<le> 32"
    unfolding workloadGroupName_def maxGroupNameLen_def by (rule truncatedName_length) (simp add: shortHash_def)
  moreover have "\<exists>p. workloadGroupName b = p @ CHR ''-'' # shortHash (b_Namespace b @ ''/'' @ b_Name b)"
    by (simp add: workloadGroupName_def truncatedName_def Let_def)
  then have "hasSuffix (workloadGroupName b) (CHR ''-'' # shortHash (b_Namespace b @ ''/'' @ b_Name b))"
    by (metis hasSuffix_append)
  ultimately show ?thesis by (simp add: shortHash_def)
qed

text \<open>A rotation request is handled once. After \<open>recordPendingRotation\<close> no rotation is pending,
  whatever the annotation says; without a pending request the pass is left untouched.\<close>

lemma rotation_recorded:
  "PendingRotationTrigger (s_obj (snd (recordPendingRotation r s))) = [] \<and>
   (PendingRotationTrigger (s_obj s) = [] \<longrightarrow> snd (recordPendingRotation r s) = s)"
  by (auto simp: recordPendingRotation_def PendingRotationTrigger_def exec Let_def)

text \<open>The hold during an outage costs no provider call. \<open>holdForProvider\<close> returns the breaker's
  wait and no error, sends at most status updates, leaves the breaker alone, and writes nothing for a
  Bucket already recorded as Failed or already held within its grace.\<close>

lemma hold_is_quiet:
  "fst (holdForProvider r wait s) = (wait, None) \<and> s_breaker (snd (holdForProvider r wait s)) = s_breaker s \<and>
   (\<exists>new. s_calls (snd (holdForProvider r wait s)) = new @ s_calls s \<and>
      list_all (\<lambda>c. case c of KUpdateStatus _ _ \<Rightarrow> True | _ \<Rightarrow> False) new \<and>
      (providerHoldNeedsWrite r (s_obj s) (clock (r_sys r) s) \<or> new = []))"
proof -
  have "calls_only (\<lambda>c. case c of KUpdateStatus _ _ \<Rightarrow> True | _ \<Rightarrow> False) (holdForProvider r wait)"
    by (rule only_status) simp
  then obtain new where "s_calls (snd (holdForProvider r wait s)) = new @ s_calls s"
      "\<forall>c \<in> set new. (case c of KUpdateStatus _ _ \<Rightarrow> True | _ \<Rightarrow> False)"
    unfolding calls_only_def by blast
  moreover have "s_calls (snd (holdForProvider r wait s)) = s_calls s"
    if "\<not> providerHoldNeedsWrite r (s_obj s) (clock (r_sys r) s)"
    using that by (simp add: holdForProvider_def exec)
  moreover have "s_breaker (snd (degrade r e t)) = s_breaker t" for e t
    by (auto simp: degrade_def exec Let_def updateStatus_run split: option.split)
  then have "s_breaker (snd (holdForProvider r wait s)) = s_breaker s"
    by (simp add: holdForProvider_def exec Let_def markFailed_def markFailedReason_run)
  moreover have "fst (holdForProvider r wait s) = (wait, None)"
    by (simp add: holdForProvider_def exec)
  ultimately show ?thesis
    by (intro conjI exI [of _ new]) (auto simp: list_all_iff)
qed

end
