(* ===== verification/Policy.thy ===== *)
theory Policy
  imports Errors
begin

text \<open>
  The bucket policy of \<open>stackit/s3.go\<close>: \<open>BuildIsolationPolicy\<close> with
  \<open>sanitizeReaderURNs\<close>, the reader \<open>WorkloadPrincipalFromPolicy\<close> of the migration path, and
  the drift comparison \<open>PoliciesEquivalent\<close>. The document is built and read as JSON text, through
  the model of \<open>encoding/json\<close> in \<open>Json\<close>.

  \<open>denied\<close> is the abstract specification: the documented meaning of the deny statements of the
  policy language (\<open>Principal\<close>/\<open>NotPrincipal\<close>, \<open>Action\<close>/\<open>NotAction\<close>, \<open>Resource\<close>,
  with a trailing \<open>*\<close> as wildcard). \<open>isolation_exact\<close> shows that the text the operator writes,
  read back and interpreted that way, denies exactly what ADR 0003 says.
\<close>

section \<open>The document\<close>

definition effectDeny :: string where "effectDeny = ''Deny''"
definition actionAll :: string where "actionAll = ''s3:*''"
definition sidDenyAllExceptAdminAndWorkload :: string where
  "sidDenyAllExceptAdminAndWorkload = ''deny-all-except-admin-and-workload''"
definition sidWorkloadObjectsOnly :: string where
  "sidWorkloadObjectsOnly = ''workload-objects-only''"
definition sidGrantedReadersReadOnly :: string where
  "sidGrantedReadersReadOnly = ''granted-readers-read-only''"

definition workloadAllowedActions :: "string list" where
  "workloadAllowedActions =
     [''s3:GetObject'', ''s3:PutObject'', ''s3:PutOverwriteObject'', ''s3:DeleteObject'',
      ''s3:ListBucket'', ''s3:ListBucketVersions'', ''s3:GetBucketLocation'',
      ''s3:ListBucketMultipartUploads'', ''s3:ListMultipartUploadParts'', ''s3:AbortMultipartUpload'',
      ''s3:GetObjectTagging'', ''s3:PutObjectTagging'', ''s3:DeleteObjectTagging'',
      ''s3:GetObjectVersion'', ''s3:GetObjectVersionTagging'',
      ''s3:GetBucketVersioning'', ''s3:GetBucketObjectLockConfiguration'']"

definition readerAllowedActions :: "string list" where
  "readerAllowedActions =
     [''s3:GetObject'', ''s3:GetObjectVersion'',
      ''s3:ListBucket'', ''s3:ListBucketVersions'', ''s3:GetBucketLocation'',
      ''s3:GetObjectTagging'', ''s3:GetObjectVersionTagging'',
      ''s3:GetBucketVersioning'', ''s3:GetBucketObjectLockConfiguration'']"

fun keepURNs :: "string \<Rightarrow> string \<Rightarrow> string list \<Rightarrow> string list \<Rightarrow> string list" where
  "keepURNs adminURN workloadURN seen [] = []"
| "keepURNs adminURN workloadURN seen (r # rest) =
     (let urn = trimSpace r in
      if urn = [] \<or> urn = adminURN \<or> urn = workloadURN then keepURNs adminURN workloadURN seen rest
      else if urn \<in> set seen then keepURNs adminURN workloadURN seen rest
      else urn # keepURNs adminURN workloadURN (urn # seen) rest)"

definition sanitizeReaderURNs :: "string list \<Rightarrow> string \<Rightarrow> string \<Rightarrow> string list" where
  "sanitizeReaderURNs readerURNs adminURN workloadURN =
     (if readerURNs = [] then []
      else sort (keepURNs (trimSpace adminURN) (trimSpace workloadURN) [] readerURNs))"

definition jstrs :: "string list \<Rightarrow> json" where
  "jstrs xs = JArr (map JStr xs)"

definition policyResources :: "string \<Rightarrow> string list" where
  "policyResources bucket = [''arn:aws:s3:::'' @ bucket, ''arn:aws:s3:::'' @ bucket @ ''/*'']"

definition isolationStatements :: "string \<Rightarrow> string \<Rightarrow> string \<Rightarrow> string list \<Rightarrow> json list" where
  "isolationStatements bucket adminURN workloadURN readers =
     [JObj [(''Sid'', JStr sidDenyAllExceptAdminAndWorkload),
            (''Effect'', JStr effectDeny),
            (''NotPrincipal'', JObj [(''AWS'', jstrs ([adminURN, workloadURN] @ readers))]),
            (''Action'', jstrs [actionAll]),
            (''Resource'', jstrs (policyResources bucket))],
      JObj [(''Sid'', JStr sidWorkloadObjectsOnly),
            (''Effect'', JStr effectDeny),
            (''Principal'', JObj [(''AWS'', JStr workloadURN)]),
            (''NotAction'', jstrs workloadAllowedActions),
            (''Resource'', jstrs (policyResources bucket))]] @
     (if readers \<noteq> [] then
        [JObj [(''Sid'', JStr sidGrantedReadersReadOnly),
               (''Effect'', JStr effectDeny),
               (''Principal'', JObj [(''AWS'', jstrs readers)]),
               (''NotAction'', jstrs readerAllowedActions),
               (''Resource'', jstrs (policyResources bucket))]]
      else [])"

definition isolationDoc :: "string \<Rightarrow> string \<Rightarrow> string \<Rightarrow> string list \<Rightarrow> json" where
  "isolationDoc bucket adminURN workloadURN readerURNs =
     JObj [(''Statement'', JArr (isolationStatements bucket adminURN workloadURN
       (sanitizeReaderURNs readerURNs adminURN workloadURN)))]"

definition BuildIsolationPolicy :: "string \<Rightarrow> string \<Rightarrow> string \<Rightarrow> string list \<Rightarrow> string" where
  "BuildIsolationPolicy bucket adminURN workloadURN readerURNs =
     marshal (isolationDoc bucket adminURN workloadURN readerURNs)"

section \<open>Reading a policy back\<close>

definition toLower :: "string \<Rightarrow> string" where
  "toLower s = map (\<lambda>c. let n = of_char c :: nat in if 65 \<le> n \<and> n \<le> 90 then char_of (n + 32) else c) s"

text \<open>The members of an object that \<open>json.Unmarshal\<close> stores into the struct field \<open>name\<close>: keys
  are matched case-insensitively, in the order of the document.\<close>

definition members :: "string \<Rightarrow> (string \<times> json) list \<Rightarrow> json list" where
  "members name kvs = map snd (filter (\<lambda>kv. toLower (fst kv) = toLower name) kvs)"

text \<open>A \<open>string\<close> field: a JSON null leaves it unchanged, another non-string is an error
  (\<^const>\<open>None\<close>).\<close>

primrec decodeString :: "string \<Rightarrow> json list \<Rightarrow> string option" where
  "decodeString cur [] = Some cur"
| "decodeString cur (v # vs) =
     (case v of JStr s \<Rightarrow> decodeString s vs | JNull \<Rightarrow> decodeString cur vs | _ \<Rightarrow> None)"

text \<open>One element of \<open>Statement\<close>: its \<open>Sid\<close> and its \<open>Principal\<close> (an \<open>any\<close>).\<close>

definition decodeStatement :: "json \<Rightarrow> (string \<times> json) option" where
  "decodeStatement st =
     (case st of
        JNull \<Rightarrow> Some ([], JNull)
      | JObj kvs \<Rightarrow>
          (case decodeString [] (members ''Sid'' kvs) of None \<Rightarrow> None
           | Some sid \<Rightarrow> Some (sid, (case members ''Principal'' kvs of [] \<Rightarrow> JNull | ps \<Rightarrow> last ps)))
      | _ \<Rightarrow> None)"

primrec decodeAll :: "('a \<Rightarrow> 'b option) \<Rightarrow> 'a list \<Rightarrow> 'b list option" where
  "decodeAll f [] = Some []"
| "decodeAll f (x # xs) =
     (case f x of None \<Rightarrow> None | Some y \<Rightarrow> map_option (Cons y) (decodeAll f xs))"

definition decodeStatements :: "json \<Rightarrow> (string \<times> json) list option" where
  "decodeStatements v =
     (case v of JNull \<Rightarrow> Some [] | JArr sts \<Rightarrow> decodeAll decodeStatement sts | _ \<Rightarrow> None)"

definition decodePolicy :: "json \<Rightarrow> (string \<times> json) list option" where
  "decodePolicy v =
     (case v of
        JNull \<Rightarrow> Some []
      | JObj kvs \<Rightarrow>
          (case decodeAll decodeStatements (members ''Statement'' kvs) of None \<Rightarrow> None
           | Some [] \<Rightarrow> Some []
           | Some dss \<Rightarrow> Some (last dss))
      | _ \<Rightarrow> None)"

lemma json_size_member: "map_of (rev kvs) k = Some v \<Longrightarrow> size v < size (JObj kvs)"
proof -
  assume "map_of (rev kvs) k = Some v"
  then have "(k, v) \<in> set kvs" using map_of_SomeD by fastforce
  then have "size v < Suc (size_list (size_prod (\<lambda>_. 0) size) kvs)"
    by (induction kvs) auto
  then show ?thesis by (simp add: size_list_conv_sum_list)
qed

function principalStrings :: "json \<Rightarrow> string list" where
  "principalStrings (JStr s) = [s]"
| "principalStrings (JArr vs) =
     (case decodeAll (\<lambda>e. case e of JStr s \<Rightarrow> Some s | _ \<Rightarrow> None) vs of None \<Rightarrow> [] | Some out \<Rightarrow> out)"
| "principalStrings (JObj kvs) =
     (case map_of (rev kvs) ''AWS'' of None \<Rightarrow> [] | Some v \<Rightarrow> principalStrings v)"
| "principalStrings JNull = []"
| "principalStrings (JBool b) = []"
| "principalStrings (JNum n) = []"
  by pat_completeness auto
termination
  by (relation "measure size") (auto dest: json_size_member)

text \<open>The loop of \<open>WorkloadPrincipalFromPolicy\<close>.\<close>

primrec workloadPrincipal :: "(string \<times> json) list \<Rightarrow> string option" where
  "workloadPrincipal [] = None"
| "workloadPrincipal (st # rest) =
     (if fst st \<noteq> sidWorkloadObjectsOnly then workloadPrincipal rest
      else let principals = principalStrings (snd st) in
        if length principals \<noteq> 1 \<or> trimSpace (principals ! 0) = [] then None
        else Some (trimSpace (principals ! 0)))"

definition WorkloadPrincipalFromPolicy :: "string \<Rightarrow> string option" where
  "WorkloadPrincipalFromPolicy policy =
     (if trimSpace policy = [] then None
      else case unmarshal policy of None \<Rightarrow> None
        | Some v \<Rightarrow> (case decodePolicy v of None \<Rightarrow> None | Some sts \<Rightarrow> workloadPrincipal sts))"

definition normalizeJSON :: "string \<Rightarrow> string option" where
  "normalizeJSON s =
     (if trimSpace s = [] then Some [] else map_option marshal (unmarshal s))"

definition PoliciesEquivalent :: "string \<Rightarrow> string \<Rightarrow> bool" where
  "PoliciesEquivalent a b =
     (case (normalizeJSON a, normalizeJSON b) of
        (Some na, Some nb) \<Rightarrow> na = nb
      | _ \<Rightarrow> trimSpace a = trimSpace b)"

section \<open>The documented meaning of a policy\<close>

definition matches :: "string \<Rightarrow> string \<Rightarrow> bool" where
  "matches pat s = (if pat \<noteq> [] \<and> last pat = CHR ''*'' then hasPrefix s (butlast pat) else s = pat)"

definition member :: "json \<Rightarrow> string \<Rightarrow> json option" where
  "member v k = (case v of JObj kvs \<Rightarrow> map_of (rev kvs) k | _ \<Rightarrow> None)"

definition strings :: "json \<Rightarrow> string list" where
  "strings v = (case v of JStr s \<Rightarrow> [s]
     | JArr vs \<Rightarrow> concat (map (\<lambda>e. case e of JStr s \<Rightarrow> [s] | _ \<Rightarrow> []) vs) | _ \<Rightarrow> [])"

definition names :: "json \<Rightarrow> string \<Rightarrow> string \<Rightarrow> bool" where
  "names st k p =
     (case member st k of None \<Rightarrow> False
      | Some v \<Rightarrow> (case member v ''AWS'' of None \<Rightarrow> False | Some ps \<Rightarrow> p \<in> set (strings ps)))"

definition lists :: "json \<Rightarrow> string \<Rightarrow> string \<Rightarrow> bool" where
  "lists st k a =
     (case member st k of None \<Rightarrow> False | Some v \<Rightarrow> list_ex (\<lambda>pat. matches pat a) (strings v))"

definition denies :: "string \<Rightarrow> string \<Rightarrow> string \<Rightarrow> json \<Rightarrow> bool" where
  "denies p a r st \<longleftrightarrow>
     member st ''Effect'' = Some (JStr ''Deny'') \<and>
     (if member st ''NotPrincipal'' \<noteq> None then \<not> names st ''NotPrincipal'' p else names st ''Principal'' p) \<and>
     (if member st ''NotAction'' \<noteq> None then \<not> lists st ''NotAction'' a else lists st ''Action'' a) \<and>
     lists st ''Resource'' r"

definition statements :: "json \<Rightarrow> json list" where
  "statements doc = (case member doc ''Statement'' of Some (JArr sts) \<Rightarrow> sts | _ \<Rightarrow> [])"

text \<open>A policy text denies principal \<open>p\<close> the action \<open>a\<close> on resource \<open>r\<close> when a deny statement
  of the document it parses to matches; a text that does not parse denies everything (the provider
  never stores one).\<close>

definition denied :: "string \<Rightarrow> string \<Rightarrow> string \<Rightarrow> string \<Rightarrow> bool" where
  "denied policy p a r =
     (case unmarshal policy of None \<Rightarrow> True | Some doc \<Rightarrow> list_ex (denies p a r) (statements doc))"

section \<open>Readers\<close>

lemma set_keepURNs:
  "set (keepURNs a w seen rs) = {u. u \<in> trimSpace ` set rs \<and> u \<noteq> [] \<and> u \<noteq> a \<and> u \<noteq> w \<and> u \<notin> set seen}"
  by (induction a w seen rs rule: keepURNs.induct) (auto simp: Let_def)

lemma distinct_keepURNs: "distinct (keepURNs a w seen rs)"
  by (induction a w seen rs rule: keepURNs.induct) (auto simp: Let_def set_keepURNs)

lemma set_sanitizeReaderURNs:
  "set (sanitizeReaderURNs rs adminURN workloadURN) =
     {u. u \<in> trimSpace ` set rs \<and> u \<noteq> [] \<and> u \<noteq> trimSpace adminURN \<and> u \<noteq> trimSpace workloadURN}"
  by (auto simp: sanitizeReaderURNs_def set_keepURNs)

lemma sanitized_trimmed: "u \<in> set (sanitizeReaderURNs rs a w) \<Longrightarrow> trimSpace u = u"
  by (auto simp: set_sanitizeReaderURNs)

lemma sanitized_not_admin:
  "adminURN \<notin> set (sanitizeReaderURNs rs adminURN workloadURN)"
  "workloadURN \<notin> set (sanitizeReaderURNs rs adminURN workloadURN)"
proof -
  show "adminURN \<notin> set (sanitizeReaderURNs rs adminURN workloadURN)"
  proof
    assume a: "adminURN \<in> set (sanitizeReaderURNs rs adminURN workloadURN)"
    from sanitized_trimmed [OF a] a show False by (simp add: set_sanitizeReaderURNs)
  qed
  show "workloadURN \<notin> set (sanitizeReaderURNs rs adminURN workloadURN)"
  proof
    assume a: "workloadURN \<in> set (sanitizeReaderURNs rs adminURN workloadURN)"
    from sanitized_trimmed [OF a] a show False by (simp add: set_sanitizeReaderURNs)
  qed
qed

section \<open>Reading back what was written\<close>

lemma noNum_isolationDoc: "noNum (isolationDoc bucket a w rs)"
  by (simp add: isolationDoc_def isolationStatements_def jstrs_def list_all_iff)

lemma unmarshal_policy:
  "unmarshal (BuildIsolationPolicy bucket a w rs) = Some (canon (isolationDoc bucket a w rs))"
  unfolding BuildIsolationPolicy_def by (rule unmarshal_marshal [OF noNum_isolationDoc])

lemma map_of_map_snd: "map_of (map (map_prod id f) xs) k = map_option f (map_of xs k)"
  by (induction xs) auto

lemma map_of_asMap_canon:
  "map_of (asMap (map (map_prod id canon) kvs)) k = map_option canon (map_of (rev kvs) k)"
  by (simp only: map_of_asMap rev_map map_of_map_snd)

lemma map_of_rev_asMap: "map_of (rev (asMap kvs)) k = map_of (asMap kvs) k"
  using asMap_distinct [of kvs]
  by (intro map_of_inject_set [THEN iffD2, THEN fun_cong]) (simp_all add: rev_map [symmetric])

lemma member_canon: "member (canon v) k = map_option canon (member v k)"
  by (cases v) (simp_all add: member_def map_of_rev_asMap map_of_asMap_canon)

lemma strings_canon: "strings (canon v) = strings v"
proof (cases v)
  case (JArr vs)
  have "concat (map (\<lambda>e. case e of JStr s \<Rightarrow> [s] | _ \<Rightarrow> []) (map canon vs))
      = concat (map (\<lambda>e. case e of JStr s \<Rightarrow> [s] | _ \<Rightarrow> []) vs)"
    by (induction vs) (auto split: json.splits)
  with JArr show ?thesis by (simp add: strings_def)
qed (simp_all add: strings_def)

lemma names_canon: "names (canon st) k p = names st k p"
  by (auto simp: names_def member_canon strings_canon split: option.splits)

lemma lists_canon: "lists (canon st) k a = lists st k a"
  by (auto simp: lists_def member_canon strings_canon split: option.splits)

lemma canon_JStr_iff [simp]: "canon v = JStr s \<longleftrightarrow> v = JStr s"
  by (cases v) simp_all

lemma denies_canon: "denies p a r (canon st) = denies p a r st"
  by (auto simp: denies_def names_canon lists_canon member_canon)

lemma statements_canon: "statements (canon v) = map canon (statements v)"
  by (cases "member v ''Statement''")
    (auto simp: statements_def member_canon split: json.splits option.splits)

lemma denied_policy:
  "denied (BuildIsolationPolicy bucket ad wl rs) p a r \<longleftrightarrow>
     list_ex (denies p a r) (isolationStatements bucket ad wl (sanitizeReaderURNs rs ad wl))"
proof -
  have "statements (isolationDoc bucket ad wl rs) = isolationStatements bucket ad wl (sanitizeReaderURNs rs ad wl)"
    by (simp add: statements_def isolationDoc_def member_def)
  then show ?thesis
    by (simp add: denied_def unmarshal_policy statements_canon list_ex_iff denies_canon)
qed

lemma strings_jstrs [simp]: "strings (jstrs xs) = xs" "strings (JStr s) = [s]"
  by (induction xs) (simp_all add: jstrs_def strings_def)

text \<open>No pattern of the two allow lists ends in a wildcard, so an action matches a list exactly
  when it is one of its entries.\<close>

lemma matches_exact: "last pat \<noteq> CHR ''*'' \<Longrightarrow> matches pat s \<longleftrightarrow> s = pat"
  by (auto simp: matches_def)

lemma allowed_exact:
  "list_ex (\<lambda>pat. matches pat a) workloadAllowedActions \<longleftrightarrow> a \<in> set workloadAllowedActions"
  "list_ex (\<lambda>pat. matches pat a) readerAllowedActions \<longleftrightarrow> a \<in> set readerAllowedActions"
  by (simp_all add: workloadAllowedActions_def readerAllowedActions_def matches_exact)

lemma matches_all: "matches ''s3:*'' a \<longleftrightarrow> hasPrefix a ''s3:''"
  by (simp add: matches_def)

definition inBucket :: "string \<Rightarrow> string \<Rightarrow> bool" where
  "inBucket bucket r \<longleftrightarrow> r = ''arn:aws:s3:::'' @ bucket \<or> hasPrefix r (''arn:aws:s3:::'' @ bucket @ ''/'')"

lemma resources_exact:
  "last bucket \<noteq> CHR ''*'' \<Longrightarrow> bucket \<noteq> [] \<Longrightarrow>
    list_ex (\<lambda>pat. matches pat r) (policyResources bucket) \<longleftrightarrow> inBucket bucket r"
  by (simp add: policyResources_def inBucket_def matches_def butlast_append)

lemmas stmt_simps = denies_def names_def lists_def member_def effectDeny_def actionAll_def

lemma statement_meaning:
  assumes "bucket \<noteq> []" "last bucket \<noteq> CHR ''*''" "inBucket bucket r" "hasPrefix a ''s3:''"
  shows "list_ex (denies p a r) (isolationStatements bucket ad wl readers) \<longleftrightarrow>
    p \<notin> set ([ad, wl] @ readers) \<or> (p = wl \<and> a \<notin> set workloadAllowedActions) \<or>
    (p \<in> set readers \<and> a \<notin> set readerAllowedActions)"
  using assms
  by (auto simp: isolationStatements_def stmt_simps allowed_exact resources_exact matches_all)

section \<open>The principal of the workload statement\<close>

lemma filter_distinct_alist:
  assumes "distinct (map fst xs)"
  shows "filter (\<lambda>kv. fst kv = k) xs = (case map_of xs k of None \<Rightarrow> [] | Some v \<Rightarrow> [(k, v)])"
  using assms
proof (induction xs)
  case (Cons x xs)
  then show ?case
    by (cases x) (auto split: option.splits simp: map_of_eq_None_iff rev_image_eqI)
qed simp

lemma members_asMap:
  assumes "\<forall>kv \<in> set kvs. toLower (fst kv) = toLower k \<longrightarrow> fst kv = k"
  shows "members k (asMap kvs) = (case map_of (rev kvs) k of None \<Rightarrow> [] | Some v \<Rightarrow> [v])"
proof -
  have keys: "fst ` set (asMap kvs) \<subseteq> fst ` set kvs"
  proof
    fix x assume "x \<in> fst ` set (asMap kvs)"
    then have "map_of (asMap kvs) x \<noteq> None" by (simp add: map_of_eq_None_iff)
    then show "x \<in> fst ` set kvs" by (simp add: map_of_asMap map_of_eq_None_iff)
  qed
  have "filter (\<lambda>kv. toLower (fst kv) = toLower k) (asMap kvs) = filter (\<lambda>kv. fst kv = k) (asMap kvs)"
  proof (rule filter_cong [OF refl])
    fix kv assume "kv \<in> set (asMap kvs)"
    with keys obtain kv' where "kv' \<in> set kvs" "fst kv' = fst kv" by (metis image_iff subsetD)
    with assms show "(toLower (fst kv) = toLower k) = (fst kv = k)" by metis
  qed
  then show ?thesis
    by (simp add: members_def filter_distinct_alist [OF asMap_distinct] map_of_asMap split: option.splits)
qed

definition plain :: "string \<Rightarrow> (string \<times> json) list \<Rightarrow> bool" where
  "plain k kvs \<longleftrightarrow> list_all (\<lambda>kv. toLower (fst kv) = toLower k \<longrightarrow> fst kv = k) kvs"

lemma members_canon:
  assumes "plain k kvs"
  shows "members k (asMap (map (map_prod id canon) kvs)) =
    (case map_of (rev kvs) k of None \<Rightarrow> [] | Some v \<Rightarrow> [canon v])"
proof -
  have "members k (asMap (map (map_prod id canon) kvs)) =
    (case map_of (rev (map (map_prod id canon) kvs)) k of None \<Rightarrow> [] | Some v \<Rightarrow> [v])"
    using assms by (intro members_asMap) (auto simp: plain_def list_all_iff)
  then show ?thesis
    by (simp only: rev_map map_of_map_snd) (simp split: option.splits)
qed

lemma decodeStatement_canon:
  assumes "plain ''Sid'' kvs" "plain ''Principal'' kvs" "map_of (rev kvs) ''Sid'' = Some (JStr sid)"
  shows "decodeStatement (canon (JObj kvs)) =
    Some (sid, (case map_of (rev kvs) ''Principal'' of None \<Rightarrow> JNull | Some v \<Rightarrow> canon v))"
  using assms by (auto simp: decodeStatement_def members_canon split: option.splits)

lemma principalStrings_workload: "principalStrings (canon (JObj [(''AWS'', JStr w)])) = [w]"
  by (simp add: asMap_sort)

lemma toLower_consts: "toLower ''Sid'' = ''sid''" "toLower ''Effect'' = ''effect''"
  "toLower ''NotPrincipal'' = ''notprincipal''" "toLower ''Principal'' = ''principal''"
  "toLower ''Action'' = ''action''" "toLower ''NotAction'' = ''notaction''"
  "toLower ''Resource'' = ''resource''" "toLower ''Statement'' = ''statement''"
  by code_simp+

lemma isolation_decodes:
  "decodePolicy (canon (isolationDoc bucket ad wl rs)) =
     Some ((sidDenyAllExceptAdminAndWorkload, JNull) #
       (sidWorkloadObjectsOnly, canon (JObj [(''AWS'', JStr wl)])) #
       (let readers = sanitizeReaderURNs rs ad wl in
        if readers = [] then []
        else [(sidGrantedReadersReadOnly, canon (JObj [(''AWS'', jstrs readers)]))]))"
proof -
  have d: "decodeStatement (canon (JObj [(''Sid'', JStr sid), e, (''NotPrincipal'', x), y, z])) = Some (sid, JNull)"
    if "e = (''Effect'', e')" "y = (''Action'', y')" "z = (''Resource'', z')" for sid e x y z e' y' z'
    by (subst decodeStatement_canon [where sid = sid]) (simp_all add: that plain_def toLower_consts)
  have p: "decodeStatement (canon (JObj [(''Sid'', JStr sid), e, (''Principal'', x), y, z])) = Some (sid, canon x)"
    if "e = (''Effect'', e')" "y = (''NotAction'', y')" "z = (''Resource'', z')" for sid e x y z e' y' z'
    by (subst decodeStatement_canon [where sid = sid]) (simp_all add: that plain_def toLower_consts)
  have doc: "decodePolicy (canon (JObj [(''Statement'', JArr sts)])) = decodeAll decodeStatement (map canon sts)"
    for sts
    using members_canon [of "''Statement''" "[(''Statement'', JArr sts)]"]
    by (simp add: decodePolicy_def decodeStatements_def plain_def split: option.splits)
  show ?thesis
    unfolding isolationDoc_def isolationStatements_def Let_def doc
    by (simp add: d p del: canon.simps(6))
qed

lemma trimSpace_Nil_iff: "trimSpace s = [] \<longleftrightarrow> list_all isSpace s"
proof -
  have "trimSpace s = [] \<longleftrightarrow> (\<forall>x \<in> set (dropWhile isSpace s). isSpace x)"
    by (simp add: trimSpace_def dropWhile_eq_Nil_conv)
  also have "\<dots> \<longleftrightarrow> dropWhile isSpace s = []"
  proof
    assume all: "\<forall>x \<in> set (dropWhile isSpace s). isSpace x"
    show "dropWhile isSpace s = []"
    proof (cases "dropWhile isSpace s")
      case (Cons c r)
      then have "\<not> isSpace c" by (metis dropWhile_eq_Cons_conv)
      with all Cons show ?thesis by simp
    qed
  next
    assume "dropWhile isSpace s = []"
    then show "\<forall>x \<in> set (dropWhile isSpace s). isSpace x" by (simp only: list.set ball_empty)
  qed
  finally show ?thesis by (simp add: dropWhile_eq_Nil_conv list_all_iff)
qed

lemma unmarshal_blank: "trimSpace s = [] \<Longrightarrow> unmarshal s = None"
proof -
  assume "trimSpace s = []"
  then have "\<forall>c \<in> set (skipWs s). isSpace c"
    by (auto simp: trimSpace_Nil_iff list_all_iff skipWs_def dest: set_dropWhileD)
  moreover have "skipWs s = c # r \<Longrightarrow> \<not> isWs c" for c r
    unfolding skipWs_def by (metis dropWhile_eq_Cons_conv)
  ultimately have c: "skipWs s = [] \<or> (\<exists>c r. skipWs s = c # r \<and> c \<in> {CHR 0x0B, CHR 0x0C})"
    by (cases "skipWs s") (auto simp: isSpace_def isWs_def)
  have "pval (Suc n) s = None" for n
  proof (cases "skipWs s")
    case (Cons c r)
    with c have "c = CHR 0x0B \<or> c = CHR 0x0C" by simp
    then show ?thesis
    proof
      assume "c = CHR 0x0B"
      with Cons show ?thesis by (simp add: pnum_def pint_def isDigit_def)
    next
      assume "c = CHR 0x0C"
      with Cons show ?thesis by (simp add: pnum_def pint_def isDigit_def)
    qed
  qed simp
  then show ?thesis by (simp add: unmarshal_def del: pval.simps)
qed

section \<open>Properties\<close>

text \<open>C5: the isolation policy denies exactly what it should. For a bucket name that does not end
  in a wildcard, an action of the \<open>s3:\<close> namespace and a resource of the bucket, the written
  document denies a principal unless it is the admin group, the workload group asking for one of
  \<open>workloadAllowedActions\<close>, or a granted reader asking for one of \<open>readerAllowedActions\<close>.
  Granted readers are the non-blank reader URNs other than admin and workload.\<close>

theorem isolation_exact:
  assumes "bucket \<noteq> []" and "last bucket \<noteq> CHR ''*''" and "adminURN \<noteq> workloadURN"
    and "inBucket bucket r" and "hasPrefix a ''s3:''"
  shows "denied (BuildIsolationPolicy bucket adminURN workloadURN readerURNs) p a r \<longleftrightarrow>
    \<not> (p = adminURN \<or> (p = workloadURN \<and> a \<in> set workloadAllowedActions) \<or>
       (p \<in> trimSpace ` set readerURNs \<and> p \<noteq> [] \<and> p \<noteq> trimSpace adminURN \<and> p \<noteq> trimSpace workloadURN \<and>
        p \<noteq> workloadURN \<and> a \<in> set readerAllowedActions))"
  using assms(3) sanitized_not_admin [of adminURN readerURNs workloadURN]
    sanitized_not_admin [of workloadURN readerURNs adminURN]
  unfolding denied_policy statement_meaning [OF assms(1,2,4,5)]
  by (auto simp: set_sanitizeReaderURNs)

theorem isolation_exact_witness:
  "denied (BuildIsolationPolicy ''data'' ''urn:admin'' ''urn:w'' ['' urn:r '', ''urn:admin'']) ''urn:r''
     ''s3:PutObject'' ''arn:aws:s3:::data/x''"
  using isolation_exact [of "''data''" "''urn:admin''" "''urn:w''" "''arn:aws:s3:::data/x''" "''s3:PutObject''"
      "['' urn:r '', ''urn:admin'']" "''urn:r''"]
  by (simp add: inBucket_def hasPrefix_def readerAllowedActions_def)

text \<open>C15: no lockout and no escalation. Whatever reader list is configured (the admin or the
  workload URN in it, padded or not), the admin group is denied nothing on the bucket, and the
  workload and every other principal are denied the actions that read or change the policy, delete
  the bucket, or reconfigure it.\<close>

theorem isolation_no_lockout:
  assumes "bucket \<noteq> []" and "last bucket \<noteq> CHR ''*''" and "adminURN \<noteq> workloadURN"
    and "inBucket bucket r" and "hasPrefix a ''s3:''"
  shows "\<not> denied (BuildIsolationPolicy bucket adminURN workloadURN readerURNs) adminURN a r \<and>
    (p \<noteq> adminURN \<and> a \<in> {''s3:GetBucketPolicy'', ''s3:PutBucketPolicy'', ''s3:DeleteBucketPolicy'', ''s3:DeleteBucket'',
       ''s3:PutBucketTagging'', ''s3:PutBucketVersioning'', ''s3:PutReplicationConfiguration'',
       ''s3:PutBucketNotification'', ''s3:DeleteObjectVersion'', ''s3:PutObjectRetention''} \<longrightarrow>
     denied (BuildIsolationPolicy bucket adminURN workloadURN readerURNs) p a r)"
  using assms(3) sanitized_not_admin [of adminURN readerURNs workloadURN]
  unfolding denied_policy statement_meaning [OF assms(1,2,4,5)]
  by (auto simp: workloadAllowedActions_def readerAllowedActions_def)

theorem isolation_no_lockout_witness:
  "\<not> denied (BuildIsolationPolicy ''data'' ''urn:admin'' ''urn:w'' ['' urn:admin'']) ''urn:admin''
     ''s3:PutBucketPolicy'' ''arn:aws:s3:::data'' \<and>
   denied (BuildIsolationPolicy ''data'' ''urn:admin'' ''urn:w'' ['' urn:admin'']) ''urn:w''
     ''s3:PutBucketPolicy'' ''arn:aws:s3:::data''"
  using isolation_no_lockout [of "''data''" "''urn:admin''" "''urn:w''" "''arn:aws:s3:::data''"
      "''s3:PutBucketPolicy''" "['' urn:admin'']" "''urn:w''"]
  by (simp add: inBucket_def hasPrefix_def)

text \<open>What a granted reader may do is a subset of what the workload may do, and contains no
  action that writes, deletes, aborts or lists uploads.\<close>

lemma reader_actions_read_only:
  "set readerAllowedActions \<subseteq> set workloadAllowedActions \<and>
   list_all (\<lambda>a. hasPrefix a ''s3:Get'' \<or> hasPrefix a ''s3:ListBucket'') readerAllowedActions \<and>
   list_all (\<lambda>a. hasPrefix a ''s3:'' \<and> \<not> hasPrefix a ''s3:PutBucket'' \<and> \<not> hasPrefix a ''s3:DeleteBucket'' \<and>
     \<not> hasSuffix a ''Policy'') workloadAllowedActions"
  by (simp add: readerAllowedActions_def workloadAllowedActions_def go_strings)

text \<open>C14: round trip of the migration path. Reading the workload principal back from a policy the
  operator wrote yields the workload URN it was written for (trimmed), whatever the readers; a blank
  URN is reported as no attribution.\<close>

theorem workload_principal_roundtrip:
  "WorkloadPrincipalFromPolicy (BuildIsolationPolicy bucket adminURN workloadURN readerURNs) =
     (if trimSpace workloadURN = [] then None else Some (trimSpace workloadURN))"
proof -
  have "trimSpace (BuildIsolationPolicy bucket adminURN workloadURN readerURNs) \<noteq> []"
    using unmarshal_blank unmarshal_policy by fastforce
  moreover have "sidDenyAllExceptAdminAndWorkload \<noteq> sidWorkloadObjectsOnly"
    by (simp add: sidDenyAllExceptAdminAndWorkload_def sidWorkloadObjectsOnly_def)
  ultimately show ?thesis
    unfolding WorkloadPrincipalFromPolicy_def
    by (simp add: unmarshal_policy isolation_decodes principalStrings_workload del: canon.simps(6))
qed

text \<open>C13: the drift check is exact. A live policy text that parses to a document without numbers
  compares equal to the wanted policy exactly when both are the same document up to key order and
  whitespace, and then it denies exactly the same requests: a policy that means something else is
  never mistaken for the wanted one, and the wanted one is not rewritten.\<close>

theorem drift_check_exact:
  assumes "unmarshal live = Some v" and "noNum v"
  shows "(PoliciesEquivalent live (BuildIsolationPolicy bucket ad wl rs) \<longleftrightarrow>
      canon v = canon (canon (isolationDoc bucket ad wl rs))) \<and>
    (PoliciesEquivalent live (BuildIsolationPolicy bucket ad wl rs) \<longrightarrow>
      denied live p a r = denied (BuildIsolationPolicy bucket ad wl rs) p a r)"
proof -
  let ?doc = "canon (isolationDoc bucket ad wl rs)"
  have "trimSpace live \<noteq> []" using unmarshal_blank assms(1) by fastforce
  then have l: "normalizeJSON live = Some (marshal v)" by (simp add: normalizeJSON_def assms(1))
  have "trimSpace (BuildIsolationPolicy bucket ad wl rs) \<noteq> []"
    using unmarshal_blank unmarshal_policy by fastforce
  then have w: "normalizeJSON (BuildIsolationPolicy bucket ad wl rs) = Some (marshal ?doc)"
    by (simp add: normalizeJSON_def unmarshal_policy)
  have "marshal v = marshal ?doc \<longleftrightarrow> canon v = canon ?doc"
    using unmarshal_marshal [OF assms(2)] unmarshal_marshal [OF noNum_canon [OF noNum_isolationDoc]]
    by (metis marshal_def option.inject)
  with l w have eq: "PoliciesEquivalent live (BuildIsolationPolicy bucket ad wl rs) \<longleftrightarrow> canon v = canon ?doc"
    by (simp add: PoliciesEquivalent_def)
  have "denied live p a r = list_ex (denies p a r) (statements (canon v))"
    by (simp add: denied_def assms(1) statements_canon list_ex_iff denies_canon)
  moreover have "denied (BuildIsolationPolicy bucket ad wl rs) p a r = list_ex (denies p a r) (statements (canon ?doc))"
    by (simp add: denied_def unmarshal_policy statements_canon list_ex_iff denies_canon)
  ultimately show ?thesis using eq by auto
qed

theorem drift_check_exact_witness:
  "\<not> PoliciesEquivalent ''{}'' (BuildIsolationPolicy ''data'' ''urn:admin'' ''urn:w'' [])"
proof -
  have u: "unmarshal ''{}'' = Some (JObj [])"
    by (rule unmarshal_fuel [where n = 1 and r = "[]"]) (simp_all add: skipWs_def isWs_def)
  show ?thesis
    using drift_check_exact [OF u, of "''data''" "''urn:admin''" "''urn:w''" "[]"]
    by (simp add: isolationDoc_def asMap_sort)
qed

text \<open>The written text does not depend on how the readers were listed: two reader lists with
  the same entries up to whitespace, order and duplicates give byte-identical policies, and a list
  that names only blank entries, the admin or the workload gives the policy without readers.\<close>

lemma policy_readers_canonical:
  assumes "trimSpace ` set rs - {[], trimSpace ad, trimSpace wl} = trimSpace ` set rs' - {[], trimSpace ad, trimSpace wl}"
  shows "BuildIsolationPolicy bucket ad wl rs = BuildIsolationPolicy bucket ad wl rs'"
proof -
  have "sanitizeReaderURNs rs ad wl = sanitizeReaderURNs rs' ad wl"
  proof (rule sorted_distinct_set_unique)
    show "set (sanitizeReaderURNs rs ad wl) = set (sanitizeReaderURNs rs' ad wl)"
      using assms unfolding set_sanitizeReaderURNs by blast
  qed (simp_all add: sanitizeReaderURNs_def distinct_keepURNs)
  then show ?thesis by (simp add: BuildIsolationPolicy_def isolationDoc_def)
qed

end
