(* ===== verification/Attribution.thy ===== *)
theory Attribution
  imports Reconciler Policy
begin

text \<open>
  Who owns what: the admin credential (\<open>ensureAdmin\<close>), ownership tags, the creation or adoption of
  the bucket (\<open>ensureBucket\<close>, \<open>adoptOrCollide\<close>), the attribution of a workload credentials group
  (\<open>resolveWorkloadGroup\<close>, ADR 0002), read grants, the isolation policy and the workload key with
  its Secret; \<open>internal/controller/bucket_controller.go\<close>.

  A Go map of tags is an association list; the listing of groups is indexed by id and URN, the last
  entry winning. The closure \<open>stamp\<close> of \<open>resolveWorkloadGroup\<close> becomes a function of the tags read;
  every path calls it at most once.
\<close>

section \<open>Ownership\<close>

definition defaultOwnershipName :: string where "defaultOwnershipName = ''stackit-s3-provisioner''"
definition tagOwnershipManagedBy :: string where "tagOwnershipManagedBy = ''managed-by''"
definition tagOwnershipOwner :: string where "tagOwnershipOwner = ''owner''"
definition tagCredentialsGroupID :: string where "tagCredentialsGroupID = ''credentials-group-id''"
definition tagCredentialsGroupURN :: string where "tagCredentialsGroupURN = ''credentials-group-urn''"
definition reasonGroupAttributed :: string where "reasonGroupAttributed = ''CredentialsGroupAttributed''"
definition reasonReadGrantPending :: string where "reasonReadGrantPending = ''ReadGrantPending''"

lemmas tag_consts = tagOwnershipManagedBy_def tagOwnershipOwner_def tagCredentialsGroupID_def tagCredentialsGroupURN_def

definition ownershipName :: "'w reconciler \<Rightarrow> string" where
  "ownershipName r = (if r_OwnershipName r \<noteq> [] then r_OwnershipName r else defaultOwnershipName)"

definition ownerTagValue :: "Bucket \<Rightarrow> string" where
  "ownerTagValue b = b_Namespace b @ ''/'' @ b_Name b"

definition ownershipTags :: "'w reconciler \<Rightarrow> Bucket \<Rightarrow> string gomap" where
  "ownershipTags r b = [(tagOwnershipManagedBy, ownershipName r), (tagOwnershipOwner, ownerTagValue b)]"

definition isOwnedByUs :: "'w reconciler \<Rightarrow> string gomap \<Rightarrow> Bucket \<Rightarrow> bool" where
  "isOwnedByUs r tagSet b \<longleftrightarrow> mget tagSet tagOwnershipManagedBy = ownershipName r \<and>
     mget tagSet tagOwnershipOwner = ownerTagValue b"

section \<open>The admin credential\<close>

definition getSecret :: "'w reconciler \<Rightarrow> string \<Rightarrow> string \<Rightarrow> ('w st, go_error, Secret) fallible" where
  "getSecret r ns n = callOut (k_GetSecret (r_kube r) ns n) (\<lambda>x. KGetSecret ns n (okVal x))"

definition putLabels :: "(string \<times> string) list \<Rightarrow> Secret \<Rightarrow> Secret" where
  "putLabels kvs sec = sec\<lparr>sec_Labels := fold (\<lambda>kv. mput (fst kv) (snd kv)) kvs (sec_Labels sec)\<rparr>"

definition putData :: "(string \<times> string) list \<Rightarrow> Secret \<Rightarrow> Secret" where
  "putData kvs sec = sec\<lparr>sec_Type := ''Opaque'', sec_Data := fold (\<lambda>kv. mput (fst kv) (snd kv)) kvs (sec_Data sec)\<rparr>"

definition createOrUpdate :: "'w reconciler \<Rightarrow> string \<Rightarrow> string \<Rightarrow> (Secret \<Rightarrow> go_error + Secret)
    \<Rightarrow> ('w st, go_error, Secret) fallible" where
  "createOrUpdate r ns n f = callOut (k_UpsertSecret (r_kube r) ns n f) (\<lambda>x. KUpsertSecret ns n (isOk x))"

definition writeAdminSecret :: "'w reconciler \<Rightarrow> adminCreds \<Rightarrow> ('w st, go_error, unit) fallible" where
  "writeAdminSecret r ac =
     andThen (createOrUpdate r (r_AdminSecretNamespace r) (r_AdminSecretName r)
        (\<lambda>sec. Inr (putData [(adminSecretKeyAccessKeyID, ac_accessKeyID ac),
            (adminSecretKeySecretAccessKey, ac_secretAccessKey ac), (adminSecretKeyURN, ac_urn ac),
            (adminSecretKeyGroupID, ac_groupID ac)] (putLabels [(managedByLabel, managedByValue)] sec))))
       (\<lambda>_. ret ())"

text \<open>The bootstrap: group by name, stale keys cleared, a fresh key, the Secret; a key whose Secret
  could not be written is deleted again.\<close>

definition bootstrapAdmin :: "'w reconciler \<Rightarrow> 'w client \<Rightarrow> ('w st, go_error, adminCreds) fallible" where
  "bootstrapAdmin r c =
     check (EnsureCredentialsGroup c adminGroupName)
       (\<lambda>err. fault (wrapf ''ensure admin credentials group: '' err))
       (\<lambda>(gid, urn).
          check (DeleteAllAccessKeys c gid)
            (\<lambda>err. fault (wrapf ''clear admin access keys: '' err))
            (\<lambda>_. check (CreateAccessKey c gid)
               (\<lambda>err. fault (wrapf ''create admin access key: '' err))
               (\<lambda>ak. let ac = \<lparr>ac_accessKeyID = ak_AccessKeyID ak, ac_secretAccessKey = ak_SecretAccessKey ak,
                         ac_urn = urn, ac_groupID = gid\<rparr> in
                  check (writeAdminSecret r ac)
                    (\<lambda>err. after (DeleteAccessKey c gid (ak_KeyID ak))
                       (\<lambda>_. fault (wrapf (''persist admin secret '' @ r_AdminSecretNamespace r @ ''/'' @
                          r_AdminSecretName r @ '': '') err)))
                    (\<lambda>_. andDo (sets (\<lambda>s. s\<lparr>s_admin := Some ac\<rparr>)) (ret ac)))))"

definition ensureAdmin :: "'w reconciler \<Rightarrow> 'w client \<Rightarrow> ('w st, go_error, adminCreds) fallible" where
  "ensureAdmin r c = reads (\<lambda>s.
     case s_admin s of
       Some ac \<Rightarrow> ret ac
     | None \<Rightarrow>
         if r_AdminSecretNamespace r = []
         then fault (Msg ''operator namespace unknown (set POD_NAMESPACE); cannot manage admin credentials'')
         else check (getSecret r (r_AdminSecretNamespace r) (r_AdminSecretName r))
           (\<lambda>err. if is_kube KNotFound err then bootstrapAdmin r c
              else fault (wrapf (''get admin secret '' @ r_AdminSecretNamespace r @ ''/'' @ r_AdminSecretName r @ '': '') err))
           (\<lambda>sec. case adminFromSecret sec of
              Some ac \<Rightarrow> andDo (sets (\<lambda>s. s\<lparr>s_admin := Some ac\<rparr>)) (ret ac)
            | None \<Rightarrow> bootstrapAdmin r c))"

definition newS3Admin :: "'w reconciler \<Rightarrow> 'w client \<Rightarrow> string \<Rightarrow> adminCreds \<Rightarrow> ('w st, go_error, S3Admin) fallible" where
  "newS3Admin r c name admin =
     andThen (BucketEndpoint c name)
       (\<lambda>endpoint. case NewS3Admin (r_minio r) endpoint (ac_accessKeyID admin) (ac_secretAccessKey admin) (cl_region c) of
          Inl err \<Rightarrow> fault err | Inr s3 \<Rightarrow> ret s3)"

section \<open>The bucket\<close>

definition adoptOrCollide :: "'w reconciler \<Rightarrow> 'w client \<Rightarrow> Bucket \<Rightarrow> string \<Rightarrow> adminCreds
    \<Rightarrow> ('w st, go_error, unit) fallible" where
  "adoptOrCollide r c b name admin =
     andThen (newS3Admin r c name admin) (\<lambda>s3admin.
     andThen (BucketTags (r_minio r) s3admin name) (\<lambda>tagSet.
       if tagSet = [] then
         andThen (BucketEmpty (r_minio r) s3admin name) (\<lambda>empty.
           if \<not> empty
           then fault (OwnershipCollision name ''pre-existing non-empty bucket carries no ownership tags'')
           else SetBucketTags (r_minio r) s3admin name (ownershipTags r b))
       else if isOwnedByUs r tagSet b then ret ()
       else fault (OwnershipCollision name (''owned by managed-by='' @ quoted (mget tagSet tagOwnershipManagedBy) @
         '' owner='' @ quoted (mget tagSet tagOwnershipOwner)))))"

definition ensureBucket :: "'w reconciler \<Rightarrow> 'w client \<Rightarrow> Bucket \<Rightarrow> string \<Rightarrow> adminCreds
    \<Rightarrow> ('w st, go_error, bool) fallible" where
  "ensureBucket r c b name admin =
     andThen (HasBucket c (cl_ProjectID c) name) (\<lambda>ok.
       if ok then andThen (adoptOrCollide r c b name admin) (\<lambda>_. ret False)
       else check (CreateBucket c name)
         (\<lambda>err. if StatusCode err \<noteq> 409 then fault err
            else andThen (WaitBucketVisible c name bucketVisibleTimeout) (\<lambda>_.
                 andThen (adoptOrCollide r c b name admin) (\<lambda>_. ret False)))
         (\<lambda>_. andThen (WaitBucketVisible c name bucketVisibleTimeout) (\<lambda>_.
              andThen (newS3Admin r c name admin) (\<lambda>s3admin.
              andThen (SetBucketTags (r_minio r) s3admin name (ownershipTags r b)) (\<lambda>_. ret True)))))"

definition failEnsureBucket :: "'w reconciler \<Rightarrow> go_error \<Rightarrow> ('w st, Result) handler" where
  "failEnsureBucket r err =
     (if is_collision err
      then andDo (raise r True ReasonFailed
          ''bucket ownership collision: a bucket with this name exists but was not provisioned by this operator'')
        (failNoRequeue r err)
      else fail r (wrapf ''ensure bucket: '' err))"

section \<open>The credentials group\<close>

record workloadGroupRef =
  wg_id :: string
  wg_urn :: string

definition errGroupNotAttributable :: go_error where
  "errGroupNotAttributable = Sentinel ErrGroupNotAttributable ''no credentials group is attributed to the bucket''"
definition errBucketNotOwned :: go_error where
  "errBucketNotOwned = Sentinel ErrBucketNotOwned ''bucket is not owned by this Bucket''"
definition errAttributionLagging :: go_error where
  "errAttributionLagging = Sentinel ErrAttributionLagging ''credentials group attribution not yet visible''"
definition errCredentialDestroyed :: go_error where
  "errCredentialDestroyed = Sentinel ErrCredentialDestroyed ''workload credential destroyed and not replaced''"

type_synonym groupIndex = "CredentialsGroupInfo list"

definition byID :: "groupIndex \<Rightarrow> string \<Rightarrow> CredentialsGroupInfo option" where
  "byID groups k = List.find (\<lambda>g. g_ID g = k) (rev groups)"

definition byURN :: "groupIndex \<Rightarrow> string \<Rightarrow> CredentialsGroupInfo option" where
  "byURN groups urn = List.find (\<lambda>g. g_URN g = urn) (rev groups)"

definition listGroups :: "'w client \<Rightarrow> ('w st, go_error, groupIndex) fallible" where
  "listGroups c = ListCredentialsGroups c"

definition groupExists :: "'w client \<Rightarrow> string \<Rightarrow> ('w st, go_error, bool) fallible" where
  "groupExists c gid =
     check (ListAccessKeyIDs c gid)
       (\<lambda>err. if StatusCode err = 404 then ret False else fault err) (\<lambda>_. ret True)"

definition stamp :: "'w reconciler \<Rightarrow> S3Admin \<Rightarrow> string \<Rightarrow> string gomap \<Rightarrow> workloadGroupRef
    \<Rightarrow> ('w st, go_error, unit) fallible" where
  "stamp r s3admin name tags ref =
     check (SetBucketTags (r_minio r) s3admin name
         (mput tagCredentialsGroupURN (wg_urn ref) (mput tagCredentialsGroupID (wg_id ref) tags)))
       (\<lambda>err. fault (wrapf (''record credentials group '' @ wg_id ref @ '' on bucket '' @ quoted name @ '': '') err)) ret"

text \<open>The result of the three sources: the group and whether the tags were written, if found.\<close>

definition groupFromTags :: "'w client \<Rightarrow> string gomap \<Rightarrow> groupIndex
    \<Rightarrow> (workloadGroupRef \<Rightarrow> ('w st, go_error, unit) fallible) \<Rightarrow> ('w st, go_error, (workloadGroupRef \<times> bool) option) fallible" where
  "groupFromTags c tags groups stmp =
     (let gid = mget tags tagCredentialsGroupID in
      if gid = [] then ret None
      else andThen (groupExists c gid) (\<lambda>exists.
        if \<not> exists then ret None
        else let urn = mget tags tagCredentialsGroupURN in
          if urn \<noteq> [] then ret (Some (\<lparr>wg_id = gid, wg_urn = urn\<rparr>, False))
          else case byID groups gid of
            None \<Rightarrow> fault (Wrap [] errAttributionLagging ('': group '' @ gid @ '' exists but is not listed yet''))
          | Some g \<Rightarrow> let ref = \<lparr>wg_id = g_ID g, wg_urn = g_URN g\<rparr> in
              andThen (stmp ref) (\<lambda>_. ret (Some (ref, True)))))"

definition groupFromPolicy :: "'w reconciler \<Rightarrow> S3Admin \<Rightarrow> string \<Rightarrow> groupIndex
    \<Rightarrow> (workloadGroupRef \<Rightarrow> ('w st, go_error, unit) fallible) \<Rightarrow> ('w st, go_error, (workloadGroupRef \<times> bool) option) fallible" where
  "groupFromPolicy r s3admin name groups stmp =
     check (GetBucketPolicy (r_minio r) s3admin name)
       (\<lambda>err. fault (wrapf (''read isolation policy of bucket '' @ quoted name @ '': '') err))
       (\<lambda>policy.
          case WorkloadPrincipalFromPolicy policy of None \<Rightarrow> ret None
          | Some urn \<Rightarrow>
              (case byURN groups urn of None \<Rightarrow> ret None
               | Some g \<Rightarrow> let ref = \<lparr>wg_id = g_ID g, wg_urn = g_URN g\<rparr> in
                   andThen (stmp ref) (\<lambda>_.
                     andDo (raise r False reasonGroupAttributed (''credentials group '' @ g_ID g @ '' attributed to bucket '' @
                       quoted name @ '' via its isolation policy and recorded in the bucket tags''))
                     (ret (Some (ref, True))))))"

definition guardGroupCreate :: "'w client \<Rightarrow> Bucket \<Rightarrow> string \<Rightarrow> bool \<Rightarrow> ('w st, go_error, unit) fallible" where
  "guardGroupCreate c b name freshBucket =
     (let rec = st_CredentialsGroupID (b_Status b) in
      if rec = [] \<or> freshBucket then ret ()
      else andThen (groupExists c rec) (\<lambda>exists.
        if exists
        then fault (Wrap [] errAttributionLagging ('': status records group '' @ rec @ '', which still exists, but bucket '' @
          quoted name @ '' shows no attribution; not creating a second group''))
        else ret ()))"

definition createWorkloadGroup :: "'w client \<Rightarrow> Bucket
    \<Rightarrow> (workloadGroupRef \<Rightarrow> ('w st, go_error, unit) fallible) \<Rightarrow> ('w st, go_error, workloadGroupRef) fallible" where
  "createWorkloadGroup c b stmp =
     andThen (CreateCredentialsGroup c (workloadGroupName b)) (\<lambda>(gid, urn).
       let ref = \<lparr>wg_id = gid, wg_urn = urn\<rparr> in
       check (stmp ref)
         (\<lambda>err. after (DeleteCredentialsGroup c gid) (\<lambda>_. fault err))
         (\<lambda>_. ret ref))"

text \<open>The three sources in order, once the ownership is proven.\<close>

definition attributeGroup :: "'w reconciler \<Rightarrow> 'w client \<Rightarrow> Bucket \<Rightarrow> string \<Rightarrow> S3Admin \<Rightarrow> string gomap \<Rightarrow> groupIndex
    \<Rightarrow> bool \<Rightarrow> bool \<Rightarrow> ('w st, go_error, workloadGroupRef \<times> bool) fallible" where
  "attributeGroup r c b name s3admin tags groups create freshBucket =
     (let stmp = stamp r s3admin name tags in
      andThen (groupFromTags c tags groups stmp) (\<lambda>found.
        case found of Some res \<Rightarrow> ret res
        | None \<Rightarrow>
            andThen (groupFromPolicy r s3admin name groups stmp) (\<lambda>found.
              case found of Some res \<Rightarrow> ret res
              | None \<Rightarrow>
                  if \<not> create then fault (Wrap [] errGroupNotAttributable ('': bucket '' @ quoted name))
                  else andThen (guardGroupCreate c b name freshBucket) (\<lambda>_.
                       andThen (createWorkloadGroup c b stmp) (\<lambda>ref. ret (ref, True))))))"

definition resolveWorkloadGroup :: "'w reconciler \<Rightarrow> 'w client \<Rightarrow> Bucket \<Rightarrow> string \<Rightarrow> adminCreds \<Rightarrow> groupIndex
    \<Rightarrow> bool \<Rightarrow> bool \<Rightarrow> ('w st, go_error, workloadGroupRef \<times> bool) fallible" where
  "resolveWorkloadGroup r c b name admin groups create freshBucket =
     andThen (newS3Admin r c name admin) (\<lambda>s3admin.
     andThen (BucketTags (r_minio r) s3admin name) (\<lambda>tags.
       if \<not> isOwnedByUs r tags b
       then fault (Wrap [] errBucketNotOwned ('': bucket '' @ quoted name @ '' carries managed-by='' @
         quoted (mget tags tagOwnershipManagedBy) @ '' owner='' @ quoted (mget tags tagOwnershipOwner)))
       else attributeGroup r c b name s3admin tags groups create freshBucket))"

section \<open>The workload key and its Secret\<close>

definition upsertSecret :: "'w reconciler \<Rightarrow> Bucket \<Rightarrow> string \<Rightarrow> string gomap \<Rightarrow> ('w st, go_error, unit) fallible" where
  "upsertSecret r b name data =
     andThen (createOrUpdate r (b_Namespace b) name
         (\<lambda>sec. k_SetControllerReference (r_kube r) b (putData data (putLabels [(managedByLabel, managedByValue)] sec))))
       (\<lambda>_. ret ())"

definition issueKey :: "'w reconciler \<Rightarrow> 'w client \<Rightarrow> Bucket \<Rightarrow> string \<Rightarrow> string \<Rightarrow> string
    \<Rightarrow> ('w st, go_error, string \<times> bool) fallible" where
  "issueKey r c b groupID host burl =
     check (DeleteAllAccessKeys c groupID)
       (\<lambda>err. fault (wrapf ''clear stale access keys: '' err))
       (\<lambda>_. check (CreateAccessKey c groupID)
          (\<lambda>err. fault (Wrap2 [] errCredentialDestroyed '': create replacement access key: '' err []))
          (\<lambda>ak. let secName = sr_Name (sp_SecretRef (b_Spec b));
                   data = SecretData b \<lparr>v_AccessKeyID = ak_AccessKeyID ak, v_SecretAccessKey = ak_SecretAccessKey ak,
                     v_Endpoint = host, v_BucketURL = burl\<rparr> in
             check (upsertSecret r b secName data)
               (\<lambda>err. after (DeleteAccessKey c groupID (ak_KeyID ak))
                  (\<lambda>_. fault (Wrap2 [] errCredentialDestroyed ('': write credentials secret '' @ b_Namespace b @ ''/'' @
                     secName @ '': '') err [])))
               (\<lambda>_. ret (ak_AccessKeyID ak, True))))"

definition ensureAccessKeyAndSecret :: "'w reconciler \<Rightarrow> 'w client \<Rightarrow> string \<Rightarrow> string \<Rightarrow> string
    \<Rightarrow> ('w st, go_error, string \<times> bool) fallible" where
  "ensureAccessKeyAndSecret r c groupID host burl = reads (\<lambda>s.
     let b = s_obj s; secName = sr_Name (sp_SecretRef (b_Spec b)) in
     after (getSecret r (b_Namespace b) secName) (\<lambda>got.
       case got of
         Inl getErr \<Rightarrow>
           if \<not> is_kube KNotFound getErr
           then fault (wrapf (''get credentials secret '' @ b_Namespace b @ ''/'' @ secName @ '': '') getErr)
           else andThen (ListAccessKeyIDs c groupID) (\<lambda>_. issueKey r c b groupID host burl)
       | Inr sec \<Rightarrow>
           andThen (ListAccessKeyIDs c groupID) (\<lambda>keyIDs.
             if secretHasCreds sec b \<and> keyIDs \<noteq> [] \<and> PendingRotationTrigger b = []
             then ret (secretAccessKeyID sec b, False)
             else issueKey r c b groupID host burl)))"

section \<open>Read grants and the policy\<close>

definition pendingGrant :: "'w reconciler \<Rightarrow> string \<Rightarrow> string \<Rightarrow> ('w st, unit) handler" where
  "pendingGrant r ref why =
     raise r True reasonReadGrantPending (''Bucket '' @ quoted ref @ '' referenced in spec.grantReadAccess '' @ why @
       ''; read access not granted'')"

text \<open>One entry of \<open>spec.grantReadAccess\<close>: its URN when the grant resolves.\<close>

definition resolveGrant :: "'w reconciler \<Rightarrow> 'w client \<Rightarrow> Bucket \<Rightarrow> adminCreds \<Rightarrow> groupIndex \<Rightarrow> string
    \<Rightarrow> ('w st, go_error, string option) fallible" where
  "resolveGrant r c b admin groups ref =
     (if ref = b_Name b
      then andDo (raise r True reasonReadGrantPending (''ignoring self-reference '' @ quoted ref @ '' in spec.grantReadAccess''))
        (ret None)
      else check (callOut (k_GetBucket (r_kube r) (b_Namespace b) ref) (\<lambda>x. KGetBucket (b_Namespace b) ref (isOk x)))
        (\<lambda>getErr. if is_kube KNotFound getErr then andDo (pendingGrant r ref ''does not exist (yet)'') (ret None)
           else fault (wrapf (''get referenced Bucket '' @ b_Namespace b @ ''/'' @ ref @ '': '') getErr))
        (\<lambda>grantee.
           if b_DeletionTimestamp grantee \<noteq> None
           then andDo (raise r True reasonReadGrantPending (''Bucket '' @ quoted ref @
               '' referenced in spec.grantReadAccess is being deleted; read access revoked'')) (ret None)
           else let granteeBucket = EffectiveBucketName grantee in
             andThen (HasBucket c (cl_ProjectID c) granteeBucket) (\<lambda>exists.
               if \<not> exists then andDo (pendingGrant r ref ''has no bucket yet'') (ret None)
               else check (resolveWorkloadGroup r c grantee granteeBucket admin groups False False)
                 (\<lambda>err. if is_sentinel ErrGroupNotAttributable err
                    then andDo (pendingGrant r ref ''has no credentials group yet'') (ret None)
                    else if is_sentinel ErrBucketNotOwned err
                    then andDo (pendingGrant r ref (''names bucket '' @ quoted granteeBucket @
                        '', which is not owned by that Bucket'')) (ret None)
                    else fault err)
                 (\<lambda>(group, _). ret (Some (wg_urn group))))))"

primrec resolveGrants :: "'w reconciler \<Rightarrow> 'w client \<Rightarrow> Bucket \<Rightarrow> adminCreds \<Rightarrow> groupIndex \<Rightarrow> LocalBucketReference list
    \<Rightarrow> string list \<times> string list \<Rightarrow> ('w st, go_error, string list \<times> string list) fallible" where
  "resolveGrants r c b admin groups [] acc = ret acc"
| "resolveGrants r c b admin groups (ref # refs) acc =
     andThen (resolveGrant r c b admin groups (lb_Name ref)) (\<lambda>got.
       case got of None \<Rightarrow> resolveGrants r c b admin groups refs acc
       | Some urn \<Rightarrow> resolveGrants r c b admin groups refs (fst acc @ [urn], snd acc @ [lb_Name ref]))"

definition resolveReadGrants :: "'w reconciler \<Rightarrow> 'w client \<Rightarrow> Bucket \<Rightarrow> adminCreds \<Rightarrow> groupIndex
    \<Rightarrow> ('w st, go_error, string list \<times> string list) fallible" where
  "resolveReadGrants r c b admin groups = resolveGrants r c b admin groups (sp_GrantReadAccess (b_Spec b)) ([], [])"

definition ensureBucketPolicy :: "'w reconciler \<Rightarrow> 'w client \<Rightarrow> string \<Rightarrow> adminCreds \<Rightarrow> string \<Rightarrow> string list
    \<Rightarrow> ('w st, go_error, bool) fallible" where
  "ensureBucketPolicy r c name admin workloadURN readerURNs =
     andThen (newS3Admin r c name admin) (\<lambda>s3admin.
       let desired = BuildIsolationPolicy name (ac_urn admin) workloadURN readerURNs in
       after (GetBucketPolicy (r_minio r) s3admin name) (\<lambda>got.
         if (case got of Inl _ \<Rightarrow> False | Inr current \<Rightarrow> PoliciesEquivalent current desired) then ret False
         else andThen (SetBucketPolicy (r_minio r) s3admin name desired) (\<lambda>_. ret True)))"

section \<open>Footprints\<close>

lemma only_getSecret [only_rules]: "(\<And>x. A (KGetSecret ns n x)) \<Longrightarrow> calls_only A (getSecret r ns n)"
  unfolding getSecret_def by (rule only_callOut)

lemma only_createOrUpdate [only_rules]: "(\<And>x. A (KUpsertSecret ns n x)) \<Longrightarrow> calls_only A (createOrUpdate r ns n f)"
  unfolding createOrUpdate_def by (rule only_callOut)

lemma only_upsertSecret [only_rules]:
  "(\<And>x. A (KUpsertSecret (b_Namespace b) n x)) \<Longrightarrow> calls_only A (upsertSecret r b n data)"
  unfolding upsertSecret_def by (intro only_rules)

text \<open>What the admin bootstrap may send.\<close>

definition adminCall :: "'w reconciler \<Rightarrow> call \<Rightarrow> bool" where
  "adminCall r x = (case x of KGetSecret _ _ _ \<Rightarrow> True
     | KUpsertSecret ns n _ \<Rightarrow> ns = r_AdminSecretNamespace r \<and> n = r_AdminSecretName r | CListGroups _ \<Rightarrow> True
     | CCreateGroup n _ \<Rightarrow> n = adminGroupName | CListKeys _ _ \<Rightarrow> True | CDeleteKey _ _ _ \<Rightarrow> True
     | CCreateKey _ _ \<Rightarrow> True | _ \<Rightarrow> False)"

lemma only_ensureAdmin: "calls_only (adminCall r) (ensureAdmin r c)"
proof -
  have w: "calls_only (adminCall r) (writeAdminSecret r ac)" for ac
    unfolding writeAdminSecret_def by (intro only_rules) (simp add: adminCall_def)
  have s: "calls_only (adminCall r) (sets (\<lambda>s. s\<lparr>s_admin := Some ac\<rparr>))" for ac by (rule only_sets) simp
  have b: "calls_only (adminCall r) (bootstrapAdmin r c)"
    unfolding bootstrapAdmin_def by (intro only_rules w s) (simp_all add: adminCall_def)
  show ?thesis unfolding ensureAdmin_def by (intro only_rules b s) (simp_all add: adminCall_def)
qed

lemma only_newS3Admin [only_rules]: "(\<And>e. A (CGetBucket n e)) \<Longrightarrow> calls_only A (newS3Admin r c n admin)"
  unfolding newS3Admin_def by (intro only_rules)

lemma only_adoptOrCollide [only_rules]:
  "(\<And>e. A (CGetBucket n e)) \<Longrightarrow> (\<And>x. A (CGetTags n x)) \<Longrightarrow> (\<And>v x. A (CListObjects n v x)) \<Longrightarrow>
    (\<And>x. A (CSetTags n (ownershipTags r b) x)) \<Longrightarrow> calls_only A (adoptOrCollide r c b n admin)"
  unfolding adoptOrCollide_def by (intro only_rules)

lemma only_ensureBucket [only_rules]:
  "(\<And>p x. A (CListBuckets p x)) \<Longrightarrow> (\<And>x. A (CCreateBucket n x)) \<Longrightarrow> (\<And>e. A (CGetBucket n e)) \<Longrightarrow>
    (\<And>x. A (CGetTags n x)) \<Longrightarrow> (\<And>v x. A (CListObjects n v x)) \<Longrightarrow>
    (\<And>x. A (CSetTags n (ownershipTags r b) x)) \<Longrightarrow> calls_only A (ensureBucket r c b n admin)"
  unfolding ensureBucket_def by (intro only_rules)

lemma only_groupExists [only_rules]: "(\<And>x. A (CListKeys g x)) \<Longrightarrow> calls_only A (groupExists c g)"
  unfolding groupExists_def by (intro only_rules)

lemma only_stamp [only_rules]:
  "(\<And>x. A (CSetTags n (mput tagCredentialsGroupURN (wg_urn ref) (mput tagCredentialsGroupID (wg_id ref) tags)) x)) \<Longrightarrow>
    calls_only A (stamp r s3 n tags ref)"
  unfolding stamp_def by (intro only_rules)

lemma only_groupFromTags [only_rules]:
  "(\<And>g x. A (CListKeys g x)) \<Longrightarrow> (\<And>ref. calls_only A (stmp ref)) \<Longrightarrow> calls_only A (groupFromTags c tags groups stmp)"
  unfolding groupFromTags_def by (intro only_rules)

lemma only_groupFromPolicy [only_rules]:
  "(\<And>x. A (CGetPolicy n x)) \<Longrightarrow> (\<And>ref. calls_only A (stmp ref)) \<Longrightarrow> calls_only A (groupFromPolicy r s3 n groups stmp)"
  unfolding groupFromPolicy_def by (intro only_rules)

lemma only_guardGroupCreate [only_rules]: "(\<And>g x. A (CListKeys g x)) \<Longrightarrow> calls_only A (guardGroupCreate c b n f)"
  unfolding guardGroupCreate_def by (intro only_rules)

lemma only_createWorkloadGroup [only_rules]:
  "(\<And>x. A (CCreateGroup (workloadGroupName b) x)) \<Longrightarrow> (\<And>g x. A (CDeleteGroup g x)) \<Longrightarrow> (\<And>ref. calls_only A (stmp ref)) \<Longrightarrow>
    calls_only A (createWorkloadGroup c b stmp)"
  unfolding createWorkloadGroup_def by (intro only_rules)

text \<open>What resolving a group may send; without \<open>create\<close> nothing but reads and tag writes.\<close>

definition groupCall :: "bool \<Rightarrow> string \<Rightarrow> Bucket \<Rightarrow> call \<Rightarrow> bool" where
  "groupCall create n b x = (isRead x \<or> (case x of CSetTags m kv y \<Rightarrow> m = n
     | CCreateGroup d y \<Rightarrow> create \<and> d = workloadGroupName b | CDeleteGroup d y \<Rightarrow> create | _ \<Rightarrow> False))"

lemma only_resolveWorkloadGroup: "calls_only (groupCall create n b) (resolveWorkloadGroup r c b n admin groups create f)"
  unfolding resolveWorkloadGroup_def attributeGroup_def
  by (cases create; (intro only_rules)) (simp_all add: groupCall_def)

lemma only_resolveGrants:
  assumes "\<And>x. isRead x \<Longrightarrow> A x" and "\<And>n kv x. A (CSetTags n kv x)"
  shows "calls_only A (resolveReadGrants r c b admin groups)"
proof -
  have w: "calls_only A (resolveWorkloadGroup r c g n admin groups False False)" for g n
    by (rule only_weaken [OF only_resolveWorkloadGroup]) (auto simp: groupCall_def assms split: call.splits)
  have g: "calls_only A (resolveGrant r c b admin groups ref)" for ref
    unfolding resolveGrant_def pendingGrant_def
    by (intro only_rules only_callOut w) (simp_all add: assms)
  have "calls_only A (resolveGrants r c b admin groups refs acc)" for refs acc
    by (induction refs arbitrary: acc) (auto intro!: only_rules g)
  then show ?thesis by (simp add: resolveReadGrants_def)
qed

lemma only_issueKey [only_rules]:
  "(\<And>x. A (CListKeys g x)) \<Longrightarrow> (\<And>k x. A (CDeleteKey g k x)) \<Longrightarrow> (\<And>x. A (CCreateKey g x)) \<Longrightarrow>
    (\<And>x. A (KUpsertSecret (b_Namespace b) (sr_Name (sp_SecretRef (b_Spec b))) x)) \<Longrightarrow> calls_only A (issueKey r c b g h u)"
  unfolding issueKey_def by (intro only_rules)

lemma only_ensureAccessKeyAndSecret [only_rules]:
  "(\<And>x. A (CListKeys g x)) \<Longrightarrow> (\<And>k x. A (CDeleteKey g k x)) \<Longrightarrow> (\<And>x. A (CCreateKey g x)) \<Longrightarrow>
    (\<And>ns n x. A (KGetSecret ns n x)) \<Longrightarrow> (\<And>ns n x. A (KUpsertSecret ns n x)) \<Longrightarrow>
    calls_only A (ensureAccessKeyAndSecret r c g h u)"
  unfolding ensureAccessKeyAndSecret_def by (intro only_rules)

section \<open>Steps of the resolution\<close>

lemma ownershipName_nonempty: "ownershipName r \<noteq> []"
  by (simp add: ownershipName_def defaultOwnershipName_def)

lemma isOwned_nonempty: "isOwnedByUs r tags b \<Longrightarrow> tags \<noteq> []"
  using ownershipName_nonempty [of r] by (auto simp: isOwnedByUs_def)

lemma isOwned_ownershipTags: "isOwnedByUs r (ownershipTags r b) b"
  by (simp add: isOwnedByUs_def ownershipTags_def mget_def tag_consts)

text \<open>Tags that are not empty are the provider's answer, and the answer is in the history.\<close>

lemma BucketTags_seen:
  assumes "BucketTags mc s3 n s = (Inr tags, s')" and "tags \<noteq> []"
  shows "CGetTags n (Inr tags) \<in> set (s_calls s')"
  using assms by (auto simp: BucketTags_def exec split: sum.splits if_splits)

lemma groupExists_seen:
  assumes "groupExists c g s = (Inr x, s')"
  shows "if x then \<exists>ks. CListKeys g (Inr ks) \<in> set (s_calls s')
    else \<exists>e. StatusCode e = 404 \<and> CListKeys g (Inl e) \<in> set (s_calls s')"
  using assms by (auto simp: groupExists_def ListAccessKeyIDs_def exec split: sum.splits if_splits)

lemma find_last: "List.find P (rev xs) = Some x \<Longrightarrow> x \<in> set xs \<and> P x"
  by (metis find_Some_iff nth_mem set_rev)

lemma groupFromTags_sound:
  assumes run: "groupFromTags c tags groups stmp s = (Inr (Some (ref, wr)), s')" and st: "\<And>ref. calls_only anyCall (stmp ref)"
  shows "mget tags tagCredentialsGroupID = wg_id ref \<and> wg_id ref \<noteq> [] \<and>
    (\<exists>ks. CListKeys (wg_id ref) (Inr ks) \<in> set (s_calls s')) \<and>
    (mget tags tagCredentialsGroupURN = wg_urn ref \<or> (\<exists>g \<in> set groups. g_ID g = wg_id ref \<and> g_URN g = wg_urn ref))"
proof -
  let ?gid = "mget tags tagCredentialsGroupID"
  have ne: "?gid \<noteq> []" using run by (auto simp: groupFromTags_def exec)
  obtain x s1 where ex: "groupExists c ?gid s = (x, s1)" by fastforce
  with run ne have x: "x = Inr True"
    by (auto simp: groupFromTags_def Let_def exec split: sum.splits if_splits)
  from groupExists_seen [of c ?gid s True s1] ex x obtain ks where ks: "CListKeys ?gid (Inr ks) \<in> set (s_calls s1)" by auto
  show ?thesis
  proof (cases "mget tags tagCredentialsGroupURN = []")
    case False
    with run ks ne ex x show ?thesis by (auto simp: groupFromTags_def exec Let_def)
  next
    case True
    with run ne ex x obtain g where g: "byID groups ?gid = Some g"
      by (cases "byID groups ?gid") (auto simp: groupFromTags_def exec Let_def)
    then have mem: "g \<in> set groups" "g_ID g = ?gid" using find_last unfolding byID_def by fast+
    obtain y s2 where st2: "stmp \<lparr>wg_id = g_ID g, wg_urn = g_URN g\<rparr> s1 = (y, s2)" by fastforce
    with run True ne ex x g have "s2 = s'" "ref = \<lparr>wg_id = g_ID g, wg_urn = g_URN g\<rparr>"
      by (auto simp: groupFromTags_def Let_def exec split: sum.splits)
    with calls_grow [OF st st2] ks mem ne show ?thesis by auto
  qed
qed

lemma groupFromPolicy_sound:
  assumes run: "groupFromPolicy r s3 n groups stmp s = (Inr (Some (ref, wr)), s')" and st: "\<And>ref. calls_only anyCall (stmp ref)"
  shows "\<exists>policy. CGetPolicy n (Some policy) \<in> set (s_calls s') \<and> WorkloadPrincipalFromPolicy policy = Some (wg_urn ref) \<and>
    (\<exists>g \<in> set groups. g_ID g = wg_id ref \<and> g_URN g = wg_urn ref)"
proof -
  obtain x s1 where p: "GetBucketPolicy (r_minio r) s3 n s = (x, s1)" by fastforce
  with run obtain policy where x: "x = Inr policy"
    by (cases x) (auto simp: groupFromPolicy_def exec)
  have seen: "CGetPolicy n (Some policy) \<in> set (s_calls s1)"
    using p x by (auto simp: GetBucketPolicy_def exec)
  from run p x obtain urn g where urn: "WorkloadPrincipalFromPolicy policy = Some urn" "byURN groups urn = Some g"
    by (auto simp: groupFromPolicy_def exec split: option.splits)
  then have mem: "g \<in> set groups" "g_URN g = urn" using find_last unfolding byURN_def by fast+
  obtain y s2 where st2: "stmp \<lparr>wg_id = g_ID g, wg_urn = g_URN g\<rparr> s1 = (y, s2)" by fastforce
  with run p x urn have "s_calls s' = s_calls s2" "ref = \<lparr>wg_id = g_ID g, wg_urn = g_URN g\<rparr>"
    by (auto simp: groupFromPolicy_def Let_def exec raise_simps split: sum.splits)
  with calls_grow [OF st st2] seen mem urn show ?thesis by auto
qed

lemma createWorkloadGroup_sound:
  assumes run: "createWorkloadGroup c b stmp s = (Inr ref, s')" and st: "\<And>ref. calls_only anyCall (stmp ref)"
  shows "CCreateGroup (workloadGroupName b) (Some (wg_id ref, wg_urn ref)) \<in> set (s_calls s')"
proof -
  obtain x s1 where cr: "CreateCredentialsGroup c (workloadGroupName b) s = (x, s1)" by fastforce
  with run obtain gid urn where x: "x = Inr (gid, urn)"
    by (cases x) (auto simp: createWorkloadGroup_def exec)
  have seen: "CCreateGroup (workloadGroupName b) (Some (gid, urn)) \<in> set (s_calls s1)"
    using cr x by (auto simp: CreateCredentialsGroup_def exec split: sum.splits)
  obtain y s2 where st2: "stmp \<lparr>wg_id = gid, wg_urn = urn\<rparr> s1 = (y, s2)" by fastforce
  with run cr x have "s2 = s'" "ref = \<lparr>wg_id = gid, wg_urn = urn\<rparr>"
    by (auto simp: createWorkloadGroup_def Let_def exec split: sum.splits)
  with calls_grow [OF st st2] seen show ?thesis by auto
qed

lemma newS3Admin_grow: "calls_only anyCall (newS3Admin r c n admin)"
  by (intro only_rules) simp

text \<open>Where a resolved group came from, by the history of the pass.\<close>

definition sourceOf :: "Bucket \<Rightarrow> string \<Rightarrow> string gomap \<Rightarrow> groupIndex \<Rightarrow> workloadGroupRef \<Rightarrow> call list \<Rightarrow> bool" where
  "sourceOf b name tags groups ref h \<longleftrightarrow>
     (mget tags tagCredentialsGroupID = wg_id ref \<and> wg_id ref \<noteq> [] \<and> (\<exists>ks. CListKeys (wg_id ref) (Inr ks) \<in> set h)) \<or>
     (\<exists>policy. CGetPolicy name (Some policy) \<in> set h \<and> WorkloadPrincipalFromPolicy policy = Some (wg_urn ref) \<and>
        (\<exists>g \<in> set groups. g_ID g = wg_id ref \<and> g_URN g = wg_urn ref)) \<or>
     CCreateGroup (workloadGroupName b) (Some (wg_id ref, wg_urn ref)) \<in> set h"

definition attributedBy :: "'w reconciler \<Rightarrow> Bucket \<Rightarrow> string \<Rightarrow> groupIndex \<Rightarrow> workloadGroupRef \<Rightarrow> call list \<Rightarrow> bool" where
  "attributedBy r b name groups ref h \<longleftrightarrow>
     (\<exists>tags. CGetTags name (Inr tags) \<in> set h \<and> isOwnedByUs r tags b \<and> sourceOf b name tags groups ref h)"

lemma stamp_any: "calls_only anyCall (stamp r s3 name tags ref)" by (intro only_rules) simp

lemma attributeGroup_sound:
  assumes run: "attributeGroup r c b name s3 tags groups create fresh s = (Inr (ref, wr), s')"
  shows "sourceOf b name tags groups ref (s_calls s')"
proof -
  let ?st = "stamp r s3 name tags"
  obtain x2 s2 where a2: "groupFromTags c tags groups ?st s = (x2, s2)" by fastforce
  with run obtain f2 where x2: "x2 = Inr f2"
    by (cases x2) (auto simp: attributeGroup_def exec Let_def)
  show ?thesis
  proof (cases f2)
    case (Some res)
    with run a2 x2 have "res = (ref, wr)" "s2 = s'" by (auto simp: attributeGroup_def exec Let_def)
    with groupFromTags_sound [where stmp = ?st, OF _ stamp_any] a2 x2 Some show ?thesis unfolding sourceOf_def by blast
  next
    case None
    obtain x3 s3' where a3: "groupFromPolicy r s3 name groups ?st s2 = (x3, s3')" by fastforce
    with run a2 x2 None obtain f3 where x3: "x3 = Inr f3"
      by (cases x3) (auto simp: attributeGroup_def exec Let_def)
    show ?thesis
    proof (cases f3)
      case (Some res)
      with run a2 x2 None a3 x3 have "res = (ref, wr)" "s3' = s'" by (auto simp: attributeGroup_def exec Let_def)
      with groupFromPolicy_sound [where stmp = ?st, OF _ stamp_any] a3 x3 Some show ?thesis unfolding sourceOf_def by blast
    next
      case none3: None
      obtain x4 s4 where a4: "guardGroupCreate c b name fresh s3' = (x4, s4)" by fastforce
      obtain x5 s5 where a5: "createWorkloadGroup c b ?st s4 = (x5, s5)" by fastforce
      from run a2 x2 None a3 x3 none3 a4 a5 have "x5 = Inr ref" "s5 = s'"
        by (auto simp: attributeGroup_def exec Let_def split: if_splits sum.splits)
      with createWorkloadGroup_sound [where stmp = ?st, OF _ stamp_any] a5 show ?thesis unfolding sourceOf_def by blast
    qed
  qed
qed

lemma only_attributeGroup: "calls_only anyCall (attributeGroup r c b n s3 tags groups create f)"
  unfolding attributeGroup_def by (intro only_rules) simp_all

lemma resolve_cases:
  assumes run: "resolveWorkloadGroup r c b name admin groups create fresh s = (Inr res, s')"
  obtains s3 tags s1 where "isOwnedByUs r tags b" "CGetTags name (Inr tags) \<in> set (s_calls s1)"
    "attributeGroup r c b name s3 tags groups create fresh s1 = (Inr res, s')"
proof -
  obtain x0 s0 where a0: "newS3Admin r c name admin s = (x0, s0)" by fastforce
  with run obtain s3 where x0: "x0 = Inr s3" by (cases x0) (auto simp: resolveWorkloadGroup_def exec)
  obtain x1 s1 where a1: "BucketTags (r_minio r) s3 name s0 = (x1, s1)" by fastforce
  with run a0 x0 obtain tags where x1: "x1 = Inr tags" by (cases x1) (auto simp: resolveWorkloadGroup_def exec)
  with run a0 x0 a1 have own: "isOwnedByUs r tags b"
      and "attributeGroup r c b name s3 tags groups create fresh s1 = (Inr res, s')"
    by (auto simp: resolveWorkloadGroup_def exec split: if_splits)
  moreover have "CGetTags name (Inr tags) \<in> set (s_calls s1)"
    using BucketTags_seen [OF a1 [unfolded x1]] isOwned_nonempty [OF own] by blast
  ultimately show thesis using that by blast
qed

lemma resolve_sound:
  assumes run: "resolveWorkloadGroup r c b name admin groups create fresh s = (Inr (ref, wr), s')"
  shows "attributedBy r b name groups ref (s_calls s')"
proof -
  obtain s3 tags s1 where r: "isOwnedByUs r tags b" "CGetTags name (Inr tags) \<in> set (s_calls s1)"
    "attributeGroup r c b name s3 tags groups create fresh s1 = (Inr (ref, wr), s')"
    by (rule resolve_cases [OF run])
  with calls_grow [OF only_attributeGroup r(3)] attributeGroup_sound [OF r(3)] show ?thesis
    unfolding attributedBy_def by blast
qed

section \<open>Properties\<close>


text \<open>A bucket that was provisioned for \<^const>\<open>sampleBucket\<close> by the concrete reconciler.\<close>

definition fakeAdmin :: adminCreds where
  "fakeAdmin = \<lparr>ac_accessKeyID = ''AK'', ac_secretAccessKey = ''SK'', ac_urn = ''urn:admin'', ac_groupID = ''cg-1''\<rparr>"

definition taggedWorld :: fworld where
  "taggedWorld = emptyWorld\<lparr>fw_crs := [readyBucket], fw_cloud := (fw_cloud emptyWorld)\<lparr>
     sv_buckets := [(''c1-team-data'', \<lparr>fb_Objects = [], fb_Tags = [(''managed-by'', ''stackit-s3-provisioner''),
       (''owner'', ''team/data''), (''credentials-group-id'', ''cg-2''), (''credentials-group-urn'', ''urn:g2'')], fb_Policy = []\<rparr>)],
     sv_groups := [(''cg-2'', \<lparr>fg_URN = ''urn:g2'', fg_DisplayName = ''s3op'', fg_Keys = []\<rparr>)]\<rparr>\<rparr>"


lemma attributeGroup_status:
  "attributeGroup r c b name s3 tags groups False fresh = attributeGroup r c b' name s3 tags groups False fresh"
  by (simp add: attributeGroup_def Let_def)

text \<open>The status has no say in it. Without \<open>create\<close> the resolution is the same function for any
  two Buckets of the same namespace and name: what their status, spec or annotations record changes
  neither the answer nor one call.\<close>

lemma attribution_ignores_status:
  "resolveWorkloadGroup r c (b\<lparr>b_Status := t, b_Spec := p, b_Annotations := a, b_Generation := g\<rparr>) name admin groups False fresh =
   resolveWorkloadGroup r c b name admin groups False fresh"
proof -
  let ?b = "b\<lparr>b_Status := t, b_Spec := p, b_Annotations := a, b_Generation := g\<rparr>"
  have "isOwnedByUs r tags ?b = isOwnedByUs r tags b" for tags by (simp add: isOwnedByUs_def ownerTagValue_def)
  moreover have "attributeGroup r c ?b name s3 tags groups False fresh = attributeGroup r c b name s3 tags groups False fresh" for s3 tags
    by (rule attributeGroup_status)
  ultimately show ?thesis unfolding resolveWorkloadGroup_def by presburger
qed

text \<open>The write discipline of the resolution: what may be sent once \<open>H\<close> has been.\<close>

definition ownedSeen :: "'w reconciler \<Rightarrow> Bucket \<Rightarrow> string \<Rightarrow> call set \<Rightarrow> bool" where
  "ownedSeen r b name H \<longleftrightarrow> (\<exists>tags. CGetTags name (Inr tags) \<in> H \<and> isOwnedByUs r tags b)"

definition mayCreate :: "Bucket \<Rightarrow> bool \<Rightarrow> call set \<Rightarrow> bool" where
  "mayCreate b fresh H \<longleftrightarrow> st_CredentialsGroupID (b_Status b) = [] \<or> fresh \<or>
     (\<exists>e. StatusCode e = 404 \<and> CListKeys (st_CredentialsGroupID (b_Status b)) (Inl e) \<in> H)"

definition groupDiscipline :: "'w reconciler \<Rightarrow> Bucket \<Rightarrow> string \<Rightarrow> bool \<Rightarrow> call \<Rightarrow> call set \<Rightarrow> bool" where
  "groupDiscipline r b name fresh x H =
     (case x of
        CCreateGroup d y \<Rightarrow> d = workloadGroupName b \<and> ownedSeen r b name H \<and> mayCreate b fresh H
      | CDeleteGroup g y \<Rightarrow> (\<exists>urn. CCreateGroup (workloadGroupName b) (Some (g, urn)) \<in> H)
      | CSetTags n kv y \<Rightarrow> n = name \<and> isOwnedByUs r kv b \<and> ownedSeen r b name H
      | _ \<Rightarrow> isRead x)"

lemma groupDiscipline_read: "isRead x \<Longrightarrow> groupDiscipline r b name fresh x H"
  by (cases x) (simp_all add: groupDiscipline_def)

lemma lasting_owned [lasting_rules]: "lasting (ownedSeen r b name)" "lasting (mayCreate b fresh)"
  unfolding ownedSeen_def mayCreate_def by (intro lasting_rules)+

lemma isOwned_stamp:
  "isOwnedByUs r (mput tagCredentialsGroupURN u (mput tagCredentialsGroupID g tags)) b = isOwnedByUs r tags b"
  by (simp add: isOwnedByUs_def tag_consts)

lemma guardGroupCreate_seen:
  assumes run: "guardGroupCreate c b n fresh s = (x, s')"
  shows "case x of Inl e \<Rightarrow> True | Inr u \<Rightarrow> mayCreate b fresh (set (s_calls s'))"
proof (cases "st_CredentialsGroupID (b_Status b) = [] \<or> fresh")
  case True
  then show ?thesis by (auto simp: mayCreate_def split: sum.split)
next
  case False
  obtain y s1 where g: "groupExists c (st_CredentialsGroupID (b_Status b)) s = (y, s1)" by fastforce
  with run False show ?thesis
    by (cases y) (auto simp: guardGroupCreate_def Let_def exec mayCreate_def dest: groupExists_seen split: if_splits)
qed

lemma createWorkloadGroup_disc:
  assumes own: "isOwnedByUs r tags b"
  shows "valid (disc (groupDiscipline r b n fresh) (\<lambda>H. ownedSeen r b n H \<and> mayCreate b fresh H))
    (createWorkloadGroup c b (stamp r s3 n tags)) (\<lambda>_. disc (groupDiscipline r b n fresh) (ownedSeen r b n))"
  unfolding createWorkloadGroup_def
  apply (rule disc_check [where E = "\<lambda>x H. case x of Inl e \<Rightarrow> True | Inr (g, u) \<Rightarrow> CCreateGroup (workloadGroupName b) (Some (g, u)) \<in> H"])
      apply (intro lasting_rules)
     apply (intro only_rules, simp add: groupDiscipline_def)
    apply (auto simp: CreateCredentialsGroup_def exec split: sum.splits)[1]
   apply (rule disc_end, blast)
  apply (intro valid_prod valid_let)
  apply (rule disc_then)
     apply (intro lasting_rules)
    apply (intro only_rules, simp add: groupDiscipline_def isOwned_stamp own)
   apply (rule disc_after)
     apply (intro lasting_rules)
    apply (intro only_rules, auto simp: groupDiscipline_def)[1]
   apply (rule disc_end, blast)+
  done

lemma attributeGroup_disc:
  assumes own: "isOwnedByUs r tags b"
  shows "valid (disc (groupDiscipline r b n fresh) (ownedSeen r b n))
    (attributeGroup r c b n s3 tags groups create fresh) (\<lambda>_. disc (groupDiscipline r b n fresh) (ownedSeen r b n))"
proof -
  note D = groupDiscipline_def isOwned_stamp own
  show ?thesis unfolding attributeGroup_def
    apply (intro valid_let)
    apply (rule disc_then)
       apply (intro lasting_rules)
      apply (intro only_rules; simp add: D)
     apply (rule disc_end, blast)
    apply (intro valid_option)
     apply (rule disc_then)
        apply (intro lasting_rules)
       apply (intro only_rules; simp add: D)
      apply (rule disc_end, blast)
     apply (intro valid_option valid_if)
       apply (rule disc_end, blast)
      apply (rule disc_check [where E = "\<lambda>x H. case x of Inl e \<Rightarrow> True | Inr u \<Rightarrow> mayCreate b fresh H"])
          apply (intro lasting_rules)
         apply (intro only_rules; simp add: D)
        apply (rule guardGroupCreate_seen, assumption)
       apply (rule disc_end, blast)
      apply (rule valid_check [where E = "\<lambda>_. disc (groupDiscipline r b n fresh) (ownedSeen r b n)"
        and R = "\<lambda>_. disc (groupDiscipline r b n fresh) (ownedSeen r b n)"])
        apply (simp cong: sum.case_cong add: createWorkloadGroup_disc [OF own] split: sum.split)
       apply (rule disc_end, blast)+
    done
qed

lemma BucketTags_owned:
  assumes "BucketTags mc s3 n s = (x, s')"
  shows "case x of Inl e \<Rightarrow> True | Inr tags \<Rightarrow> isOwnedByUs r tags b \<longrightarrow> ownedSeen r b n (set (s_calls s'))"
proof (cases x)
  case (Inr tags)
  with assms isOwned_nonempty [of r tags b] show ?thesis unfolding ownedSeen_def by (auto dest: BucketTags_seen)
qed simp

lemma resolve_disc:
  "valid (disc (groupDiscipline r b n fresh) (\<lambda>_. True))
    (resolveWorkloadGroup r c b n admin groups create fresh) (\<lambda>_. disc (groupDiscipline r b n fresh) (\<lambda>_. True))"
  unfolding resolveWorkloadGroup_def
  apply (rule disc_then)
     apply (intro lasting_rules)
    apply (intro only_rules, simp add: groupDiscipline_def)
   apply (rule disc_end, blast)
  apply (rule disc_check [where E = "\<lambda>x H. case x of Inl e \<Rightarrow> True | Inr tags \<Rightarrow> isOwnedByUs r tags b \<longrightarrow> ownedSeen r b n H"])
      apply (intro lasting_rules)
     apply (intro only_rules, simp add: groupDiscipline_def)
    apply (rule BucketTags_owned, assumption)
   apply (rule disc_end, blast)
  apply (intro valid_if)
   apply (rule disc_end, blast)
  apply (rule valid_weaken [OF attributeGroup_disc])
    apply (auto simp: disc_def)
  done


text \<open>A bucket with ownership tags and no group yet, for the concrete reconciler.\<close>

definition ownedState :: "fworld st" where
  "ownedState = fakeState (emptyWorld\<lparr>fw_cloud := SeedBucket ''c1-team-data''
     (ownershipTags fakeReconciler sampleBucket) (fw_cloud emptyWorld)\<rparr>) sampleBucket"


text \<open>The bucket itself.\<close>

definition untaggedSeen :: "string \<Rightarrow> call set \<Rightarrow> bool" where
  "untaggedSeen name H \<longleftrightarrow> CGetTags name (Inr []) \<in> H \<or>
     (\<exists>e. (fst (s3Response e) = ''NoSuchTagSet'' \<or> snd (s3Response e) = 404) \<and> CGetTags name (Inl e) \<in> H)"

definition bucketDiscipline :: "'w reconciler \<Rightarrow> 'w client \<Rightarrow> Bucket \<Rightarrow> string \<Rightarrow> call \<Rightarrow> call set \<Rightarrow> bool" where
  "bucketDiscipline r c b name x H =
     (case x of
        CCreateBucket n y \<Rightarrow> n = name \<and> (\<exists>ns. CListBuckets (cl_ProjectID c) (Some ns) \<in> H \<and> name \<notin> set ns)
      | CSetTags n kv y \<Rightarrow> n = name \<and> kv = ownershipTags r b \<and>
          (CCreateBucket name True \<in> H \<or> (untaggedSeen name H \<and> CListObjects name False ([], True) \<in> H))
      | _ \<Rightarrow> isRead x)"

definition bucketOutcome :: "'w reconciler \<Rightarrow> Bucket \<Rightarrow> string \<Rightarrow> go_error + bool \<Rightarrow> call set \<Rightarrow> bool" where
  "bucketOutcome r b name x H =
     (case x of Inl e \<Rightarrow> True
      | Inr created \<Rightarrow>
          (if created then CCreateBucket name True \<in> H else ownedSeen r b name H) \<or> CSetTags name (ownershipTags r b) True \<in> H)"

lemma lasting_untagged [lasting_rules]: "lasting (untaggedSeen name)"
  unfolding untaggedSeen_def by (intro lasting_rules)

lemma BucketTags_answer:
  assumes "BucketTags mc s3 n s = (x, s')"
  shows "case x of Inl e \<Rightarrow> True | Inr tags \<Rightarrow> (tags = [] \<longrightarrow> untaggedSeen n (set (s_calls s'))) \<and>
    (isOwnedByUs r tags b \<longrightarrow> ownedSeen r b n (set (s_calls s')))"
  using BucketTags_owned [OF assms, of r b] assms
  by (auto simp: BucketTags_def exec untaggedSeen_def split: sum.splits if_splits)

lemma BucketEmpty_seen:
  "BucketEmpty mc s3 n s = (x, s') \<Longrightarrow> (case x of Inl e \<Rightarrow> True | Inr em \<Rightarrow> em \<longrightarrow> CListObjects n False ([], True) \<in> set (s_calls s'))"
  by (auto simp: BucketEmpty_def ListObjects_def exec split: sum.splits list.splits option.splits prod.splits)

lemma SetBucketTags_seen:
  "SetBucketTags mc s3 n kv s = (x, s') \<Longrightarrow> (case x of Inl e \<Rightarrow> True | Inr u \<Rightarrow> CSetTags n kv True \<in> set (s_calls s'))"
  by (auto simp: SetBucketTags_def exec split: sum.splits option.splits)

lemma HasBucket_seen:
  "HasBucket c p n s = (x, s') \<Longrightarrow>
    (case x of Inl e \<Rightarrow> True | Inr ok \<Rightarrow> \<exists>ns. CListBuckets p (Some ns) \<in> set (s_calls s') \<and> ok = (n \<in> set ns))"
  by (auto simp: HasBucket_def ListBucketNames_def exec list_ex_iff split: sum.splits)

lemma CreateBucket_seen:
  "CreateBucket c n s = (x, s') \<Longrightarrow> (case x of Inl e \<Rightarrow> True | Inr u \<Rightarrow> CCreateBucket n True \<in> set (s_calls s'))"
  by (auto simp: CreateBucket_def exec split: sum.splits)

lemma adopt_disc:
  "valid (disc (bucketDiscipline r c b n) (\<lambda>_. True)) (adoptOrCollide r c b n admin)
     (\<lambda>x. disc (bucketDiscipline r c b n) (\<lambda>H. case x of Inl e \<Rightarrow> True | Inr u \<Rightarrow> bucketOutcome r b n (Inr False) H))"
  unfolding adoptOrCollide_def
  apply (rule disc_then)
     apply (intro lasting_rules)
    apply (intro only_rules, simp add: bucketDiscipline_def)
   apply (rule disc_end, simp)
  apply (rule disc_check [where E = "\<lambda>x H. case x of Inl e \<Rightarrow> True | Inr tags \<Rightarrow> (tags = [] \<longrightarrow> untaggedSeen n H) \<and>
        (isOwnedByUs r tags b \<longrightarrow> ownedSeen r b n H)"])
      apply (intro lasting_rules)
     apply (intro only_rules, simp add: bucketDiscipline_def)
    apply (rule BucketTags_answer, assumption)
   apply (rule disc_end, simp)
  apply (intro valid_if)
    apply (rule disc_check [where E = "\<lambda>x H. case x of Inl e \<Rightarrow> True | Inr em \<Rightarrow> em \<longrightarrow> CListObjects n False ([], True) \<in> H"])
        apply (intro lasting_rules)
       apply (intro only_rules, simp add: bucketDiscipline_def)
      apply (rule BucketEmpty_seen, assumption)
     apply (rule disc_end, simp)
    apply (intro valid_if)
     apply (rule disc_end, simp)
    apply (rule disc_last [where E = "\<lambda>x H. case x of Inl e \<Rightarrow> True | Inr u \<Rightarrow> CSetTags n (ownershipTags r b) True \<in> H"])
       apply (intro lasting_rules)
      apply (intro only_rules, simp add: bucketDiscipline_def)
     apply (rule SetBucketTags_seen, assumption)
    apply (auto simp: bucketOutcome_def split: sum.splits)[1]
   apply (rule disc_end, simp add: bucketOutcome_def)+
  done

lemma ensureBucket_disc:
  "valid (disc (bucketDiscipline r c b n) (\<lambda>_. True)) (ensureBucket r c b n admin)
     (\<lambda>x. disc (bucketDiscipline r c b n) (bucketOutcome r b n x))"
proof -
  let ?G = "bucketDiscipline r c b n"
  note D = bucketDiscipline_def and O = bucketOutcome_def
  have adopt: "valid (disc ?G K) (andThen (adoptOrCollide r c b n admin) (\<lambda>_. ret False)) (\<lambda>x. disc ?G (bucketOutcome r b n x))" for K
  proof (rule disc_weaken [where K = "\<lambda>_. True"])
    show "valid (disc ?G (\<lambda>_. True)) (andThen (adoptOrCollide r c b n admin) (\<lambda>_. ret False)) (\<lambda>x. disc ?G (bucketOutcome r b n x))"
      unfolding check_as_after
      by (rule valid_after [OF adopt_disc]) (auto simp: O intro!: disc_end split: sum.split)
  qed simp
  show ?thesis unfolding ensureBucket_def
    apply (rule disc_check [where E = "\<lambda>x H. case x of Inl e \<Rightarrow> True
        | Inr ok \<Rightarrow> \<exists>ns. CListBuckets (cl_ProjectID c) (Some ns) \<in> H \<and> ok = (n \<in> set ns)"])
        apply (intro lasting_rules)
       apply (intro only_rules, simp add: D)
      apply (rule HasBucket_seen, assumption)
     apply (rule disc_end, simp add: O)
    apply (intro valid_if adopt)
    apply (rule disc_check [where E = "\<lambda>x H. case x of Inl e \<Rightarrow> True | Inr u \<Rightarrow> CCreateBucket n True \<in> H"])
        apply (intro lasting_rules)
       apply (intro only_rules, auto simp: D)[1]
      apply (rule CreateBucket_seen, assumption)
     apply (intro valid_if)
      apply (rule disc_end, simp add: O)
     apply (rule disc_then)
        apply (intro lasting_rules)
       apply (intro only_rules, simp add: D)
      apply (rule disc_end, simp add: O)
     apply (rule adopt)
    apply (rule disc_then)
       apply (intro lasting_rules)
      apply (intro only_rules, simp add: D)
     apply (rule disc_end, simp add: O)
    apply (rule disc_then)
       apply (intro lasting_rules)
      apply (intro only_rules, simp add: D)
     apply (rule disc_end, simp add: O)
    apply (rule disc_then)
       apply (intro lasting_rules)
      apply (intro only_rules, simp add: D)
     apply (rule disc_end, simp add: O)+
    done
qed

text \<open>C8: a foreign bucket is never touched. In every history \<open>ensureBucket\<close> leaves, a bucket was
  created only after a listing of the project without that name, and ownership tags were written
  only on the bucket just created or on one the provider answered to be untagged and empty; nothing
  else was written. When it succeeds, the bucket was created by this call, or its tags prove this
  Bucket's ownership, or they were just written.\<close>

theorem foreign_bucket_untouched:
  assumes "s_calls s = []" and "ensureBucket r c b name admin s = (x, s')"
  shows "disciplined (bucketDiscipline r c b name) (s_calls s') \<and> bucketOutcome r b name x (set (s_calls s'))"
  using validD [OF ensureBucket_disc disc_start assms(2)] assms(1) by (simp add: disc_def)

theorem foreign_bucket_untouched_witness:
  "list_all isRead (s_calls (snd (ensureBucket fakeReconciler (fakeClient ''proj'' ''eu01'') sampleBucket ''c1-team-data'' fakeAdmin
     (fakeState (emptyWorld\<lparr>fw_cloud := SeedBucket ''c1-team-data'' [(''owner'', ''other'')] (fw_cloud emptyWorld)\<rparr>) sampleBucket)))) \<and>
   disciplined (bucketDiscipline fakeReconciler (fakeClient ''proj'' ''eu01'') sampleBucket ''c1-team-data'')
     (s_calls (snd (ensureBucket fakeReconciler (fakeClient ''proj'' ''eu01'') sampleBucket ''c1-team-data'' fakeAdmin
       (fakeState emptyWorld sampleBucket))))"
proof
  show "disciplined (bucketDiscipline fakeReconciler (fakeClient ''proj'' ''eu01'') sampleBucket ''c1-team-data'')
     (s_calls (snd (ensureBucket fakeReconciler (fakeClient ''proj'' ''eu01'') sampleBucket ''c1-team-data'' fakeAdmin
       (fakeState emptyWorld sampleBucket))))"
    using foreign_bucket_untouched [OF _ prod.collapse [symmetric], of "fakeState emptyWorld sampleBucket"]
    by (simp add: fakeState_def)
qed code_simp

text \<open>The workload key.\<close>

definition keyOutcome :: "Bucket \<Rightarrow> string \<Rightarrow> go_error + string \<times> bool \<Rightarrow> call list \<Rightarrow> bool" where
  "keyOutcome b g x h =
     (case x of
        Inl e \<Rightarrow> (\<exists>y. CCreateKey g y \<in> set h) \<longrightarrow> is_sentinel ErrCredentialDestroyed e \<and>
          (\<forall>ak. CCreateKey g (Some ak) \<in> set h \<longrightarrow> (\<exists>ok. CDeleteKey g (ak_KeyID ak) ok \<in> set h))
      | Inr (kid, issued) \<Rightarrow>
          if issued then (\<exists>ak. CCreateKey g (Some ak) \<in> set h \<and> kid = ak_AccessKeyID ak) \<and>
            KUpsertSecret (b_Namespace b) (sr_Name (sp_SecretRef (b_Spec b))) True \<in> set h
          else list_all isRead h)"

lemma CreateAccessKey_run:
  "CreateAccessKey c g s = (x, s') \<Longrightarrow> \<exists>y. s_calls s' = CCreateKey g y # s_calls s \<and> (case x of Inl e \<Rightarrow> y = None | Inr ak \<Rightarrow> y = Some ak)"
  by (auto simp: CreateAccessKey_def exec split: sum.splits)

lemma upsertSecret_run:
  "upsertSecret r b n d s = (x, s') \<Longrightarrow> s_calls s' = KUpsertSecret (b_Namespace b) n (isOk x) # s_calls s"
  by (auto simp: upsertSecret_def createOrUpdate_def exec split: sum.splits)

lemma DeleteAccessKey_run:
  "\<exists>ok. s_calls (snd (DeleteAccessKey c g k s)) = CDeleteKey g k ok # s_calls s"
  by (auto simp: DeleteAccessKey_def exec split: sum.splits)

lemma clear_no_create:
  assumes "DeleteAllAccessKeys c g s = (x, s')"
  shows "CCreateKey g' y \<in> set (s_calls s') \<longleftrightarrow> CCreateKey g' y \<in> set (s_calls s)"
proof -
  have o: "calls_only (\<lambda>x. \<nexists>g y. x = CCreateKey g y) (DeleteAllAccessKeys c g)" by (intro only_rules) auto
  obtain new where "s_calls s' = new @ s_calls s" "\<forall>x \<in> set new. \<nexists>g y. x = CCreateKey g y"
    by (rule calls_onlyD [OF o assms])
  then show ?thesis by auto
qed

lemma issueKey_outcome:
  assumes run: "issueKey r c b g host u s = (x, s')" and none: "\<nexists>y. CCreateKey g y \<in> set (s_calls s)"
  shows "keyOutcome b g x (s_calls s') \<and> (\<forall>kid. x \<noteq> Inr (kid, False))"
proof -
  obtain x1 s1 where c1: "DeleteAllAccessKeys c g s = (x1, s1)" by fastforce
  note none1 = none [unfolded clear_no_create [OF c1, symmetric]]
  show ?thesis
  proof (cases x1)
    case (Inl e)
    with run c1 none1 show ?thesis by (auto simp: issueKey_def exec keyOutcome_def)
  next
    case (Inr u1)
    obtain x2 s2 where c2: "CreateAccessKey c g s1 = (x2, s2)" by fastforce
    from CreateAccessKey_run [OF c2] obtain y where y: "s_calls s2 = CCreateKey g y # s_calls s1"
      "case x2 of Inl e \<Rightarrow> y = None | Inr ak \<Rightarrow> y = Some ak" by blast
    show ?thesis
    proof (cases x2)
      case (Inl e)
      with run c1 Inr c2 none1 y show ?thesis
        by (auto simp: issueKey_def exec keyOutcome_def is_sentinel_simps errCredentialDestroyed_def)
    next
      case (Inr ak)
      let ?n = "sr_Name (sp_SecretRef (b_Spec b))"
      let ?d = "SecretData b \<lparr>v_AccessKeyID = ak_AccessKeyID ak, v_SecretAccessKey = ak_SecretAccessKey ak,
                     v_Endpoint = host, v_BucketURL = u\<rparr>"
      obtain x3 s3 where c3: "upsertSecret r b ?n ?d s2 = (x3, s3)" by fastforce
      obtain ok where d: "s_calls (snd (DeleteAccessKey c g (ak_KeyID ak) s3)) = CDeleteKey g (ak_KeyID ak) ok # s_calls s3"
        using DeleteAccessKey_run by blast
      from run c1 \<open>x1 = Inr u1\<close> c2 Inr c3 upsertSecret_run [OF c3] d none1 y show ?thesis
        by (cases x3) (auto simp: issueKey_def Let_def exec keyOutcome_def is_sentinel_simps errCredentialDestroyed_def)
    qed
  qed
qed

text \<open>C9: a lost credential is never silent. When the workload credentials step reports a key it did
  not issue, it has only read; when it reports an issued key, the provider created that key and the
  Secret was written with it. When it fails after the provider was asked for a new key, the error
  is marked as a destroyed credential (so Ready cannot be held over it), and a key that was created
  but could not be delivered was deleted again.\<close>

theorem credential_loss_never_silent:
  assumes "s_calls s = []" and "ensureAccessKeyAndSecret r c g host u s = (x, s')"
  shows "keyOutcome (s_obj s) g x (s_calls s')"
proof -
  let ?n = "sr_Name (sp_SecretRef (b_Spec (s_obj s)))"
  obtain x1 s1 where c1: "getSecret r (b_Namespace (s_obj s)) ?n s = (x1, s1)" by fastforce
  then have h1: "s_calls s1 = [KGetSecret (b_Namespace (s_obj s)) ?n (okVal x1)]"
    using assms(1) by (auto simp: getSecret_def exec)
  obtain x2 s2 where c2: "ListAccessKeyIDs c g s1 = (x2, s2)" by fastforce
  then obtain y where h2: "s_calls s2 = [CListKeys g y, KGetSecret (b_Namespace (s_obj s)) ?n (okVal x1)]"
    using h1 by (auto simp: ListAccessKeyIDs_def exec split: sum.splits)
  obtain x3 s3 where c3: "issueKey r c (s_obj s) g host u s2 = (x3, s3)" by fastforce
  from issueKey_outcome [OF c3] h2 have "keyOutcome (s_obj s) g x3 (s_calls s3)" by auto
  then show ?thesis using assms(2) c1 h1 c2 h2 c3
    by (auto simp: ensureAccessKeyAndSecret_def Let_def exec keyOutcome_def split: sum.splits if_splits)
qed

theorem credential_loss_never_silent_witness:
  "\<exists>e. fst (ensureAccessKeyAndSecret fakeReconciler (fakeClient ''proj'' ''eu01'') ''cg-2'' ''h'' ''u''
        (fakeState (taggedWorld\<lparr>fw_cloud := FailNext ''CreateKey'' 500 (fw_cloud taggedWorld)\<rparr>) readyBucket)) = Inl e \<and>
     is_sentinel ErrCredentialDestroyed e"
proof -
  let ?s = "fakeState (taggedWorld\<lparr>fw_cloud := FailNext ''CreateKey'' 500 (fw_cloud taggedWorld)\<rparr>) readyBucket"
  let ?m = "ensureAccessKeyAndSecret fakeReconciler (fakeClient ''proj'' ''eu01'') ''cg-2'' ''h'' ''u'' ?s"
  have k: "keyOutcome (s_obj ?s) ''cg-2'' (fst ?m) (s_calls (snd ?m))"
    by (rule credential_loss_never_silent [OF _ prod.collapse [symmetric]]) (simp add: fakeState_def)
  have "\<not> isOk (fst ?m) \<and> CCreateKey ''cg-2'' None \<in> set (s_calls (snd ?m))" by code_simp
  with k show ?thesis by (cases "fst ?m") (auto simp: keyOutcome_def)
qed

text \<open>The isolation policy: on success the policy in force was written, or read and found equivalent.\<close>

definition policySet :: "string \<Rightarrow> string \<Rightarrow> call set \<Rightarrow> bool" where
  "policySet name desired H \<longleftrightarrow> CSetPolicy name desired True \<in> H \<or>
     (\<exists>cur. PoliciesEquivalent cur desired \<and> CGetPolicy name (Some cur) \<in> H)"

lemma lasting_policySet [lasting_rules]: "lasting (policySet name desired)"
  unfolding policySet_def by (intro lasting_rules)

lemma ensureBucketPolicy_seen:
  assumes "ensureBucketPolicy r c name admin w rs s = (x, s')"
  shows "case x of Inl e \<Rightarrow> True | Inr written \<Rightarrow> policySet name (BuildIsolationPolicy name (ac_urn admin) w rs) (set (s_calls s'))"
  using assms
  by (auto simp: ensureBucketPolicy_def GetBucketPolicy_def SetBucketPolicy_def policySet_def Let_def exec
      split: sum.splits if_splits)

lemma only_ensureBucketPolicy [only_rules]:
  "(\<And>e. A (CGetBucket n e)) \<Longrightarrow> (\<And>x. A (CGetPolicy n x)) \<Longrightarrow>
    (\<And>x. A (CSetPolicy n (BuildIsolationPolicy n (ac_urn admin) w rs) x)) \<Longrightarrow>
    calls_only A (ensureBucketPolicy r c n admin w rs)"
  unfolding ensureBucketPolicy_def Let_def by (intro only_rules)

end
