(* ===== verification/Clone.thy ===== *)
theory Clone
  imports Attribution
begin

text \<open>
  The one-shot clone of a bucket, \<open>internal/controller/clone.go\<close>: the rclone Job and its staging
  Secret, the state machine \<open>ensureClone\<close> drives (no Job, running, finished, failed), the terminal
  record, and the display helpers (sizes, progress, rate, ETA) with Go's integer and rounding
  behaviour written out.

  \<open>spec.cloneFrom\<close> is dereferenced without a check in the code; every caller tests it first
  (\<open>ClonePending\<close>), so \<open>cloneSource\<close> is only evaluated on a value. The transfer statistics come from
  the pod's HTTP endpoint: the request and the decoder are operations of the cluster record; float
  values are rationals.
\<close>

section \<open>Go arithmetic\<close>

text \<open>\<open>int64\<close> results wrap; division truncates towards zero.\<close>

definition wrap64 :: "int \<Rightarrow> int" where
  "wrap64 i = (i + 2 ^ 63) mod 2 ^ 64 - 2 ^ 63"

definition goQuot :: "int \<Rightarrow> int \<Rightarrow> int" where
  "goQuot a b = sgn a * sgn b * (\<bar>a\<bar> div \<bar>b\<bar>)"

text \<open>A quotient rounded to the nearest integer, ties to even.\<close>

definition roundEven :: "nat \<Rightarrow> nat \<Rightarrow> nat" where
  "roundEven a d =
     (let q = a div d; r = a mod d in
      if d < 2 * r \<or> (2 * r = d \<and> odd q) then q + 1 else q)"

fun bitLen :: "nat \<Rightarrow> nat" where
  "bitLen n = (if n = 0 then 0 else Suc (bitLen (n div 2)))"

declare bitLen.simps [simp del]

text \<open>\<open>float64(n)\<close> of a non-negative integer: 53 significant bits, ties to even.\<close>

definition float64 :: "nat \<Rightarrow> nat" where
  "float64 n = (let k = bitLen n - 53 in roundEven n (2 ^ k) * 2 ^ k)"

section \<open>Display helpers\<close>

fun unitLoop :: "nat \<Rightarrow> nat \<Rightarrow> nat \<Rightarrow> nat \<times> nat" where
  "unitLoop m d e = (if m < 1024 then (d, e) else unitLoop (m div 1024) (d * 1024) (e + 1))"

declare unitLoop.simps [simp del]

text \<open>\<open>%.1f\<close> of \<open>float64(n) / float64(div)\<close>: the divisor is a power of two, so the quotient is exact.\<close>

definition humanBytes :: "int \<Rightarrow> string" where
  "humanBytes n =
     (if n < 1024 then showInt n @ '' B''
      else let m = nat n; (d, e) = unitLoop (m div 1024) 1024 0; t = roundEven (10 * float64 m) d in
        showNat (t div 10) @ ''.'' @ showNat (t mod 10) @ '' '' @ [''KMGTPE'' ! e] @ ''iB'')"

definition clonePct :: "int \<Rightarrow> int \<Rightarrow> int" where
  "clonePct copied tot = (let pct = goQuot (wrap64 (copied * 100)) tot in if 100 < pct then 100 else pct)"

definition cloneProgress :: "int \<Rightarrow> int \<Rightarrow> string" where
  "cloneProgress copied tot =
     (if tot \<le> 0 then humanBytes copied
      else humanBytes copied @ '' / '' @ humanBytes tot @ '' ('' @ showInt (clonePct copied tot) @ ''%)'')"

definition cloneRate :: "rat \<Rightarrow> string" where
  "cloneRate bytesPerSecond = (if bytesPerSecond \<le> 0 then [] else humanBytes \<lfloor>bytesPerSecond\<rfloor> @ ''/s'')"

definition cloneETA :: "rat option \<Rightarrow> string" where
  "cloneETA eta = (case eta of None \<Rightarrow> []
     | Some e \<Rightarrow> if e < 0 then [] else durString (wrap64 (\<lfloor>e\<rfloor> * 10 ^ 9)))"

section \<open>Names and constants\<close>

definition DefaultCloneImage :: string where "DefaultCloneImage = ''rclone/rclone:1.75.2''"
definition cloneComponentLabel :: string where "cloneComponentLabel = ''app.kubernetes.io/component''"
definition cloneComponentValue :: string where "cloneComponentValue = ''clone''"
definition cloneBucketNamespaceAnnotation :: string where
  "cloneBucketNamespaceAnnotation = ''stackit-bucket.gtrfc.com/bucket-namespace''"
definition cloneBucketNameAnnotation :: string where
  "cloneBucketNameAnnotation = ''stackit-bucket.gtrfc.com/bucket-name''"
definition cloneRcPort :: nat where "cloneRcPort = 5572"
definition cloneRcUser :: string where "cloneRcUser = ''operator''"
definition clonePollInterval :: int where "clonePollInterval = seconds 15"
definition cloneJobTTLSeconds :: int where "cloneJobTTLSeconds = 3600"
definition cloneJobBackoffLimit :: int where "cloneJobBackoffLimit = 3"
definition cloneSecretKeyAccessKeyID :: string where "cloneSecretKeyAccessKeyID = ''sourceAccessKeyID''"
definition cloneSecretKeySecretAccessKey :: string where "cloneSecretKeySecretAccessKey = ''sourceSecretAccessKey''"
definition cloneSecretKeyRcPassword :: string where "cloneSecretKeyRcPassword = ''rcPassword''"
definition reasonCloneStarted :: string where "reasonCloneStarted = ''CloneStarted''"

definition endpointURLFromBucketURL :: "string \<Rightarrow> string \<Rightarrow> string" where
  "endpointURLFromBucketURL burl bucket = trimSuffix burl (''/'' @ bucket)"

definition cloneJobName :: "Bucket \<Rightarrow> string" where
  "cloneJobName b =
     truncatedName 52 (shortHash (b_Namespace b @ ''/'' @ b_Name b)) (''s3op-clone-'' @ b_Namespace b @ ''-'' @ b_Name b)"

definition cloneStagingSecretName :: "Bucket \<Rightarrow> string" where
  "cloneStagingSecretName b = cloneJobName b @ ''-src''"

definition zeroCloneFrom :: CloneFrom where
  "zeroCloneFrom = \<lparr>cf_Endpoint = [], cf_Bucket = [], cf_Region = [], cf_AddressingStyle = [],
     cf_SecretRef = \<lparr>csr_Name = [], csr_Keys = \<lparr>csk_AccessKeyID = [], csk_SecretAccessKey = []\<rparr>\<rparr>,
     cf_HoldSecretUntilCloned = None\<rparr>"

definition cloneSource :: "Bucket \<Rightarrow> CloneFrom" where
  "cloneSource b = (case sp_CloneFrom (b_Spec b) of Some src \<Rightarrow> src | None \<Rightarrow> zeroCloneFrom)"

definition validateCloneSource :: "Bucket \<Rightarrow> string \<Rightarrow> string \<Rightarrow> go_error option" where
  "validateCloneSource b name destHost =
     (case sp_CloneFrom (b_Spec b) of None \<Rightarrow> None
      | Some src \<Rightarrow>
          if cf_Bucket src = name \<and> EndpointHost src = destHost
          then Some (Msg (''cloneFrom points at the bucket itself ('' @ destHost @ ''/'' @ name @ ''); refusing to clone''))
          else None)"

definition newCloneSourceClient :: "'w minio \<Rightarrow> CloneFrom \<Rightarrow> string \<Rightarrow> string \<Rightarrow> go_error + S3Admin" where
  "newCloneSourceClient mc src ak sk =
     (if VirtualHosted src then NewS3VirtualHosted mc (EndpointURL src) ak sk (cf_Region src)
      else NewS3Admin mc (EndpointURL src) ak sk (cf_Region src))"

section \<open>Operations\<close>

definition cloneSourceCreds :: "'w reconciler \<Rightarrow> Bucket \<Rightarrow> ('w st, go_error, string \<times> string) fallible" where
  "cloneSourceCreds r b =
     (let ref = cf_SecretRef (cloneSource b); ak = srcAccessKeyIDKey (csr_Keys ref);
          sk = srcSecretAccessKeyKey (csr_Keys ref); key = b_Namespace b @ ''/'' @ csr_Name ref in
      check (getSecret r (b_Namespace b) (csr_Name ref))
        (\<lambda>err. fault (wrapf (''get clone source secret '' @ key @ '': '') err))
        (\<lambda>sec. if mget (sec_Data sec) ak = [] \<or> mget (sec_Data sec) sk = []
           then fault (Msg (''clone source secret '' @ key @ '' misses data key '' @ quoted ak @ '' or '' @ quoted sk))
           else ret (mget (sec_Data sec) ak, mget (sec_Data sec) sk)))"

definition deleteCloneArtifacts :: "'w reconciler \<Rightarrow> Bucket \<Rightarrow> bool \<Rightarrow> ('w st, go_error, unit) fallible" where
  "deleteCloneArtifacts r b includeStaging =
     (let ns = r_AdminSecretNamespace r; jn = cloneJobName b; sn = cloneStagingSecretName b in
      after (callOut (k_DeleteJob (r_kube r) ns jn) (\<lambda>x. KDeleteJob ns jn (isOk x))) (\<lambda>x.
        case ignoreNotFound (errVal x) of
          Some err \<Rightarrow> fault (wrapf (''delete clone job '' @ ns @ ''/'' @ jn @ '': '') err)
        | None \<Rightarrow>
            if \<not> includeStaging then ret ()
            else after (callOut (k_DeleteSecret (r_kube r) ns sn) (\<lambda>x. KDeleteSecret ns sn (isOk x))) (\<lambda>x.
              case ignoreNotFound (errVal x) of
                Some err \<Rightarrow> fault (wrapf (''delete clone staging secret '' @ ns @ ''/'' @ sn @ '': '') err)
              | None \<Rightarrow> ret ())))"

text \<open>\<open>hex.EncodeToString\<close>, of 16 bytes of \<open>crypto/rand\<close>.\<close>

definition hexEncoded :: "string \<Rightarrow> string" where
  "hexEncoded bs = concat (map (\<lambda>c. [hexDigit (of_char c div 16), hexDigit (of_char c mod 16)]) bs)"

definition randomHex32 :: "'w sys \<Rightarrow> 'w \<Rightarrow> (go_error + string) \<times> 'w" where
  "randomHex32 y w =
     (case sys_RandRead y 16 w of (Inl err, w') \<Rightarrow> (Inl err, w') | (Inr buf, w') \<Rightarrow> (Inr (hexEncoded buf), w'))"

text \<open>The mutate function draws a password only when the Secret has none; the password returned is
  the one in the Secret.\<close>

definition stageSecret :: "string \<Rightarrow> string \<Rightarrow> go_error + string \<Rightarrow> Secret \<Rightarrow> go_error + Secret" where
  "stageSecret srcAK srcSK pass sec =
     (let sec1 = putData [(cloneSecretKeyAccessKeyID, srcAK), (cloneSecretKeySecretAccessKey, srcSK)]
            (putLabels [(managedByLabel, managedByValue), (cloneComponentLabel, cloneComponentValue)] sec) in
      if mget (sec_Data sec1) cloneSecretKeyRcPassword \<noteq> [] then Inr sec1
      else case pass of
        Inl err \<Rightarrow> Inl (wrapf ''generate rc password: '' err)
      | Inr p \<Rightarrow> Inr (putData [(cloneSecretKeyRcPassword, p)] sec1))"

definition ensureCloneStagingSecret :: "'w reconciler \<Rightarrow> Bucket \<Rightarrow> string \<Rightarrow> string \<Rightarrow> ('w st, go_error, string) fallible" where
  "ensureCloneStagingSecret r b srcAK srcSK = reads (\<lambda>s.
     andThen (createOrUpdate r (r_AdminSecretNamespace r) (cloneStagingSecretName b)
         (stageSecret srcAK srcSK (fst (randomHex32 (r_sys r) (s_world s)))))
       (\<lambda>sec. ret (mget (sec_Data sec) cloneSecretKeyRcPassword)))"

definition cloneImage :: "'w reconciler \<Rightarrow> string" where
  "cloneImage r = (if r_CloneImage r \<noteq> [] then r_CloneImage r else DefaultCloneImage)"

definition cloneEnv :: "'w reconciler \<Rightarrow> 'w client \<Rightarrow> CloneFrom \<Rightarrow> string \<Rightarrow> string \<Rightarrow> EnvVar list" where
  "cloneEnv r c src destEndpointURL stagingName =
     [EnvValue ''RCLONE_CONFIG_SRC_TYPE'' ''s3'',
      EnvValue ''RCLONE_CONFIG_SRC_PROVIDER'' ''Other'',
      EnvValue ''RCLONE_CONFIG_SRC_ENDPOINT'' (EndpointURL src),
      EnvValue ''RCLONE_CONFIG_SRC_FORCE_PATH_STYLE'' (if VirtualHosted src then ''false'' else ''true''),
      EnvSecret ''RCLONE_CONFIG_SRC_ACCESS_KEY_ID'' stagingName cloneSecretKeyAccessKeyID,
      EnvSecret ''RCLONE_CONFIG_SRC_SECRET_ACCESS_KEY'' stagingName cloneSecretKeySecretAccessKey,
      EnvValue ''RCLONE_CONFIG_DST_TYPE'' ''s3'',
      EnvValue ''RCLONE_CONFIG_DST_PROVIDER'' ''Other'',
      EnvValue ''RCLONE_CONFIG_DST_ENDPOINT'' destEndpointURL,
      EnvValue ''RCLONE_CONFIG_DST_REGION'' (cl_region c),
      EnvValue ''RCLONE_CONFIG_DST_FORCE_PATH_STYLE'' ''true'',
      EnvSecret ''RCLONE_CONFIG_DST_ACCESS_KEY_ID'' (r_AdminSecretName r) adminSecretKeyAccessKeyID,
      EnvSecret ''RCLONE_CONFIG_DST_SECRET_ACCESS_KEY'' (r_AdminSecretName r) adminSecretKeySecretAccessKey,
      EnvValue ''RCLONE_RC_USER'' cloneRcUser,
      EnvSecret ''RCLONE_RC_PASS'' stagingName cloneSecretKeyRcPassword] @
     (if cf_Region src \<noteq> [] then [EnvValue ''RCLONE_CONFIG_SRC_REGION'' (cf_Region src)] else [])"

definition buildCloneJob :: "'w reconciler \<Rightarrow> 'w client \<Rightarrow> Bucket \<Rightarrow> string \<Rightarrow> string \<Rightarrow> string \<Rightarrow> string \<Rightarrow> Job" where
  "buildCloneJob r c b destBucket destEndpointURL jobName stagingName =
     (let src = cloneSource b in
      \<lparr>job_Namespace = r_AdminSecretNamespace r, job_Name = jobName,
       job_Labels = [(managedByLabel, managedByValue), (cloneComponentLabel, cloneComponentValue)],
       job_Annotations = [(cloneBucketNamespaceAnnotation, b_Namespace b), (cloneBucketNameAnnotation, b_Name b)],
       job_BackoffLimit = cloneJobBackoffLimit, job_TTLSeconds = cloneJobTTLSeconds, job_RestartPolicy = ''Never'',
       job_RunAsNonRoot = True, job_RunAsUser = 65534, job_RunAsGroup = 65534, job_Seccomp = ''RuntimeDefault'',
       job_AllowPrivilegeEscalation = False, job_ReadOnlyRootFilesystem = True, job_DropCapabilities = [''ALL''],
       job_Image = cloneImage r,
       job_Args = [''copy'', ''src:'' @ cf_Bucket src, ''dst:'' @ destBucket, ''--rc'', ''--rc-addr=:'' @ showNat cloneRcPort,
         ''--stats=10s'', ''--s3-no-check-bucket''],
       job_Env = cloneEnv r c src destEndpointURL stagingName,
       job_StartTime = None, job_Conditions = []\<rparr>)"

fun finishedBy :: "JobCondition list \<Rightarrow> bool \<times> bool \<times> string" where
  "finishedBy [] = (False, False, [])"
| "finishedBy (c # cs) =
     (if \<not> jc_Status c then finishedBy cs
      else if jc_Type c = ''Complete'' then (True, False, [])
      else if jc_Type c = ''Failed'' then (False, True, if jc_Message c = [] then jc_Reason c else jc_Message c)
      else finishedBy cs)"

definition cloneJobFinished :: "Job \<Rightarrow> bool \<times> bool \<times> string" where
  "cloneJobFinished j = finishedBy (job_Conditions j)"

definition joinHostPort :: "string \<Rightarrow> string \<Rightarrow> string" where
  "joinHostPort host port = (if CHR '':'' \<in> set host then ''['' @ host @ '']:'' @ port else host @ '':'' @ port)"

text \<open>\<open>http.NewRequestWithContext\<close> and \<open>hc.Do\<close> are one call, whose errors are returned alike.\<close>

definition fetchRcloneCoreStats :: "'w kube \<Rightarrow> string \<Rightarrow> string \<Rightarrow> string \<Rightarrow> 'w \<Rightarrow> (go_error + rcloneStats) \<times> 'w" where
  "fetchRcloneCoreStats k baseURL user pass w =
     (case k_HTTPPost k (baseURL @ ''/core/stats'') (user, pass) ''{}'' w of
        (Inl err, w') \<Rightarrow> (Inl err, w')
      | (Inr (status, body), w') \<Rightarrow>
          (if status \<noteq> 200 then Inl (Msg (''rc core/stats: unexpected status '' @ showInt status))
           else case k_DecodeStats k body of
             Inl err \<Rightarrow> Inl (wrapf ''decode rc core/stats: '' err)
           | Inr stats \<Rightarrow> Inr stats, w'))"

definition pollCloneStats :: "'w reconciler \<Rightarrow> string \<Rightarrow> string \<Rightarrow> ('w st, go_error, rcloneStats) fallible" where
  "pollCloneStats r jobName rcPass =
     check (callOut (k_ListPods (r_kube r) (r_AdminSecretNamespace r) jobName)
         (\<lambda>x. KListPods (r_AdminSecretNamespace r) jobName (isOk x)))
       (\<lambda>err. fault (wrapf ''list clone job pods: '' err))
       (\<lambda>pods. case List.find (\<lambda>p. fst p \<and> snd p \<noteq> []) pods of
          None \<Rightarrow> fault (Msg (''no running clone pod for job '' @ quoted jobName))
        | Some p \<Rightarrow> callOut (fetchRcloneCoreStats (r_kube r) (''http://'' @ joinHostPort (snd p) (showNat cloneRcPort)) cloneRcUser rcPass)
            (\<lambda>x. KCloneStats (isOk x)))"

definition modClone :: "(CloneStatus \<Rightarrow> CloneStatus) \<Rightarrow> ('w st, unit) handler" where
  "modClone f = modStatus (\<lambda>t. t\<lparr>st_Clone := map_option f (st_Clone t)\<rparr>)"

definition zeroClone :: CloneStatus where
  "zeroClone = \<lparr>cl_Phase = ClonePhaseNone, cl_StartedAt = None, cl_CompletedAt = None, cl_TotalBytes = 0,
     cl_BytesCopied = 0, cl_Progress = [], cl_Rate = [], cl_ETA = [], cl_Message = []\<rparr>"

definition cloneOf :: "Bucket \<Rightarrow> CloneStatus" where
  "cloneOf b = (case st_Clone (b_Status b) of Some c \<Rightarrow> c | None \<Rightarrow> zeroClone)"

definition progressed :: "int \<Rightarrow> rcloneStats option \<Rightarrow> CloneStatus \<Rightarrow> CloneStatus" where
  "progressed now stats c =
     (let c1 = c\<lparr>cl_Phase := ClonePhaseRunning,
            cl_StartedAt := (case cl_StartedAt c of None \<Rightarrow> Some now | Some t \<Rightarrow> Some t), cl_Message := []\<rparr>;
          c2 = (case stats of None \<Rightarrow> c1
                | Some x \<Rightarrow> c1\<lparr>cl_BytesCopied := rs_Bytes x, cl_Rate := cloneRate (rs_Speed x), cl_ETA := cloneETA (rs_ETA x)\<rparr>)
      in c2\<lparr>cl_Progress := cloneProgress (cl_BytesCopied c2) (cl_TotalBytes c2)\<rparr>)"

definition updateCloneProgress :: "'w reconciler \<Rightarrow> rcloneStats option \<Rightarrow> ('w st, unit) handler" where
  "updateCloneProgress r stats = reads (\<lambda>s.
     let now = clock (r_sys r) s; src = cloneSource (s_obj s); c = progressed now stats (cloneOf (s_obj s)) in
     andDo (modStatus (\<lambda>t. t\<lparr>st_Clone := Some c,
         st_Conditions := setCondition (condition ConditionCloneCompleted False ReasonCloning
           (''cloning '' @ cf_Bucket src @ '' from '' @ EndpointHost src)) (st_Conditions t),
         st_Phase := PhaseProvisioning,
         st_Message := ''cloning from '' @ EndpointHost src @ ''/'' @ cf_Bucket src @ '': '' @ cl_Progress c\<rparr>))
       (after (updateStatus r) (\<lambda>_. finish ())))"

definition completed :: "int \<Rightarrow> Job \<Rightarrow> CloneStatus \<Rightarrow> CloneStatus" where
  "completed now job c = c\<lparr>cl_Phase := ClonePhaseCompleted,
     cl_StartedAt := (case cl_StartedAt c of None \<Rightarrow> job_StartTime job | Some t \<Rightarrow> Some t),
     cl_CompletedAt := Some now, cl_BytesCopied := cl_TotalBytes c,
     cl_Progress := cloneProgress (cl_TotalBytes c) (cl_TotalBytes c), cl_Rate := [], cl_ETA := [], cl_Message := []\<rparr>"

definition completeClone :: "'w reconciler \<Rightarrow> Job \<Rightarrow> ('w st, bool \<times> Result) handler" where
  "completeClone r job = reads (\<lambda>s.
     let now = clock (r_sys r) s; src = cloneSource (s_obj s); tot = cl_TotalBytes (cloneOf (s_obj s)) in
     andDo (modStatus (\<lambda>t. t\<lparr>st_Clone := Some (completed now job (cloneOf (s_obj s))),
         st_Conditions := setCondition (condition ConditionCloneCompleted True ReasonCloned
           (''cloned '' @ cf_Bucket src @ '' from '' @ EndpointHost src)) (st_Conditions t)\<rparr>))
       (after (updateStatus r) (\<lambda>err. case err of
          Some e \<Rightarrow> after (fail r (wrapf ''persist clone completion: '' e)) (\<lambda>res. finish (False, res))
        | None \<Rightarrow> reads (\<lambda>s.
            after (deleteCloneArtifacts r (s_obj s) True) (\<lambda>_.
              andDo (raise r False ReasonCloned (''cloned '' @ cf_Bucket src @ '' ('' @ humanBytes tot @ '') from '' @ EndpointHost src))
                (finish (True, (0, None))))))))"

definition endsWith :: "('w st, Result) handler \<Rightarrow> ('w st, bool \<times> Result) handler" where
  "endsWith m = after m (\<lambda>res. finish (False, res))"

text \<open>Measuring the source, once its size is unknown.\<close>

definition measureSource :: "'w reconciler \<Rightarrow> CloneFrom \<Rightarrow> string \<Rightarrow> string \<Rightarrow> ('w st, go_error, unit) fallible" where
  "measureSource r src srcAK srcSK = reads (\<lambda>s.
     if cl_TotalBytes (cloneOf (s_obj s)) \<noteq> 0 then ret ()
     else case newCloneSourceClient (r_minio r) src srcAK srcSK of
       Inl err \<Rightarrow> fault (wrapf ''build clone source client: '' err)
     | Inr srcS3 \<Rightarrow>
         check (BucketUsage (r_minio r) srcS3 (cf_Bucket src))
           (\<lambda>err. fault (wrapf (''measure clone source '' @ quoted (cf_Bucket src) @ '' at '' @ EndpointHost src @ '': '') err))
           (\<lambda>tot. andDo (modClone (\<lambda>c. c\<lparr>cl_TotalBytes := tot\<rparr>)) (ret ())))"

text \<open>The Job: absent, finished, failed or running.\<close>

definition driveJob :: "'w reconciler \<Rightarrow> 'w client \<Rightarrow> CloneFrom \<Rightarrow> string \<Rightarrow> string \<Rightarrow> string \<Rightarrow> ('w st, bool \<times> Result) handler" where
  "driveJob r c src name destEndpointURL rcPass = reads (\<lambda>s.
     let b = s_obj s; ns = r_AdminSecretNamespace r; jn = cloneJobName b; key = ns @ ''/'' @ jn in
     check (callOut (k_GetJob (r_kube r) ns jn) (\<lambda>x. KGetJob ns jn (isOk x)))
       (\<lambda>getErr. if is_kube KNotFound getErr
          then let job = buildCloneJob r c b name destEndpointURL jn (cloneStagingSecretName b) in
            check (callOut (k_CreateJob (r_kube r) job) (\<lambda>x. KCreateJob job (isOk x)))
              (\<lambda>err. endsWith (fail r (wrapf (''create clone job '' @ key @ '': '') err)))
              (\<lambda>_. andDo (raise r False reasonCloneStarted (''cloning '' @ cf_Bucket src @ '' from '' @ EndpointHost src @
                     '' ('' @ humanBytes (cl_TotalBytes (cloneOf b)) @ '')''))
                 (andDo (updateCloneProgress r None) (finish (False, (clonePollInterval, None)))))
          else endsWith (fail r (wrapf (''get clone job '' @ key @ '': '') getErr)))
       (\<lambda>job. case cloneJobFinished job of (succeeded, failed, failMsg) \<Rightarrow>
          if succeeded then completeClone r job
          else if failed then
            after (deleteCloneArtifacts r b False) (\<lambda>_.
              andDo (modStatus (\<lambda>t. t\<lparr>st_Clone := map_option (\<lambda>c. c\<lparr>cl_Phase := ClonePhaseFailed, cl_Message := failMsg\<rparr>) (st_Clone t),
                  st_Conditions := setCondition (condition ConditionCloneCompleted False ReasonCloneFailed failMsg) (st_Conditions t)\<rparr>))
                (endsWith (fail r (Msg (''clone job failed: '' @ failMsg)))))
          else after (pollCloneStats r jn rcPass) (\<lambda>stats.
            andDo (updateCloneProgress r (okVal stats)) (finish (False, (clonePollInterval, None))))))"

definition ensureClone :: "'w reconciler \<Rightarrow> 'w client \<Rightarrow> string \<Rightarrow> string \<Rightarrow> ('w st, bool \<times> Result) handler" where
  "ensureClone r c name destEndpointURL = reads (\<lambda>s.
     let src = cloneSource (s_obj s) in
     check (cloneSourceCreds r (s_obj s)) (\<lambda>err. endsWith (fail r err)) (\<lambda>(srcAK, srcSK).
       andDo (modStatus (\<lambda>t. if st_Clone t = None then t\<lparr>st_Clone := Some zeroClone\<rparr> else t))
       (check (measureSource r src srcAK srcSK) (\<lambda>err. endsWith (fail r err)) (\<lambda>_.
          check (ensureCloneStagingSecret r (s_obj s) srcAK srcSK)
            (\<lambda>err. endsWith (fail r (wrapf ''ensure clone staging secret: '' err)))
            (\<lambda>rcPass. driveJob r c src name destEndpointURL rcPass)))))"

section \<open>Footprints\<close>

lemma only_deleteCloneArtifacts [only_rules]:
  "(\<And>x. A (KDeleteJob (r_AdminSecretNamespace r) (cloneJobName b) x)) \<Longrightarrow>
    (\<And>x. stage \<Longrightarrow> A (KDeleteSecret (r_AdminSecretNamespace r) (cloneStagingSecretName b) x)) \<Longrightarrow>
    calls_only A (deleteCloneArtifacts r b stage)"
  unfolding deleteCloneArtifacts_def by (intro only_rules only_callOut) auto

lemma only_cloneSourceCreds [only_rules]: "(\<And>ns n x. A (KGetSecret ns n x)) \<Longrightarrow> calls_only A (cloneSourceCreds r b)"
  unfolding cloneSourceCreds_def by (intro only_rules)

lemma only_modClone [only_rules]: "calls_only A (modClone f)"
  unfolding modClone_def by (intro only_rules)

lemma only_updateCloneProgress [only_rules]: "(\<And>b x. A (KUpdateStatus b x)) \<Longrightarrow> calls_only A (updateCloneProgress r st)"
  unfolding updateCloneProgress_def by (intro only_rules)

lemma only_endsWith [only_rules]: "calls_only A m \<Longrightarrow> calls_only A (endsWith m)"
  unfolding endsWith_def by (intro only_rules)

lemma only_measureSource [only_rules]: "(\<And>n v x. A (CListObjects n v x)) \<Longrightarrow> calls_only A (measureSource r src ak sk)"
  unfolding measureSource_def by (intro only_rules)

lemma only_ensureCloneStagingSecret [only_rules]:
  "(\<And>x. A (KUpsertSecret (r_AdminSecretNamespace r) (cloneStagingSecretName b) x)) \<Longrightarrow>
    calls_only A (ensureCloneStagingSecret r b ak sk)"
  unfolding ensureCloneStagingSecret_def by (intro only_rules)

lemma only_pollCloneStats [only_rules]:
  "(\<And>ns n x. A (KListPods ns n x)) \<Longrightarrow> (\<And>x. A (KCloneStats x)) \<Longrightarrow> calls_only A (pollCloneStats r j p)"
  unfolding pollCloneStats_def by (intro only_rules only_callOut)

lemma only_completeClone [only_rules]:
  "(\<And>b x. A (KUpdateStatus b x)) \<Longrightarrow> (\<And>b x. A (KDeleteJob (r_AdminSecretNamespace r) (cloneJobName b) x)) \<Longrightarrow>
    (\<And>b x. A (KDeleteSecret (r_AdminSecretNamespace r) (cloneStagingSecretName b) x)) \<Longrightarrow> calls_only A (completeClone r j)"
  unfolding completeClone_def by (intro only_rules)

lemma only_driveJob [only_rules]:
  "(\<And>b x. A (KUpdateStatus b x)) \<Longrightarrow> (\<And>b x. A (KDeleteJob (r_AdminSecretNamespace r) (cloneJobName b) x)) \<Longrightarrow>
    (\<And>b x. A (KDeleteSecret (r_AdminSecretNamespace r) (cloneStagingSecretName b) x)) \<Longrightarrow>
    (\<And>ns n x. A (KGetJob ns n x)) \<Longrightarrow> (\<And>b n j x. A (KCreateJob (buildCloneJob r c b name u n j) x)) \<Longrightarrow>
    (\<And>ns n x. A (KListPods ns n x)) \<Longrightarrow> (\<And>x. A (KCloneStats x)) \<Longrightarrow> calls_only A (driveJob r c src name u pw)"
  unfolding driveJob_def by (intro only_rules only_callOut)

section \<open>The order of a clone\<close>

text \<open>What a pass may send while it clones. The Job and the staging Secret of a finished copy go only
  once the terminal state is stored.\<close>

definition completionStored :: "call set \<Rightarrow> bool" where
  "completionStored H \<longleftrightarrow> (\<exists>b. KUpdateStatus b True \<in> H \<and> CloneCompleted b)"

definition cloneDiscipline :: "'w reconciler \<Rightarrow> call \<Rightarrow> call set \<Rightarrow> bool" where
  "cloneDiscipline r x H =
     (case x of
        KDeleteSecret ns n y \<Rightarrow> ns = r_AdminSecretNamespace r \<and> (\<exists>b. n = cloneStagingSecretName b) \<and> completionStored H
      | KDeleteJob ns n y \<Rightarrow> ns = r_AdminSecretNamespace r \<and> (completionStored H \<or> KGetJob ns n True \<in> H)
      | KCreateJob j y \<Rightarrow> job_Namespace j = r_AdminSecretNamespace r \<and> KGetJob (job_Namespace j) (job_Name j) False \<in> H
      | KUpsertSecret ns n y \<Rightarrow> ns = r_AdminSecretNamespace r \<and> (\<exists>b. n = cloneStagingSecretName b)
      | KUpdateStatus b y \<Rightarrow> True
      | _ \<Rightarrow> isRead x)"

lemma lasting_completion [lasting_rules]: "lasting completionStored"
  unfolding completionStored_def by (intro lasting_rules)

lemma updateStatus_seen: "updateStatus r s = (x, s') \<Longrightarrow> (x = None \<longrightarrow> KUpdateStatus (s_obj s) True \<in> set (s_calls s'))"
  using updateStatus_run(1,4) [of r s] by (cases "statusAnswer r s") auto

text \<open>Completing: the state is stored as completed before anything is removed.\<close>

lemma store_completed:
  assumes "CloneCompleted (s_obj s)" and "updateStatus r s = (x, s')" and "disc G K s" and "lasting K"
    and "\<And>b y H. G (KUpdateStatus b y) H"
  shows "disc G (\<lambda>H. K H \<and> (x = None \<longrightarrow> completionStored H)) s'"
proof -
  have "valid (disc G K) (updateStatus r) (\<lambda>_. disc G K)"
    by (rule disc_only [OF assms(4)]) (intro only_rules, simp_all add: assms(5))
  then have "disc G K s'" using assms(3,2) by (rule validD)
  with updateStatus_seen [OF assms(2)] assms(1) show ?thesis by (auto simp: disc_def completionStored_def)
qed

lemma completeClone_disc:
  "valid (disc (cloneDiscipline r) (\<lambda>_. True)) (completeClone r job)
     (\<lambda>x. disc (cloneDiscipline r) (\<lambda>H. fst x \<longrightarrow> completionStored H))"
proof (rule validI, goal_cases)
  case (1 s x s')
  let ?G = "cloneDiscipline r"
  let ?c = "completed (clock (r_sys r) s) job (cloneOf (s_obj s))"
  let ?src = "cloneSource (s_obj s)"
  let ?s0 = "s\<lparr>s_obj := (s_obj s)\<lparr>b_Status := (b_Status (s_obj s))\<lparr>st_Clone := Some ?c,
      st_Conditions := setCondition (condition ConditionCloneCompleted True ReasonCloned
        (''cloned '' @ cf_Bucket ?src @ '' from '' @ EndpointHost ?src)) (st_Conditions (b_Status (s_obj s)))\<rparr>\<rparr>\<rparr>"
  obtain e s1 where u: "updateStatus r ?s0 = (e, s1)" by fastforce
  have "CloneCompleted (s_obj ?s0)" by (simp add: CloneCompleted_def completed_def)
  from store_completed [OF this u, of ?G "\<lambda>_. True"] 1(1)
  have d: "disc ?G (\<lambda>H. e = None \<longrightarrow> completionStored H) s1"
    by (simp add: disc_def cloneDiscipline_def lasting_def)
  show ?case
  proof (cases e)
    case (Some err)
    have "valid (disc ?G (\<lambda>_. True)) (fail r (wrapf ''persist clone completion: '' err)) (\<lambda>_. disc ?G (\<lambda>_. True))"
      by (rule disc_only, (intro lasting_rules)[1], (intro only_rules; simp add: cloneDiscipline_def)[1])
    with d Some 1(2) u show ?thesis by (auto simp: completeClone_def exec Let_def disc_def valid_def)
  next
    case None
    have "valid (disc ?G completionStored) (deleteCloneArtifacts r (s_obj s1) True) (\<lambda>_. disc ?G completionStored)"
      by (rule disc_only, (intro lasting_rules)[1], (intro only_rules; auto simp: cloneDiscipline_def)[1])
    with d None 1(2) u show ?thesis by (auto simp: completeClone_def exec Let_def disc_def valid_def)
  qed
qed

lemma deleteFailed_disc:
  "valid (disc (cloneDiscipline r) (\<lambda>H. KGetJob (r_AdminSecretNamespace r) (cloneJobName b) True \<in> H))
     (deleteCloneArtifacts r b False)
     (\<lambda>_. disc (cloneDiscipline r) (\<lambda>_. True))"
  by (rule disc_only, (intro lasting_rules)[1], (intro only_rules; auto simp: cloneDiscipline_def)[1], simp)

lemma endsWith_disc:
  "lasting K \<Longrightarrow> (\<And>b y H. K H \<Longrightarrow> G (KUpdateStatus b y) H) \<Longrightarrow>
    valid (disc G K) (endsWith (fail r e)) (\<lambda>x. disc G (\<lambda>H. fst x \<longrightarrow> completionStored H))"
  unfolding endsWith_def by (rule disc_after, assumption, (intro only_rules; simp)[1], rule disc_end, simp)

lemma driveJob_disc:
  "valid (disc (cloneDiscipline r) (\<lambda>_. True)) (driveJob r c src name u pw)
     (\<lambda>x. disc (cloneDiscipline r) (\<lambda>H. fst x \<longrightarrow> completionStored H))"
proof -
  let ?G = "cloneDiscipline r" and ?ns = "r_AdminSecretNamespace r"
  note D = cloneDiscipline_def
  have job: "KGetJob ?ns (cloneJobName b) False \<in> H \<Longrightarrow>
      ?G (KCreateJob (buildCloneJob r c b name u (cloneJobName b) n) y) H" for b n y H
    by (simp add: D buildCloneJob_def Let_def)
  show ?thesis unfolding driveJob_def
    apply (rule valid_readsI)
    apply (intro valid_let)
    apply (rule disc_check [where E = "\<lambda>x H. KGetJob ?ns (cloneJobName (s_obj s)) (isOk x) \<in> H" for s])
        apply (intro lasting_rules)
       apply (intro only_callOut, simp add: D)
      apply (auto simp: exec)[1]
     apply (intro valid_if valid_let)
      apply (rule disc_then)
         apply (intro lasting_rules)
        apply (intro only_callOut, simp add: job)
       apply (rule endsWith_disc, (intro lasting_rules)[1], simp add: D)
      apply (rule disc_after, (intro lasting_rules)[1], (intro only_rules)[1])
      apply (rule disc_after, (intro lasting_rules)[1], (intro only_rules; simp add: D)[1])
      apply (rule disc_end, simp)
     apply (rule endsWith_disc, (intro lasting_rules)[1], simp add: D)
    apply (intro valid_prod valid_if)
      apply (rule disc_weaken [OF completeClone_disc], simp)
     apply (rule valid_after)
      apply (rule disc_weaken [OF deleteFailed_disc], simp)
     apply (rule disc_after, (intro lasting_rules)[1], (intro only_rules)[1])
     apply (rule endsWith_disc, (intro lasting_rules)[1], simp add: D)
    apply (rule disc_after, (intro lasting_rules)[1], (intro only_rules; simp add: D)[1])
    apply (rule disc_after, (intro lasting_rules)[1], (intro only_rules; simp add: D)[1])
    apply (rule disc_end, simp)
    done
qed

lemma ensureClone_disc:
  "valid (disc (cloneDiscipline r) (\<lambda>_. True)) (ensureClone r c name u)
     (\<lambda>x. disc (cloneDiscipline r) (\<lambda>H. fst x \<longrightarrow> completionStored H))"
  unfolding ensureClone_def
  apply (rule valid_readsI)
  apply (intro valid_let)
  apply (rule disc_then, (intro lasting_rules)[1], (intro only_rules; simp add: cloneDiscipline_def)[1])
   apply (rule endsWith_disc, (intro lasting_rules)[1], simp add: cloneDiscipline_def)
  apply (intro valid_prod)
  apply (rule disc_after, (intro lasting_rules)[1], (intro only_rules)[1])
  apply (rule disc_then, (intro lasting_rules)[1], (intro only_rules; simp add: cloneDiscipline_def)[1])
   apply (rule endsWith_disc, (intro lasting_rules)[1], simp add: cloneDiscipline_def)
  apply (rule disc_then, (intro lasting_rules)[1], (intro only_rules; auto simp: cloneDiscipline_def)[1])
   apply (rule endsWith_disc, (intro lasting_rules)[1], simp add: cloneDiscipline_def)
  apply (rule driveJob_disc)
  done

section \<open>Properties\<close>


definition cloningBucket :: Bucket where
  "cloningBucket = sampleBucket\<lparr>b_Spec := (b_Spec sampleBucket)\<lparr>sp_CloneFrom := Some
     \<lparr>cf_Endpoint = ''s3.src'', cf_Bucket = ''old'', cf_Region = [], cf_AddressingStyle = [],
      cf_SecretRef = \<lparr>csr_Name = ''src'', csr_Keys = \<lparr>csk_AccessKeyID = [], csk_SecretAccessKey = []\<rparr>\<rparr>,
      cf_HoldSecretUntilCloned = None\<rparr>\<rparr>,
    b_Status := zeroStatus\<lparr>st_Clone := Some (zeroClone\<lparr>cl_TotalBytes := 7\<rparr>)\<rparr>\<rparr>"

definition cloneWorld :: fworld where
  "cloneWorld = emptyWorld\<lparr>fw_crs := [cloningBucket],
     fw_secrets := [((''team'', ''src''), zeroSecret\<lparr>sec_Data := [(''AWS_ACCESS_KEY_ID'', ''a''), (''AWS_SECRET_ACCESS_KEY'', ''s'')]\<rparr>)]\<rparr>"


lemma unitLoop_range:
  "1024 ^ Suc e = d \<Longrightarrow> case unitLoop m d e of (d', e') \<Rightarrow> d' = 1024 ^ Suc e' \<and> e \<le> e' \<and> m div 1024 ^ (e' - e) < 1024 \<and>
     (e < e' \<longrightarrow> 1 \<le> m div 1024 ^ (e' - e))"
proof (induction m d e rule: unitLoop.induct)
  case (1 m d e)
  show ?case
  proof (cases "m < 1024")
    case True
    with 1 show ?thesis by (simp add: unitLoop.simps)
  next
    case False
    obtain d' e' where u: "unitLoop (m div 1024) (d * 1024) (e + 1) = (d', e')" by fastforce
    with 1 False have ih: "d' = 1024 ^ Suc e'" "e + 1 \<le> e'" "m div 1024 div 1024 ^ (e' - (e + 1)) < 1024"
      "e + 1 < e' \<longrightarrow> 1 \<le> m div 1024 div 1024 ^ (e' - (e + 1))" by auto
    from ih(2) have "m div 1024 div 1024 ^ (e' - (e + 1)) = m div 1024 ^ (e' - e)"
      by (metis Suc_diff_Suc Suc_eq_plus1 Suc_le_lessD div_mult2_eq power_Suc)
    with ih u False show ?thesis by (subst unitLoop.simps) (cases "e' = e + 1"; simp)
  qed
qed

text \<open>The size display never reads past its unit table. For every size an \<open>int64\<close> can hold the
  loop ends with the unit \<open>1024 ^ (e + 1)\<close> the size belongs to and an index into \<open>KMGTPE\<close>.\<close>

lemma humanBytes_unit:
  assumes "1024 \<le> n" and "n < 2 ^ 63"
  shows "case unitLoop (nat n div 1024) 1024 0 of (d, e) \<Rightarrow>
    e < length ''KMGTPE'' \<and> d = 1024 ^ Suc e \<and> int d \<le> n \<and> n < 1024 * int d"
proof -
  obtain d e where u: "unitLoop (nat n div 1024) 1024 0 = (d, e)" by fastforce
  with unitLoop_range [of 0 1024 "nat n div 1024"] have r: "d = 1024 ^ Suc e" "nat n div 1024 div 1024 ^ e < 1024"
    "0 < e \<longrightarrow> 1 \<le> nat n div 1024 div 1024 ^ e" by auto
  have q: "nat n div 1024 div 1024 ^ e = nat n div d" by (simp add: r(1) div_mult2_eq)
  have "0 < d" using r(1) by simp
  from assms r q have "1 \<le> nat n div d" by (cases e) auto
  then have le: "d \<le> nat n" by (metis One_nat_def Suc_le_eq div_less linorder_not_less not_one_le_zero)
  have "nat n < 1024 * d" using r(2) q \<open>0 < d\<close> by (simp add: less_mult_imp_div_less div_less_iff_less_mult mult.commute)
  moreover have "e < 6"
  proof (rule ccontr)
    assume "\<not> e < 6"
    then have "(1024::nat) ^ 7 \<le> d" unfolding r(1) by (intro power_increasing) auto
    with le assms(2) show False by simp
  qed
  moreover have "int d \<le> n" "n < 1024 * int d" using le \<open>nat n < 1024 * d\<close> assms(1) by linarith+
  ultimately show ?thesis using u r(1) by simp
qed

text \<open>The names of a clone's objects fit. The Job name has at most 52 characters and the staging
  Secret's at most 56, so both are valid label values, for every namespace and name.\<close>

lemma clone_names_fit:
  "length (cloneJobName b) \<le> 52 \<and> length (cloneStagingSecretName b) \<le> 56"
proof -
  have "length (cloneJobName b) \<le> 52"
    unfolding cloneJobName_def by (rule truncatedName_length) (simp add: shortHash_def)
  then show ?thesis by (simp add: cloneStagingSecretName_def)
qed

text \<open>The rc password of a staged clone is stable: a staging Secret that has one keeps it, and
  the source credentials in it are the current ones.\<close>

lemma staging_password_stable:
  "case stageSecret ak sk pass sec of
     Inl e \<Rightarrow> mget (sec_Data sec) cloneSecretKeyRcPassword = [] \<and> \<not> isOk pass
   | Inr sec' \<Rightarrow> mget (sec_Data sec') cloneSecretKeyAccessKeyID = ak \<and> mget (sec_Data sec') cloneSecretKeySecretAccessKey = sk \<and>
      (if mget (sec_Data sec) cloneSecretKeyRcPassword = [] then pass = Inr (mget (sec_Data sec') cloneSecretKeyRcPassword)
       else mget (sec_Data sec') cloneSecretKeyRcPassword = mget (sec_Data sec) cloneSecretKeyRcPassword)"
  by (cases pass; cases "mget (sec_Data sec) cloneSecretKeyRcPassword")
    (auto simp: stageSecret_def putData_def putLabels_def Let_def cloneSecretKeyAccessKeyID_def
      cloneSecretKeySecretAccessKey_def cloneSecretKeyRcPassword_def)

lemma half_byte: "of_char (c::char) div 16 < (16::nat)"
  using nat_of_char_less_256 [of c] by (intro less_mult_imp_div_less) simp

lemma hexDigit_inj: "a < 16 \<Longrightarrow> b < 16 \<Longrightarrow> hexDigit a = hexDigit b \<Longrightarrow> a = b"
  by (metis hexVal_hexDigit option.inject)

text \<open>The rc password is 32 hexadecimal digits and keeps all of the entropy drawn for it.\<close>

lemma hexEncoded_inj: "hexEncoded xs = hexEncoded ys \<Longrightarrow> xs = ys"
proof (induction xs arbitrary: ys)
  case (Cons x xs)
  then obtain y ys' where ys: "ys = y # ys'" by (cases ys) (auto simp: hexEncoded_def)
  from Cons.prems ys have "of_char x div 16 = (of_char y div 16 :: nat)" "of_char x mod 16 = (of_char y mod 16 :: nat)"
    by (intro hexDigit_inj; simp add: hexEncoded_def half_byte)+
  then have "of_char x = (of_char y :: nat)" by (metis div_mult_mod_eq)
  with Cons ys show ?case by (simp add: hexEncoded_def)
qed (simp add: hexEncoded_def)

lemma randomHex32_password:
  assumes "sys_RandRead y 16 w = (Inr buf, w')" and "length buf = 16"
  shows "\<exists>p. randomHex32 y w = (Inr p, w') \<and> length p = 32 \<and> list_all (\<lambda>c. hexVal c \<noteq> None) p"
proof -
  have "length (hexEncoded bs) = 2 * length bs" "list_all (\<lambda>c. hexVal c \<noteq> None) (hexEncoded bs)" for bs
    by (induction bs) (simp_all add: hexEncoded_def hexVal_hexDigit half_byte)
  with assms show ?thesis by (simp add: randomHex32_def)
qed

end
