(* ===== verification/Provision.thy ===== *)
theory Provision
  imports Clone
begin

text \<open>
  One provisioning pass, \<open>internal/controller/bucket_controller.go\<close>: \<open>guardBucketPresent\<close>,
  \<open>provisionCredentialsAndClone\<close>, \<open>reportPass\<close> and \<open>reconcileNormal\<close>.

  A step that may end the pass (\<open>done = false\<close> in the code) is a fallible handler whose error is the
  result the pass returns. \<open>changes\<close>, which the code appends to through a pointer, is threaded.
\<close>

section \<open>Definitions\<close>

definition note_change :: "bool \<Rightarrow> string \<Rightarrow> string list \<Rightarrow> string list" where
  "note_change did what c = (if did then c @ [what] else c)"

record workloadCreds =
  wc_gid :: string
  wc_urn :: string
  wc_accessKeyID :: string
  wc_grantedTo :: "string list"

definition objKey :: "Bucket \<Rightarrow> string \<times> string" where
  "objKey b = (b_Namespace b, b_Name b)"

definition reportPass :: "'w reconciler \<Rightarrow> string list \<Rightarrow> ('w st, unit) handler" where
  "reportPass r changes =
     andDo (sets (\<lambda>s. if objKey (s_obj s) \<in> set (s_verified s) then s else s\<lparr>s_verified := objKey (s_obj s) # s_verified s\<rparr>))
       (if changes \<noteq> []
        then raise r False ReasonProvisioned (''bucket and isolated workload credentials provisioned: '' @ joinStr '', '' changes)
        else finish ())"

definition stops :: "('w st, Result) handler \<Rightarrow> ('w st, Result, 'a) fallible" where
  "stops m = after m fault"

definition missingBucket :: "string \<Rightarrow> go_error" where
  "missingBucket name = Msg (''bucket '' @ quoted name @
     '' was provisioned for this Bucket but the provider reports it as gone; refusing to re-create it, '' @
     ''because that would hand the workload an empty bucket under the same name. Its contents are lost: '' @
     ''delete and re-apply this Bucket to provision a fresh one, or set spec.allowRecreate if its content is regenerable'')"

definition guardBucketPresent :: "'w reconciler \<Rightarrow> 'w client \<Rightarrow> string \<Rightarrow> ('w st, Result, bool) fallible" where
  "guardBucketPresent r c name = reads (\<lambda>s.
     if st_ResolvedBucketName (b_Status (s_obj s)) = [] then ret False
     else check (BucketExists c name)
       (\<lambda>err. stops (fail r (wrapf (''verify bucket '' @ quoted name @ '' still exists: '') err)))
       (\<lambda>exists.
          if exists then ret False
          else if sp_AllowRecreate (b_Spec (s_obj s)) then ret True
          else let missing = missingBucket name in
            andDo (modStatus (\<lambda>t. (clearDegraded t)\<lparr>st_Conditions := setCondition (condition ConditionBucketPresent False
                ReasonBucketMissing (errText missing)) (st_Conditions (clearDegraded t))\<rparr>))
              (andDo (markFailedReason r ReasonBucketMissing missing)
                (fault (0, Some missing)))))"

definition reportAuthorizedRecreate :: "'w reconciler \<Rightarrow> string \<Rightarrow> ('w st, unit) handler" where
  "reportAuthorizedRecreate r name = reads (\<lambda>s.
     andDo (sets (\<lambda>s. s\<lparr>s_recreations := objKey (s_obj s) # s_recreations s\<rparr>))
       (raise r True ReasonBucketRecreated (''bucket '' @ quoted name @
          '' was gone and has been re-created empty because spec.allowRecreate is set; its previous contents are lost, '' @
          ''the workload credentials Secret is being replaced (restart consumers so they re-read it) '' @
          ''and the previous credentials group '' @ st_CredentialsGroupID (b_Status (s_obj s)) @ '' is left behind for manual cleanup'')))"

text \<open>The closure \<open>applyPolicy\<close>: the granted readers are recorded beside the write that makes it true.\<close>

definition applyPolicy :: "'w reconciler \<Rightarrow> 'w client \<Rightarrow> string \<Rightarrow> adminCreds \<Rightarrow> string \<Rightarrow> string list \<times> string list
    \<Rightarrow> string list \<Rightarrow> ('w st, Result, string list) fallible" where
  "applyPolicy r c name admin urn rg changes =
     andDo (modStatus (\<lambda>t. t\<lparr>st_GrantedReadTo := snd rg\<rparr>))
       (check (ensureBucketPolicy r c name admin urn (fst rg))
          (\<lambda>err. stops (fail r (wrapf ''ensure bucket policy: '' err)))
          (\<lambda>written. ret (note_change written ''isolation policy written'' changes)))"

definition issueCredentials :: "'w reconciler \<Rightarrow> 'w client \<Rightarrow> string \<Rightarrow> string \<Rightarrow> string \<Rightarrow> string list
    \<Rightarrow> ('w st, Result, string \<times> string list) fallible" where
  "issueCredentials r c gid host burl changes =
     check (ensureAccessKeyAndSecret r c gid host burl)
       (\<lambda>err. stops (fail r (wrapf ''ensure workload credentials: '' err)))
       (\<lambda>(kid, issued). ret (kid, note_change issued ''workload credentials issued'' changes))"

text \<open>The part that runs while a clone is pending: the access key up front when the Secret is not
  held back, the copy, and the policy again, now with the granted readers.\<close>

definition cloneStep :: "'w reconciler \<Rightarrow> 'w client \<Rightarrow> string \<Rightarrow> adminCreds \<Rightarrow> string \<Rightarrow> string \<Rightarrow> string \<Rightarrow> string
    \<Rightarrow> string list \<times> string list \<Rightarrow> string list \<Rightarrow> ('w st, Result, string \<times> string list) fallible" where
  "cloneStep r c name admin gid urn host burl rg changes = reads (\<lambda>s.
     andThen (if HoldSecret (sp_CloneFrom (b_Spec (s_obj s))) then ret ([], changes)
              else andThen (issueCredentials r c gid host burl changes) (\<lambda>kc.
                andDo (recordPendingRotation r) (ret kc)))
       (\<lambda>(kid, changes).
          after (ensureClone r c name (endpointURLFromBucketURL burl name)) (\<lambda>(done, res).
            if \<not> done then fault res
            else andThen (applyPolicy r c name admin urn rg (note_change True ''clone completed'' changes))
              (\<lambda>changes. ret (kid, changes)))))"

definition provisionCredentialsAndClone :: "'w reconciler \<Rightarrow> 'w client \<Rightarrow> string \<Rightarrow> adminCreds \<Rightarrow> string \<Rightarrow> string \<Rightarrow> bool
    \<Rightarrow> string list \<Rightarrow> ('w st, Result, workloadCreds \<times> string list) fallible" where
  "provisionCredentialsAndClone r c name admin host burl freshBucket changes =
     check (listGroups c) (\<lambda>err. stops (fail r (wrapf ''list credentials groups: '' err))) (\<lambda>groups. reads (\<lambda>s.
     check (resolveWorkloadGroup r c (s_obj s) name admin groups True freshBucket)
       (\<lambda>err. stops (fail r (wrapf ''ensure credentials group: '' err))) (\<lambda>(group, attributed).
     let gid = wg_id group; urn = wg_urn group; changes = note_change attributed ''credentials group attributed'' changes in
     andDo (modStatus (\<lambda>t. t\<lparr>st_CredentialsGroupID := gid, st_CredentialsGroupURN := urn\<rparr>)) (reads (\<lambda>s.
     check (resolveReadGrants r c (s_obj s) admin groups)
       (\<lambda>err. stops (fail r (wrapf ''resolve read grants: '' err))) (\<lambda>rg. reads (\<lambda>s.
     let cloning = ClonePending (s_obj s) in
     andThen (applyPolicy r c name admin urn (if cloning then ([], []) else rg) changes) (\<lambda>changes. reads (\<lambda>s.
     case validateCloneSource (s_obj s) name host of
       Some verr \<Rightarrow> stops (failNoRequeue r verr)
     | None \<Rightarrow>
         andThen (if cloning then cloneStep r c name admin gid urn host burl rg changes else ret ([], changes)) (\<lambda>(kid, changes).
         andThen (if kid = [] then issueCredentials r c gid host burl changes else ret (kid, changes)) (\<lambda>(kid, changes).
           ret (\<lparr>wc_gid = gid, wc_urn = urn, wc_accessKeyID = kid, wc_grantedTo = snd rg\<rparr>, changes))))))))))))"

text \<open>The status of a successful pass.\<close>

definition readyStatus :: "'w reconciler \<Rightarrow> string \<Rightarrow> string \<Rightarrow> workloadCreds \<Rightarrow> int \<Rightarrow> Bucket \<Rightarrow> BucketStatus" where
  "readyStatus r name burl creds now b =
     (let msg = ''bucket '' @ quoted name @ '' provisioned with isolated workload credentials'';
          t = clearDegraded ((b_Status b)\<lparr>st_ResolvedBucketName := name, st_BucketURL := burl,
            st_CredentialsGroupID := wc_gid creds, st_CredentialsGroupURN := wc_urn creds,
            st_AccessKeyID := wc_accessKeyID creds, st_GrantedReadTo := wc_grantedTo creds,
            st_ObservedGeneration := b_Generation b, st_OperatorVersion := r_OperatorVersion r, st_Phase := PhaseReady,
            st_Message := msg, st_LastVerifiedTime := Some now\<rparr>)
      in t\<lparr>st_Conditions := setCondition (condition ConditionReady True ReasonProvisioned msg)
            (removeCondition ConditionBucketPresent (st_Conditions t))\<rparr>)"

definition finishPass :: "'w reconciler \<Rightarrow> string \<Rightarrow> string \<Rightarrow> workloadCreds \<Rightarrow> string list \<Rightarrow> ('w st, Result, Result) fallible" where
  "finishPass r name burl creds changes =
     andDo (recordPendingRotation r) (reads (\<lambda>s.
     andDo (modObj (\<lambda>b. b\<lparr>b_Status := readyStatus r name burl creds (clock (r_sys r) s) b\<rparr>))
       (after (updateStatus r) (\<lambda>err. case err of
          Some e \<Rightarrow> fault (0, ignoreNotFound (Some e))
        | None \<Rightarrow> andDo breakerSuccess (andDo (reportPass r changes) (ret (r_DriftResyncInterval r, None)))))))"

text \<open>The pass from the frozen name on: admin credential, service, presence guard, bucket,
  connection, credentials.\<close>

definition provisionBucket :: "'w reconciler \<Rightarrow> 'w client \<Rightarrow> string \<Rightarrow> string list \<Rightarrow> ('w st, Result, Result) fallible" where
  "provisionBucket r c name changes =
     check (ensureAdmin r c) (\<lambda>err. stops (fail r (wrapf ''bootstrap admin credentials: '' err))) (\<lambda>admin.
     check (EnsureService c) (\<lambda>err. stops (fail r (wrapf ''enable object storage: '' err))) (\<lambda>_.
     andThen (guardBucketPresent r c name) (\<lambda>recreating. reads (\<lambda>s.
     check (ensureBucket r c (s_obj s) name admin) (\<lambda>err. stops (failEnsureBucket r err)) (\<lambda>freshBucket.
     let changes = note_change freshBucket ''bucket created'' changes in
     andDo (if recreating \<and> freshBucket then reportAuthorizedRecreate r name else finish ())
     (check (BucketConnInfo c name) (\<lambda>err. stops (fail r (wrapf ''bucket connection info: '' err))) (\<lambda>(host, burl).
      andThen (provisionCredentialsAndClone r c name admin host burl freshBucket changes) (\<lambda>(creds, changes).
        finishPass r name burl creds changes))))))))"

definition reconcileNormal :: "'w reconciler \<Rightarrow> 'w client \<Rightarrow> ('w st, Result) handler" where
  "reconcileNormal r c = reads (\<lambda>s.
     case specGuardError r c (s_obj s) of Some err \<Rightarrow> failNoRequeue r err
     | None \<Rightarrow>
         (case decideBucketName (r_Naming r) (s_obj s) of (name, fresh) \<Rightarrow>
            case (if fresh then ValidateBucketName name else None) of
              Some err \<Rightarrow> failNoRequeue r (wrapf ''composed bucket name is invalid: '' err)
            | None \<Rightarrow>
                after (persistResolvedName r name) (\<lambda>perr. case perr of
                  Some err \<Rightarrow> fail r (wrapf ''persist resolved bucket name: '' err)
                | None \<Rightarrow> reads (\<lambda>s.
                    let b = s_obj s; changes = note_change (recovering b) ''recovered to Ready''
                          (note_change (st_ObservedGeneration (b_Status b) \<noteq> b_Generation b)
                            (''spec generation '' @ showInt (b_Generation b) @ '' observed'') [])
                    in andDo (markProvisioning r)
                      (check (provisionBucket r c name changes) finish finish)))))"

section \<open>The object of the pass\<close>

definition onObj :: "Bucket \<Rightarrow> 'w st \<Rightarrow> bool" where
  "onObj b s \<longleftrightarrow> s_obj s = b"

definition aboutObj :: "('w st \<Rightarrow> bool) \<Rightarrow> bool" where
  "aboutObj I \<longleftrightarrow> (\<forall>s s'. s_obj s' = s_obj s \<longrightarrow> I s \<longrightarrow> I s')"

lemma aboutObjD: "aboutObj I \<Longrightarrow> I s \<Longrightarrow> s_obj s' = s_obj s \<Longrightarrow> I s'"
  by (simp add: aboutObj_def)

lemma aboutObj_stable [simp]: "aboutObj I \<Longrightarrow> ext_stable I"
  by (auto simp: ext_stable_def elim: aboutObjD)

lemma aboutObj_onObj [simp]: "aboutObj (onObj b)"
  by (simp add: aboutObj_def onObj_def)

lemma ext_stable_onObj [simp]: "ext_stable (onObj b)"
  by simp

lemma onObjD: "onObj b s \<Longrightarrow> s_obj s = b"
  by (simp add: onObj_def)

lemma keeps_same: "aboutObj I \<Longrightarrow> (\<And>s. s_obj (f s) = s_obj s) \<Longrightarrow> keeps I (sets f)"
  by (rule keeps_sets) (simp add: aboutObj_def)

lemma keeps_raise [keeps_rules]: "aboutObj I \<Longrightarrow> keeps I (raise r w x y)"
  unfolding raise_def by (intro keeps_rules keeps_same) simp_all

lemma keeps_ensureAdmin: "aboutObj I \<Longrightarrow> keeps I (ensureAdmin r c)"
  unfolding ensureAdmin_def bootstrapAdmin_def writeAdminSecret_def getSecret_def createOrUpdate_def
  by (intro keeps_rules aboutObj_stable keeps_same) simp_all

lemma keeps_newS3Admin [keeps_rules]: "aboutObj I \<Longrightarrow> keeps I (newS3Admin r c n admin)"
  unfolding newS3Admin_def by (intro keeps_rules aboutObj_stable)

lemma keeps_ensureBucket: "aboutObj I \<Longrightarrow> keeps I (ensureBucket r c b' n admin)"
  unfolding ensureBucket_def adoptOrCollide_def by (intro keeps_rules aboutObj_stable)

lemma keeps_reportRecreate: "aboutObj I \<Longrightarrow> keeps I (if x then reportAuthorizedRecreate r n else finish ())"
  unfolding reportAuthorizedRecreate_def by (intro keeps_rules keeps_same) simp_all

section \<open>The discipline of a pass\<close>

definition isolated :: "string \<Rightarrow> call set \<Rightarrow> bool" where
  "isolated name H \<longleftrightarrow> (\<exists>u w rs. policySet name (BuildIsolationPolicy name u w rs) H)"

definition mayRecreate :: "Bucket \<Rightarrow> string \<Rightarrow> call set \<Rightarrow> bool" where
  "mayRecreate b name H \<longleftrightarrow> st_ResolvedBucketName (b_Status b) = [] \<or> sp_AllowRecreate (b_Spec b) \<or> CGetBucket name None \<in> H"

definition operatorSecret :: "'w reconciler \<Rightarrow> string \<Rightarrow> string \<Rightarrow> bool" where
  "operatorSecret r ns n \<longleftrightarrow> ns = r_AdminSecretNamespace r \<and> (n = r_AdminSecretName r \<or> (\<exists>b. n = cloneStagingSecretName b))"

definition passDiscipline :: "'w reconciler \<Rightarrow> 'w client \<Rightarrow> Bucket \<Rightarrow> string \<Rightarrow> call \<Rightarrow> call set \<Rightarrow> bool" where
  "passDiscipline r c b name x H =
     (case x of
        CCreateBucket n y \<Rightarrow> n = name \<and> (\<exists>ns. CListBuckets (cl_ProjectID c) (Some ns) \<in> H \<and> name \<notin> set ns) \<and> mayRecreate b name H
      | CSetPolicy n p y \<Rightarrow> n = name \<and> ownedSeen r b name H
      | KUpsertSecret ns n y \<Rightarrow> operatorSecret r ns n \<or> isolated name H
      | CDeleteBucket n y \<Rightarrow> False
      | CRemoveObjects n y \<Rightarrow> False
      | KDeleteSecret ns n y \<Rightarrow> operatorSecret r ns n
      | _ \<Rightarrow> True)"

definition readyStored :: "string \<Rightarrow> call set \<Rightarrow> bool" where
  "readyStored name H \<longleftrightarrow> (\<exists>b. KUpdateStatus b True \<in> H \<and> (st_Phase (b_Status b) = PhaseReady \<and>
     isConditionTrue (st_Conditions (b_Status b)) ConditionReady \<and>
     findCondition ConditionBucketPresent (st_Conditions (b_Status b)) = None \<and>
     findCondition ConditionProviderReachable (st_Conditions (b_Status b)) = None \<and>
     st_ResolvedBucketName (b_Status b) = name \<and> st_ObservedGeneration (b_Status b) = b_Generation b))"

definition passOutcome :: "'w reconciler \<Rightarrow> Bucket \<Rightarrow> string \<Rightarrow> Result + 'a \<Rightarrow> call set \<Rightarrow> bool" where
  "passOutcome r b name x H = (case x of Inl res \<Rightarrow> True | Inr y \<Rightarrow> isolated name H \<and> ownedSeen r b name H \<and> readyStored name H)"

lemma lasting_pass [lasting_rules]: "lasting (isolated name)" "lasting (mayRecreate b name)" "lasting (readyStored name)"
  unfolding isolated_def mayRecreate_def readyStored_def by (intro lasting_rules lasting_ex)+

lemma passDiscipline_simple [simp]:
  "isRead x \<Longrightarrow> passDiscipline r c b name x H" "passDiscipline r c b name (KUpdateStatus b' y) H"
  "passDiscipline r c b name (CSetTags n kv y) H" "passDiscipline r c b name (CEnableService y) H"
  "passDiscipline r c b name (KCreateJob j y) H" "passDiscipline r c b name (KDeleteJob ns n y) H"
  "passDiscipline r c b name (KDeleteSecret ns n y) H \<longleftrightarrow> operatorSecret r ns n"
  "passDiscipline r c b name (KUpsertSecret ns n y) H \<longleftrightarrow> operatorSecret r ns n \<or> isolated name H"
  "passDiscipline r c b name (CCreateGroup n cg) H" "passDiscipline r c b name (CDeleteGroup n y) H"
  "passDiscipline r c b name (CCreateKey n ck) H" "passDiscipline r c b name (CDeleteKey n k y) H"
  by (cases x) (simp_all add: passDiscipline_def)

lemma stops_disc:
  assumes "lasting K" and "\<And>A. (\<And>b y. A (KUpdateStatus b y)) \<Longrightarrow> calls_only A m"
    and "\<And>b y H. K H \<Longrightarrow> G (KUpdateStatus b y) H" and "\<And>res H. K H \<Longrightarrow> L (Inl res) H"
  shows "valid (disc G K) (stops m) (\<lambda>x. disc G (L x))"
  unfolding stops_def
proof (rule disc_after [OF assms(1)])
  show "calls_only (\<lambda>c. \<forall>H. K H \<longrightarrow> G c H) m" by (rule assms(2)) (simp add: assms(3))
qed (rule disc_end, rule assms(4))

lemma only_failEnsureBucket [only_rules]: "(\<And>b y. A (KUpdateStatus b y)) \<Longrightarrow> calls_only A (failEnsureBucket r e)"
  unfolding failEnsureBucket_def by (intro only_rules)

lemma BucketExists_seen:
  "BucketExists c n s = (x, s') \<Longrightarrow> (case x of Inl e \<Rightarrow> True | Inr ex \<Rightarrow> ex \<longrightarrow> CGetBucket n None \<in> set (s_calls s'))"
  by (auto simp: BucketExists_def exec split: sum.splits if_splits)

text \<open>The guard lets the pass go on only with the object it read, and only when the bucket may be
  created.\<close>

lemma guard_disc:
  "valid (\<lambda>s. onObj b s \<and> disc (passDiscipline r c b name) (\<lambda>_. True) s) (guardBucketPresent r c name)
     (\<lambda>x s. (case x of Inl res \<Rightarrow> True | Inr y \<Rightarrow> onObj b s) \<and>
        disc (passDiscipline r c b name) (\<lambda>H. case x of Inl res \<Rightarrow> True | Inr y \<Rightarrow> mayRecreate b name H) s)"
  (is "valid ?P _ ?Q")
proof -
  let ?G = "passDiscipline r c b name"
  have stop: "valid (disc ?G K) (stops m) ?Q" if "lasting K" "\<And>A. (\<And>b y. A (KUpdateStatus b y)) \<Longrightarrow> calls_only A m" for K m
    by (rule valid_weaken [OF stops_disc [where L = "\<lambda>x _. case x of Inl res \<Rightarrow> True | Inr y \<Rightarrow> False", OF that]])
      (auto simp: disc_def split: sum.splits)
  have missing: "valid (\<lambda>s. onObj b s \<and> disc ?G K s)
      (andDo (modStatus f) (andDo (markFailedReason r x e) (fault res))) ?Q" if "lasting K" for K f x e res
    by (rule inv_drop, rule disc_after [OF that], (intro only_rules)[1], rule disc_after [OF that],
        (intro only_rules; simp)[1], rule valid_end) (auto simp: disc_def)
  show ?thesis unfolding guardBucketPresent_def
    apply (rule valid_reads_inv)
    apply (drule onObjD, simp only:)
    apply (intro valid_if)
     apply (rule valid_end, simp add: mayRecreate_def onObj_def disc_def)
    apply (rule inv_check [where E = "\<lambda>x H. case x of Inl e \<Rightarrow> True | Inr ex \<Rightarrow> ex \<longrightarrow> CGetBucket name None \<in> H"])
         apply (intro keeps_rules ext_stable_onObj)
        apply (intro lasting_rules)
       apply (intro only_rules, simp)
      apply (rule BucketExists_seen, assumption)
     apply (rule inv_drop, rule stop, (intro lasting_rules)[1], (intro only_rules; assumption)[1])
    apply (intro valid_if valid_let)
      apply (rule valid_end, simp add: mayRecreate_def disc_def)
     apply (rule valid_end, simp add: mayRecreate_def onObj_def disc_def)
    apply (rule missing)
    apply (intro lasting_rules)
    done
qed

lemma ensureBucket_pass:
  "valid (\<lambda>s. onObj b s \<and> disc (passDiscipline r c b name) (mayRecreate b name) s) (ensureBucket r c b name admin)
     (\<lambda>x s. onObj b s \<and> disc (passDiscipline r c b name) (\<lambda>_. True) s)"
proof -
  let ?G = "passDiscipline r c b name"
  have fin: "valid (disc ?G K) m (\<lambda>_. disc ?G (\<lambda>_. True))" if "lasting K" "calls_only (\<lambda>ca. \<forall>H. K H \<longrightarrow> ?G ca H) m"
    for K and m :: "('a st, go_error + bool) handler" by (rule disc_only [OF that]) simp
  have "valid (disc ?G (mayRecreate b name)) (ensureBucket r c b name admin) (\<lambda>_. disc ?G (\<lambda>_. True))"
    unfolding ensureBucket_def
    apply (rule disc_check [where E = "\<lambda>x H. case x of Inl e \<Rightarrow> True
        | Inr ok \<Rightarrow> \<exists>ns. CListBuckets (cl_ProjectID c) (Some ns) \<in> H \<and> ok = (name \<in> set ns)"])
        apply (intro lasting_rules)
       apply (intro only_rules, simp)
      apply (rule HasBucket_seen, assumption)
     apply (rule disc_end, simp)
    apply (intro valid_if)
     apply (rule fin, (intro lasting_rules)[1])
     apply (intro only_rules; simp)
    apply (rule fin, (intro lasting_rules)[1])
    apply (intro only_rules; auto simp: passDiscipline_def)
    done
  from valid_conj [OF this keeps_ensureBucket [OF aboutObj_onObj]] show ?thesis .
qed

text \<open>Policy, credentials and clone, each under the evidence it needs.\<close>

lemma applyPolicy_disc:
  assumes K: "lasting K" and own: "\<And>H. K H \<Longrightarrow> ownedSeen r b name H"
  shows "valid (disc (passDiscipline r c b name) K) (applyPolicy r c name admin urn rg changes)
    (\<lambda>x. disc (passDiscipline r c b name) (\<lambda>H. K H \<and> (case x of Inl res \<Rightarrow> True | Inr y \<Rightarrow> isolated name H)))"
  unfolding applyPolicy_def
  apply (rule disc_after [OF K], (intro only_rules)[1])
  apply (rule disc_check [where E = "\<lambda>x H. case x of Inl e \<Rightarrow> True
      | Inr written \<Rightarrow> policySet name (BuildIsolationPolicy name (ac_urn admin) urn (fst rg)) H", OF K])
     apply (intro only_rules; simp add: passDiscipline_def own)
    apply (rule ensureBucketPolicy_seen, assumption)
   apply (rule stops_disc, (intro lasting_rules K)[1], (intro only_rules; assumption)[1], simp, simp)
  apply (rule disc_end, auto simp: isolated_def)
  done

lemma issueCredentials_disc:
  assumes K: "lasting K" and iso: "\<And>H. K H \<Longrightarrow> isolated name H"
  shows "valid (disc (passDiscipline r c b name) K) (issueCredentials r c gid host burl changes)
    (\<lambda>_. disc (passDiscipline r c b name) K)"
  unfolding issueCredentials_def
  apply (rule disc_then [OF K])
    apply (intro only_rules; simp add: passDiscipline_def iso)
   apply (rule stops_disc [OF K], (intro only_rules; assumption)[1], simp, simp)
  apply (intro valid_prod)
  apply (rule disc_end, simp)
  done

lemma only_ensureClone:
  assumes "\<And>x. isRead x \<Longrightarrow> A x" and "\<And>b y. A (KUpdateStatus b y)" and "\<And>j y. A (KCreateJob j y)"
    and "\<And>ns n y. A (KDeleteJob ns n y)" and "\<And>n y. operatorSecret r (r_AdminSecretNamespace r) n \<Longrightarrow> A (KDeleteSecret (r_AdminSecretNamespace r) n y)"
    and "\<And>n y. operatorSecret r (r_AdminSecretNamespace r) n \<Longrightarrow> A (KUpsertSecret (r_AdminSecretNamespace r) n y)"
  shows "calls_only A (ensureClone r c name u)"
proof -
  have "operatorSecret r (r_AdminSecretNamespace r) (cloneStagingSecretName b)" for b by (auto simp: operatorSecret_def)
  with assms show ?thesis unfolding ensureClone_def by (intro only_rules) simp_all
qed

lemma cloneStep_disc:
  "valid (disc (passDiscipline r c b name) (\<lambda>H. ownedSeen r b name H \<and> isolated name H))
    (cloneStep r c name admin gid urn host burl rg changes)
    (\<lambda>_. disc (passDiscipline r c b name) (\<lambda>H. ownedSeen r b name H \<and> isolated name H))"
proof -
  let ?G = "passDiscipline r c b name" and ?K = "\<lambda>H. ownedSeen r b name H \<and> isolated name H"
  have K: "lasting ?K" by (intro lasting_rules)
  have issue: "valid (disc ?G ?K) (if h then ret ([], changes)
      else andThen (issueCredentials r c gid host burl changes) (\<lambda>kc. andDo (recordPendingRotation r) (ret kc))) (\<lambda>_. disc ?G ?K)" for h
    apply (intro valid_if)
     apply (rule disc_end, simp)
    apply (rule valid_andThen [where R = "\<lambda>_. disc ?G ?K"])
     apply (rule valid_weaken [OF issueCredentials_disc [where b = b and name = name, OF K]], simp_all split: sum.split)
    apply (rule disc_after [OF K], (intro only_rules)[1], rule disc_end, simp)
    done
  show ?thesis unfolding cloneStep_def
    apply (rule valid_readsI)
    apply (rule valid_andThen [where R = "\<lambda>_. disc ?G ?K"])
     apply (rule valid_weaken [OF issue], simp, simp split: sum.split)
    apply (intro valid_prod)
    apply (rule disc_after [OF K])
     apply (rule only_ensureClone; simp)
    apply (intro valid_prod valid_if)
     apply (rule disc_end, simp)
    apply (rule valid_andThen [where R = "\<lambda>_. disc ?G ?K"])
     apply (rule valid_weaken [OF applyPolicy_disc [where b = b, OF K]], simp, simp, simp add: disc_def split: sum.split)
    apply (rule disc_end, simp)
    done
qed

lemma resolve_pass:
  "calls_only (\<lambda>ca. \<forall>H. K H \<longrightarrow> passDiscipline r c b name ca H) (resolveWorkloadGroup r c b' n admin groups create f)"
  by (rule only_weaken [OF only_resolveWorkloadGroup]) (auto simp: groupCall_def split: call.splits)

lemma resolve_owned:
  "resolveWorkloadGroup r c b name admin groups create f s = (x, s') \<Longrightarrow>
    (case x of Inl e \<Rightarrow> True | Inr y \<Rightarrow> ownedSeen r b name (set (s_calls s')))"
  by (cases x) (auto simp: attributedBy_def ownedSeen_def dest!: resolve_sound)

lemma provision_disc:
  "valid (\<lambda>s. onObj b s \<and> disc (passDiscipline r c b name) (\<lambda>_. True) s)
    (provisionCredentialsAndClone r c name admin host burl fresh changes)
    (\<lambda>x. disc (passDiscipline r c b name) (\<lambda>H. case x of Inl res \<Rightarrow> True | Inr y \<Rightarrow> ownedSeen r b name H \<and> isolated name H))"
  (is "valid ?P _ ?Q")
proof -
  let ?G = "passDiscipline r c b name" and ?K = "\<lambda>H. ownedSeen r b name H \<and> isolated name H"
  have K: "lasting ?K" and O: "lasting (ownedSeen r b name)" by (intro lasting_rules)+
  have stop: "valid (disc ?G L) (stops m) ?Q" if "lasting L" "\<And>A. (\<And>b y. A (KUpdateStatus b y)) \<Longrightarrow> calls_only A m" for L m
    by (rule stops_disc [OF that]) simp_all
  have tail: "valid (disc ?G ?K) (andThen (if cloning then cloneStep r c name admin gid urn host burl rg changes else ret ([], changes)) (\<lambda>(kid, changes).
      andThen (if kid = [] then issueCredentials r c gid host burl changes else ret (kid, changes)) (\<lambda>(kid, changes). ret (f kid, changes)))) ?Q"
    for cloning gid urn rg changes and f :: "string \<Rightarrow> workloadCreds"
    apply (rule valid_andThen [where R = "\<lambda>_. disc ?G ?K"])
     apply (intro valid_if)
      apply (rule valid_weaken [OF cloneStep_disc [where b = b]], simp, simp add: disc_def split: sum.split)
     apply (rule valid_end, simp)
    apply (intro valid_prod)
    apply (rule valid_andThen [where R = "\<lambda>_. disc ?G ?K"])
     apply (intro valid_if)
      apply (rule valid_weaken [OF issueCredentials_disc [where b = b and name = name, OF K]], simp, simp, simp add: disc_def split: sum.split)
     apply (rule valid_end, simp)
    apply (intro valid_prod)
    apply (rule disc_end, simp)
    done
  show ?thesis unfolding provisionCredentialsAndClone_def
    apply (rule inv_then)
        apply (unfold listGroups_def, intro keeps_rules ext_stable_onObj)[1]
       apply (intro lasting_rules)
      apply (unfold listGroups_def, intro only_rules, simp)[1]
     apply (rule inv_drop, rule stop, (intro lasting_rules)[1], (intro only_rules; assumption)[1])
    apply (rule valid_reads_inv, drule onObjD, simp only:)
    apply (rule inv_drop)
    apply (rule disc_check [where E = "\<lambda>x H. case x of Inl e \<Rightarrow> True | Inr y \<Rightarrow> ownedSeen r b name H"])
        apply (intro lasting_rules)
       apply (rule resolve_pass)
      apply (rule resolve_owned, assumption)
     apply (rule stop, (intro lasting_rules)[1], (intro only_rules; assumption)[1])
    apply (rule disc_weaken [where K = "ownedSeen r b name"])
     apply (intro valid_prod valid_let)
     apply (rule disc_after [OF O], (intro only_rules)[1])
     apply (rule valid_readsI)
     apply (rule disc_then [OF O])
       apply (rule only_resolveGrants; simp)
      apply (rule stop [OF O], (intro only_rules; assumption)[1])
     apply (rule valid_readsI, intro valid_let)
     apply (rule valid_andThen [where R = "\<lambda>_. disc ?G ?K"])
      apply (rule valid_weaken [OF applyPolicy_disc [where b = b, OF O]], simp, simp, (auto simp: disc_def split: sum.splits)[1])
     apply (rule valid_readsI, intro valid_option)
      apply (rule tail)
     apply (rule stop [OF K], (intro only_rules; assumption)[1])
    apply simp
    done
qed

text \<open>The end of the pass: the status that is stored is a Ready one.\<close>

lemma readyStatus_simps:
  "st_Phase (readyStatus r name burl creds now b) = PhaseReady"
  "isConditionTrue (st_Conditions (readyStatus r name burl creds now b)) ConditionReady"
  "findCondition ConditionBucketPresent (st_Conditions (readyStatus r name burl creds now b)) = None"
  "findCondition ConditionProviderReachable (st_Conditions (readyStatus r name burl creds now b)) = None"
  "st_ResolvedBucketName (readyStatus r name burl creds now b) = name"
  "st_ObservedGeneration (readyStatus r name burl creds now b) = b_Generation b"
  "st_DegradedSince (readyStatus r name burl creds now b) = None"
  by (simp_all add: readyStatus_def Let_def clearDegraded_def isConditionTrue_set findCondition_set findCondition_remove
      condition_def cond_types)

lemma finishPass_seen:
  "finishPass r name burl creds changes s = (x, s') \<Longrightarrow>
    (case x of Inl res \<Rightarrow> True | Inr y \<Rightarrow> readyStored name (set (s_calls s')))"
proof (cases x)
  case (Inr y)
  assume run: "finishPass r name burl creds changes s = (x, s')"
  let ?s1 = "snd (recordPendingRotation r s)"
  let ?s2 = "?s1\<lparr>s_obj := (s_obj ?s1)\<lparr>b_Status := readyStatus r name burl creds (clock (r_sys r) ?s1) (s_obj ?s1)\<rparr>\<rparr>"
  from run Inr have ok: "fst (updateStatus r ?s2) = None" and s': "s' = snd (reportPass r changes (snd (breakerSuccess (snd (updateStatus r ?s2)))))"
    by (auto simp: finishPass_def exec split: option.splits)
  have "isOk (statusAnswer r ?s2)" using ok by (cases "statusAnswer r ?s2") (auto simp: updateStatus_run)
  moreover have "s_calls s' = KUpdateStatus (s_obj ?s2) (isOk (statusAnswer r ?s2)) # s_calls ?s2"
    unfolding s' by (simp add: reportPass_def exec updateStatus_run)
  ultimately have "KUpdateStatus (s_obj ?s2) True \<in> set (s_calls s')" by simp
  then show ?thesis
    unfolding readyStored_def Inr by (intro sum.case [THEN iffD2] exI [of _ "s_obj ?s2"]) (simp add: readyStatus_simps)
qed simp

lemma only_finishPass: "(\<And>b y. A (KUpdateStatus b y)) \<Longrightarrow> calls_only A (finishPass r name burl creds changes)"
  unfolding finishPass_def reportPass_def by (intro only_rules only_sets) simp_all

lemma provisionBucket_disc:
  "valid (\<lambda>s. onObj b s \<and> disc (passDiscipline r c b name) (\<lambda>_. True) s) (provisionBucket r c name changes)
     (\<lambda>x. disc (passDiscipline r c b name) (passOutcome r b name x))"
  (is "valid _ _ ?Q")
proof -
  let ?G = "passDiscipline r c b name"
  have stop: "valid (\<lambda>s. onObj b s \<and> disc ?G L s) (stops m) ?Q"
    if "lasting L" "\<And>A. (\<And>b y. A (KUpdateStatus b y)) \<Longrightarrow> calls_only A m" for L m
    by (rule inv_drop, rule stops_disc [OF that]) (simp_all add: passOutcome_def)
  have fin: "valid (disc ?G (\<lambda>H. ownedSeen r b name H \<and> isolated name H)) (finishPass r name burl creds ch) ?Q" for burl creds ch
    by (rule disc_last [where E = "\<lambda>x H. case x of Inl res \<Rightarrow> True | Inr y \<Rightarrow> readyStored name H"])
      ((intro lasting_rules)[1], (rule only_finishPass, simp)[1], erule finishPass_seen, auto simp: passOutcome_def split: sum.splits)
  have tail: "valid (\<lambda>s. onObj b s \<and> disc ?G (\<lambda>_. True) s) (andThen (provisionCredentialsAndClone r c name admin host burl fresh ch)
      (\<lambda>(creds, ch). finishPass r name burl creds ch)) ?Q" for admin host burl fresh ch
    apply (rule valid_andThen [where R = "\<lambda>_. disc ?G (\<lambda>H. ownedSeen r b name H \<and> isolated name H)"])
     apply (rule valid_weaken [OF provision_disc], simp, simp add: disc_def passOutcome_def split: sum.splits)
    apply (intro valid_prod fin)
    done
  have mid: "valid (\<lambda>s. onObj b s \<and> disc ?G (\<lambda>_. True) s) (andDo (if x then reportAuthorizedRecreate r name else finish ())
      (check (BucketConnInfo c name) (\<lambda>err. stops (fail r (wrapf ''bucket connection info: '' err))) (\<lambda>(host, burl).
        andThen (provisionCredentialsAndClone r c name admin host burl fresh ch) (\<lambda>(creds, ch). finishPass r name burl creds ch)))) ?Q"
    for x admin fresh ch
    apply (rule inv_after [OF keeps_reportRecreate [OF aboutObj_onObj]], (intro lasting_rules)[1])
     apply (unfold reportAuthorizedRecreate_def, (intro only_rules only_sets; simp)[1])
    apply (rule inv_then, (intro keeps_rules ext_stable_onObj)[1], (intro lasting_rules)[1], (intro only_rules; simp)[1])
     apply (rule stop, (intro lasting_rules)[1], (intro only_rules; assumption)[1])
    apply (intro valid_prod tail)
    done
  have ens: "valid (\<lambda>s. onObj b s \<and> disc ?G (mayRecreate b name) s) (check (ensureBucket r c b name admin)
      (\<lambda>err. stops (failEnsureBucket r err)) k) ?Q"
    if "\<And>f. valid (\<lambda>s. onObj b s \<and> disc ?G (\<lambda>_. True) s) (k f) ?Q" for admin k
    unfolding check_as_after
    by (rule valid_after [OF ensureBucket_pass])
      (auto split: sum.split intro!: that stop lasting_rules only_failEnsureBucket)
  show ?thesis unfolding provisionBucket_def
    apply (rule inv_then [OF keeps_ensureAdmin [OF aboutObj_onObj]], (intro lasting_rules)[1])
      apply (rule only_weaken [OF only_ensureAdmin], auto simp: adminCall_def operatorSecret_def split: call.splits)[1]
     apply (rule stop, (intro lasting_rules)[1], (intro only_rules; assumption)[1])
    apply (rule inv_then, rule keeps_EnsureService, simp, simp add: onObj_def, (intro lasting_rules)[1], (intro only_rules; simp)[1])
     apply (rule stop, (intro lasting_rules)[1], (intro only_rules; assumption)[1])
    apply (rule valid_andThen [where R = "\<lambda>_ s. onObj b s \<and> disc ?G (mayRecreate b name) s"])
     apply (rule valid_weaken [OF guard_disc], simp, simp add: disc_def passOutcome_def split: sum.splits)
    apply (rule valid_reads_inv, drule onObjD, simp only:)
    apply (rule ens)
    apply (intro valid_let mid)
    done
qed

section \<open>Properties\<close>


text \<open>A provisioned resource whose bucket the provider no longer has.\<close>

definition vanishedState :: "fworld st" where
  "vanishedState = (fakeState (emptyWorld\<lparr>fw_crs := [readyBucket]\<rparr>) readyBucket)\<lparr>s_admin := Some fakeAdmin\<rparr>"


text \<open>C10: a vanished bucket is reported, not replaced. When the provider itself answers that the bucket
  of a provisioned resource does not exist and re-creation was not authorised, the guard ends the
  pass with the \<open>missing bucket\<close> error after exactly one status write, which is Failed with
  \<open>BucketPresent=False\<close> and reason \<open>BucketMissing\<close>; nothing is created and the breaker is left
  alone.\<close>

theorem vanished_bucket_reported:
  assumes "st_ResolvedBucketName (b_Status (s_obj s)) \<noteq> []" and "\<not> sp_AllowRecreate (b_Spec (s_obj s))"
    and "fst (api_GetBucket (cl_api c) name (s_world s)) = Inl e" and "isStructuredNotFound e"
  shows "fst (guardBucketPresent r c name s) = Inl (0, Some (missingBucket name)) \<and>
    s_breaker (snd (guardBucketPresent r c name s)) = s_breaker s \<and>
    (\<exists>b ok. s_calls (snd (guardBucketPresent r c name s)) = KUpdateStatus b ok # CGetBucket name (Some e) # s_calls s \<and>
       st_Phase (b_Status b) = PhaseFailed \<and> \<not> isConditionTrue (st_Conditions (b_Status b)) ConditionReady \<and>
       findCondition ConditionBucketPresent (st_Conditions (b_Status b)) =
         Some (condition ConditionBucketPresent False ReasonBucketMissing (errText (missingBucket name))) \<and>
       st_DegradedSince (b_Status b) = None)"
proof -
  let ?s1 = "s\<lparr>s_world := snd (api_GetBucket (cl_api c) name (s_world s)), s_calls := CGetBucket name (Some e) # s_calls s\<rparr>"
  let ?s2 = "?s1\<lparr>s_obj := (s_obj s)\<lparr>b_Status := (clearDegraded (b_Status (s_obj s)))\<lparr>st_Conditions := setCondition
      (condition ConditionBucketPresent False ReasonBucketMissing (errText (missingBucket name)))
      (st_Conditions (clearDegraded (b_Status (s_obj s))))\<rparr>\<rparr>\<rparr>"
  have run: "guardBucketPresent r c name s =
      (Inl (0, Some (missingBucket name)), snd (markFailedReason r ReasonBucketMissing (missingBucket name) ?s2))"
    using assms by (simp add: guardBucketPresent_def BucketExists_def exec Let_def)
  obtain ok where "s_calls (snd (markFailedReason r ReasonBucketMissing (missingBucket name) ?s2)) =
      KUpdateStatus (failedStatus r ReasonBucketMissing (missingBucket name) (s_obj ?s2)) ok # s_calls ?s2"
    using markFailedReason_run(1) by blast
  then show ?thesis unfolding run
    by (auto simp: markFailedReason_run failedStatus_simps clearDegraded_def)
      (simp add: failedStatus_def findCondition_set condition_def cond_types)
qed

theorem vanished_bucket_reported_witness:
  "fst (guardBucketPresent fakeReconciler (fakeClient ''proj'' ''eu01'') ''c1-team-data'' vanishedState) =
     Inl (0, Some (missingBucket ''c1-team-data''))"
proof -
  have "st_ResolvedBucketName (b_Status (s_obj vanishedState)) \<noteq> []" "\<not> sp_AllowRecreate (b_Spec (s_obj vanishedState))" by code_simp+
  moreover have "\<exists>e. fst (api_GetBucket (cl_api (fakeClient ''proj'' ''eu01'')) ''c1-team-data'' (s_world vanishedState)) = Inl e \<and>
      isStructuredNotFound e"
    by (simp add: vanishedState_def fakeState_def emptyWorld_def fakeClient_def fakeAPI_def onCloud_def getBucket_def NewServer_def
        serve_def cpFail_def failFor_def countCall_def apiError_answer isStructuredNotFound_def)
  ultimately show ?thesis using vanished_bucket_reported by blast
qed

text \<open>C27: an invalid resource reaches nothing. When the Secret keys are invalid, the Secret is the
  operator's own, the region is another one, or a freshly composed name is not a valid bucket name,
  the pass writes one Failed status and ends without error and without a retry; no provider call is
  made, the annotation is not written and the breaker is left alone.\<close>

theorem invalid_spec_reaches_nothing:
  assumes "specGuardError r c (s_obj s) \<noteq> None \<or>
    (\<exists>n. decideBucketName (r_Naming r) (s_obj s) = (n, True) \<and> ValidateBucketName n \<noteq> None)"
  shows "fst (reconcileNormal r c s) = (0, None) \<and> s_breaker (snd (reconcileNormal r c s)) = s_breaker s \<and>
    (\<exists>b ok. s_calls (snd (reconcileNormal r c s)) = KUpdateStatus b ok # s_calls s \<and>
       st_Phase (b_Status b) = PhaseFailed \<and> \<not> isConditionTrue (st_Conditions (b_Status b)) ConditionReady)"
proof -
  obtain err where run: "reconcileNormal r c s = failNoRequeue r err s"
  proof (cases "specGuardError r c (s_obj s)")
    case None
    with assms obtain n e where "decideBucketName (r_Naming r) (s_obj s) = (n, True)" "ValidateBucketName n = Some e" by auto
    with None that show ?thesis by (simp add: reconcileNormal_def exec)
  next
    case (Some e)
    with that show ?thesis by (simp add: reconcileNormal_def exec)
  qed
  obtain ok where "s_calls (snd (markFailedReason r ReasonFailed err s)) =
      KUpdateStatus (failedStatus r ReasonFailed err (s_obj s)) ok # s_calls s"
    using markFailedReason_run(1) by blast
  then show ?thesis unfolding run
    by (auto simp: failNoRequeue_def markFailed_def exec markFailedReason_run failedStatus_simps)
qed

theorem invalid_spec_reaches_nothing_witness:
  "fst (reconcileNormal fakeReconciler (fakeClient ''proj'' ''eu02'') (fakeState emptyWorld sampleBucket)) = (0, None)"
proof -
  have "specGuardError fakeReconciler (fakeClient ''proj'' ''eu02'') (s_obj (fakeState emptyWorld sampleBucket)) \<noteq> None" by code_simp
  then show ?thesis using invalid_spec_reaches_nothing by blast
qed

end
