(* ===== verification/Teardown.thy ===== *)
theory Teardown
  imports Provision
begin

text \<open>
  The release of a Bucket under deletion, \<open>internal/controller/bucket_controller.go\<close>:
  \<open>teardown\<close> with its data-loss guard, the ownership guard and the release of the workload group,
  and \<open>reconcileDelete\<close> with the finalizer.

  \<open>b\<close> is a pointer in the code and \<open>wipeBucket\<close> updates it with what the API server stored, so
  every operation reads the object of the pass where the code dereferences \<open>b\<close>; \<open>name\<close> is computed
  once.
\<close>

section \<open>Definitions\<close>

definition reasonWipeDisabled :: string where "reasonWipeDisabled = ''WipeOnDeleteSkipped''"
definition reasonWiping :: string where "reasonWiping = ''WipingBucket''"
definition reasonGroupNotAttributable :: string where "reasonGroupNotAttributable = ''CredentialsGroupNotAttributable''"

definition bucketOwnedByUs :: "'w reconciler \<Rightarrow> 'w client \<Rightarrow> string \<Rightarrow> ('w st, go_error, bool) fallible" where
  "bucketOwnedByUs r c name =
     andThen (ensureAdmin r c) (\<lambda>admin.
     andThen (newS3Admin r c name admin) (\<lambda>s3admin.
     andThen (BucketTags (r_minio r) s3admin name) (\<lambda>tagSet. reads (\<lambda>s.
       ret (isOwnedByUs r tagSet (s_obj s))))))"

definition assertBucketEmpty :: "'w reconciler \<Rightarrow> 'w client \<Rightarrow> string \<Rightarrow> ('w st, go_error, unit) fallible" where
  "assertBucketEmpty r c name =
     andThen (ensureAdmin r c) (\<lambda>admin.
     andThen (newS3Admin r c name admin) (\<lambda>s3admin.
     andThen (BucketEmpty (r_minio r) s3admin name) (\<lambda>empty.
       if \<not> empty
       then andDo (raise r True ReasonFailed ''refusing to delete non-empty bucket'')
         (fault (Msg (''bucket '' @ quoted name @ '' is not empty; refusing to delete (data-loss guard)'')))
       else ret ())))"

definition wipeBucket :: "'w reconciler \<Rightarrow> 'w client \<Rightarrow> string \<Rightarrow> ('w st, go_error, unit) fallible" where
  "wipeBucket r c name =
     andThen (ensureAdmin r c) (\<lambda>admin.
     andThen (newS3Admin r c name admin) (\<lambda>s3admin.
       andDo (raise r False reasonWiping ''deleting all objects before bucket removal (spec.wipeOnDelete)'')
       (andDo (modStatus (\<lambda>t. t\<lparr>st_Message := ''wiping bucket '' @ quoted name @ '' before deletion''\<rparr>))
       (after (updateStatus r) (\<lambda>_. WipeBucket (r_minio r) s3admin name)))))"

definition prepareBucketForDelete :: "'w reconciler \<Rightarrow> 'w client \<Rightarrow> string \<Rightarrow> ('w st, go_error, unit) fallible" where
  "prepareBucketForDelete r c name = reads (\<lambda>s.
     if sp_WipeOnDelete (b_Spec (s_obj s)) then
       if \<not> r_EnableWipeOnDelete r
       then andDo (raise r True reasonWipeDisabled (''spec.wipeOnDelete requested but the wipe feature is disabled by '' @
           ''operator config (wipeOnDelete.enabled); falling back to empty-only delete guard''))
         (assertBucketEmpty r c name)
       else andThen (bucketOwnedByUs r c name) (\<lambda>owned.
         if \<not> owned
         then andDo (raise r True reasonWipeDisabled (''refusing to wipe: bucket is not owned by this operator '' @
             ''(no matching ownership tags); falling back to empty-only delete guard''))
           (assertBucketEmpty r c name)
         else wipeBucket r c name)
     else assertBucketEmpty r c name)"

definition deleteBucketIfOwned :: "'w reconciler \<Rightarrow> 'w client \<Rightarrow> string \<Rightarrow> ('w st, go_error, unit) fallible" where
  "deleteBucketIfOwned r c name =
     andThen (bucketOwnedByUs r c name) (\<lambda>owned.
       if \<not> owned
       then andDo (raise r True ReasonFailed
           ''not deleting bucket: it is not owned by this operator (no matching ownership tags)'') (ret ())
       else check (DeleteBucket c name) (\<lambda>err. if StatusCode err \<noteq> 404 then fault err else ret ()) ret)"

definition reportGroupNotAttributable :: "'w reconciler \<Rightarrow> 'w client \<Rightarrow> string \<Rightarrow> string \<Rightarrow> ('w st, unit) handler" where
  "reportGroupNotAttributable r c name why = reads (\<lambda>s.
     let rec = st_CredentialsGroupID (b_Status (s_obj s)) in
     if rec = [] then finish ()
     else after (groupExists c rec) (\<lambda>x.
       if x = Inr False then finish ()
       else raise r True reasonGroupNotAttributable (''not deleting credentials group '' @ rec @
         '' recorded in status: '' @ why @ ''; bucket '' @ quoted name @ '' does not attribute it (ADR 0002)'')))"

definition releaseWorkloadGroup :: "'w reconciler \<Rightarrow> 'w client \<Rightarrow> string \<Rightarrow> ('w st, go_error, unit) fallible" where
  "releaseWorkloadGroup r c name =
     andThen (ensureAdmin r c) (\<lambda>admin.
     andThen (listGroups c) (\<lambda>groups. reads (\<lambda>s.
     check (resolveWorkloadGroup r c (s_obj s) name admin groups False False)
       (\<lambda>err. if is_sentinel ErrGroupNotAttributable err \<or> is_sentinel ErrBucketNotOwned err
          then andDo (reportGroupNotAttributable r c name (errText err)) (ret ())
          else fault err)
       (\<lambda>(group, _).
          andThen (DeleteAllAccessKeys c (wg_id group)) (\<lambda>_.
          check (DeleteCredentialsGroup c (wg_id group)) (\<lambda>err. if StatusCode err \<noteq> 404 then fault err else ret ()) ret)))))"

definition deleteSecret :: "'w reconciler \<Rightarrow> ('w st, go_error, unit) fallible" where
  "deleteSecret r = reads (\<lambda>s.
     let ns = b_Namespace (s_obj s); n = sr_Name (sp_SecretRef (b_Spec (s_obj s))) in
     check (callOut (k_DeleteSecret (r_kube r) ns n) (\<lambda>x. KDeleteSecret ns n (isOk x)))
       (\<lambda>err. if is_kube KNotFound err then ret () else fault err) ret)"

definition teardown :: "'w reconciler \<Rightarrow> 'w client \<Rightarrow> ('w st, go_error, unit) fallible" where
  "teardown r c = reads (\<lambda>s. let name = EffectiveBucketName (s_obj s) in
     andThen (deleteCloneArtifacts r (s_obj s) True) (\<lambda>_.
     andThen (HasBucket c (cl_ProjectID c) name) (\<lambda>bucketExists.
     andThen (if bucketExists then prepareBucketForDelete r c name else ret ()) (\<lambda>_.
     andThen (if bucketExists then releaseWorkloadGroup r c name
              else andDo (reportGroupNotAttributable r c name ''bucket does not exist'') (ret ())) (\<lambda>_.
     andThen (if bucketExists then deleteBucketIfOwned r c name else ret ()) (\<lambda>_. reads (\<lambda>s.
       if isAdminSecret r (s_obj s) then ret () else deleteSecret r)))))))"

definition dropFinalizer :: "'w reconciler \<Rightarrow> ('w st, Result) handler" where
  "dropFinalizer r =
     andDo (sets (\<lambda>s. s\<lparr>s_verified := removeAll (objKey (s_obj s)) (s_verified s)\<rparr>))
     (andDo (modObj (\<lambda>b. b\<lparr>b_Finalizers := removeAll BucketFinalizer (b_Finalizers b)\<rparr>))
     (after (updateObj r) (\<lambda>err. finish (0, ignoreNotFound err))))"

definition breakerAllow :: "'w reconciler \<Rightarrow> 'w st \<Rightarrow> int \<times> bool" where
  "breakerAllow r s = Allow (s_breaker s) (clock (r_sys r) s)"

definition releaseAndDrop :: "'w reconciler \<Rightarrow> 'w client \<Rightarrow> ('w st, Result) handler" where
  "releaseAndDrop r c = reads (\<lambda>s.
     if \<not> snd (breakerAllow r s) then finish (fst (breakerAllow r s), None)
     else check (teardown r c) (fail r) (\<lambda>_. andDo breakerSuccess (dropFinalizer r)))"

definition reconcileDelete :: "'w reconciler \<Rightarrow> ('w st, Result) handler" where
  "reconcileDelete r = reads (\<lambda>s.
     if BucketFinalizer \<notin> set (b_Finalizers (s_obj s)) then finish (0, None)
     else case r_Stackit r of None \<Rightarrow> dropFinalizer r
     | Some c \<Rightarrow>
         if st_Phase (b_Status (s_obj s)) \<noteq> PhaseDeleting \<and> st_Phase (b_Status (s_obj s)) \<noteq> PhaseFailed
         then andDo (modStatus (\<lambda>t. t\<lparr>st_Phase := PhaseDeleting, st_Message := ''releasing StackIT resources''\<rparr>))
           (after (updateStatus r) (\<lambda>err. case err of Some e \<Rightarrow> finish (0, ignoreNotFound (Some e))
             | None \<Rightarrow> releaseAndDrop r c))
         else releaseAndDrop r c)"

section \<open>Evidence\<close>

text \<open>The bucket holds no current object, or its removal went through; the project does not have it.\<close>

definition cleared :: "string \<Rightarrow> call set \<Rightarrow> bool" where
  "cleared name H \<longleftrightarrow> CListObjects name False ([], True) \<in> H \<or> CRemoveObjects name True \<in> H"

definition absent :: "'w client \<Rightarrow> string \<Rightarrow> call set \<Rightarrow> bool" where
  "absent c name H \<longleftrightarrow> (\<exists>ns. name \<notin> set ns \<and> CListBuckets (cl_ProjectID c) (Some ns) \<in> H)"

text \<open>The group is the operator's own, or the one the bucket attributes to \<open>b\<close>.\<close>

definition adminGroup :: "string \<Rightarrow> call set \<Rightarrow> bool" where
  "adminGroup g H \<longleftrightarrow> (\<exists>gs. (\<exists>x \<in> set gs. g_ID x = g \<and> g_DisplayName x = adminGroupName) \<and> CListGroups (Some gs) \<in> H) \<or>
     (\<exists>urn. CCreateGroup adminGroupName (Some (g, urn)) \<in> H)"

definition attributedTo :: "'w reconciler \<Rightarrow> Bucket \<Rightarrow> string \<Rightarrow> string \<Rightarrow> call set \<Rightarrow> bool" where
  "attributedTo r b name g H \<longleftrightarrow>
     (\<exists>tags. isOwnedByUs r tags b \<and> mget tags tagCredentialsGroupID = g \<and> CGetTags name (Inr tags) \<in> H) \<or>
     (ownedSeen r b name H \<and> (\<exists>urn policy gs. WorkloadPrincipalFromPolicy policy = Some urn \<and>
        (\<exists>x \<in> set gs. g_ID x = g \<and> g_URN x = urn) \<and> CGetPolicy name (Some policy) \<in> H \<and> CListGroups (Some gs) \<in> H))"

definition teardownDiscipline :: "'w reconciler \<Rightarrow> 'w client \<Rightarrow> Bucket \<Rightarrow> string \<Rightarrow> call \<Rightarrow> call set \<Rightarrow> bool" where
  "teardownDiscipline r c b name x H =
     (case x of
        CDeleteBucket n y \<Rightarrow> n = name \<and> ownedSeen r b name H \<and> cleared name H
      | CRemoveObjects n y \<Rightarrow> n = name \<and> r_EnableWipeOnDelete r \<and> sp_WipeOnDelete (b_Spec b) \<and> ownedSeen r b name H
      | CDeleteKey g k y \<Rightarrow> adminGroup g H \<or> cleared name H \<and> attributedTo r b name g H
      | CDeleteGroup g y \<Rightarrow> cleared name H \<and> attributedTo r b name g H
      | CCreateGroup n y \<Rightarrow> n = adminGroupName
      | CCreateKey g y \<Rightarrow> adminGroup g H
      | CSetTags n kv y \<Rightarrow> n = name
      | KUpsertSecret ns n y \<Rightarrow> ns = r_AdminSecretNamespace r \<and> n = r_AdminSecretName r
      | KDeleteSecret ns n y \<Rightarrow> ns = r_AdminSecretNamespace r \<and> (\<exists>b. n = cloneStagingSecretName b) \<or>
          (ns, n) \<noteq> (r_AdminSecretNamespace r, r_AdminSecretName r) \<and> (cleared name H \<or> absent c name H)
      | KUpdateStatus b' y \<Rightarrow> True
      | KDeleteJob ns n y \<Rightarrow> True
      | _ \<Rightarrow> isRead x)"

lemma lasting_teardown [lasting_rules]: "lasting (cleared name)" "lasting (absent c name)" "lasting (adminGroup g)"
    "lasting (attributedTo r b name g)"
  unfolding cleared_def absent_def adminGroup_def attributedTo_def by (intro lasting_rules lasting_ex)+

lemma teardownDiscipline_simple [simp]:
  "isRead x \<Longrightarrow> teardownDiscipline r c b name x H" "teardownDiscipline r c b name (KUpdateStatus b' y) H"
  "teardownDiscipline r c b name (KDeleteJob ns n y) H"
  "teardownDiscipline r c b name (KUpsertSecret ns n y) H \<longleftrightarrow> ns = r_AdminSecretNamespace r \<and> n = r_AdminSecretName r"
  "teardownDiscipline r c b name (CCreateGroup n cg) H \<longleftrightarrow> n = adminGroupName"
  "teardownDiscipline r c b name (CCreateKey g ck) H \<longleftrightarrow> adminGroup g H"
  "teardownDiscipline r c b name (CDeleteKey g k y) H \<longleftrightarrow> adminGroup g H \<or> cleared name H \<and> attributedTo r b name g H"
  "teardownDiscipline r c b name (CDeleteGroup g y) H \<longleftrightarrow> cleared name H \<and> attributedTo r b name g H"
  "teardownDiscipline r c b name (CSetTags n kv y) H \<longleftrightarrow> n = name"
  by (cases x) (simp_all add: teardownDiscipline_def)

section \<open>The steps\<close>

lemma EnsureCredentialsGroup_seen:
  "EnsureCredentialsGroup c adminGroupName s = (x, s') \<Longrightarrow>
    (case x of Inl e \<Rightarrow> True | Inr gu \<Rightarrow> adminGroup (fst gu) (set (s_calls s')))"
  by (auto simp: EnsureCredentialsGroup_def FindCredentialsGroupByName_def ListCredentialsGroups_def CreateCredentialsGroup_def
      adminGroup_def exec find_Some_iff split: sum.splits option.splits)
    (use nth_mem in blast)

lemma ensureAdmin_teardown:
  assumes K: "lasting K"
  shows "valid (disc (teardownDiscipline r c b name) K) (ensureAdmin r c) (\<lambda>_. disc (teardownDiscipline r c b name) K)"
proof -
  let ?G = "teardownDiscipline r c b name"
  have s: "calls_only A (sets (\<lambda>s. s\<lparr>s_admin := Some ac\<rparr>))" for A ac by (rule only_sets) simp
  have w: "calls_only (\<lambda>ca. \<forall>H. L H \<longrightarrow> ?G ca H) (writeAdminSecret r ac)" for L ac
    unfolding writeAdminSecret_def by (intro only_rules) simp
  have boot: "valid (disc ?G K) (bootstrapAdmin r c) (\<lambda>_. disc ?G K)"
    unfolding bootstrapAdmin_def
    apply (rule disc_check [where E = "\<lambda>x H. case x of Inl e \<Rightarrow> True | Inr gu \<Rightarrow> adminGroup (fst gu) H", OF K])
       apply (intro only_rules; simp)
      apply (erule EnsureCredentialsGroup_seen)
     apply (rule disc_end, simp)
    apply (intro valid_prod, simp only: sum.case fst_conv)
    subgoal for gu g u
      apply (rule disc_only)
        apply (intro lasting_rules K)
       apply (intro only_rules w s; simp)
      apply simp
      done
    done
  show ?thesis unfolding ensureAdmin_def
    apply (rule valid_readsI, intro valid_option valid_if)
       apply (rule disc_end, simp)
      apply (rule disc_then [OF K])
        apply (intro only_rules; simp)
       apply (intro valid_if boot)
       apply (rule disc_end, simp)
      apply (intro valid_option boot)
      apply (rule disc_after [OF K s])
      apply (rule disc_end, simp)+
    done
qed

text \<open>The object of the pass stays the same resource: what the API server returns for a stored
  status has the namespace and name it was sent. That is the law of the server the ownership guards
  rely on after \<open>wipeBucket\<close> stored its progress.\<close>

definition onOwner :: "Bucket \<Rightarrow> 'w st \<Rightarrow> bool" where
  "onOwner b s \<longleftrightarrow> sameBucket (s_obj s) b"

lemma aboutObj_onOwner [simp]: "aboutObj (onOwner b)"
  by (simp add: aboutObj_def onOwner_def)

lemma onOwner_owned: "onOwner b s \<Longrightarrow> isOwnedByUs r tags (s_obj s) = isOwnedByUs r tags b"
  by (simp add: onOwner_def sameBucket_def isOwnedByUs_def ownerTagValue_def)

lemma onOwner_obj: "onObj b s \<Longrightarrow> onOwner b s"
  by (simp add: onObj_def onOwner_def sameBucket_def)

text \<open>The steps every operation begins with.\<close>

lemma admin_td:
  assumes "lasting K" and "aboutObj I" and "\<And>a. valid (\<lambda>s. I s \<and> disc (teardownDiscipline r c b name) K s) (k a) Q"
    and "\<And>e s. I s \<Longrightarrow> disc (teardownDiscipline r c b name) K s \<Longrightarrow> Q (Inl e) s"
  shows "valid (\<lambda>s. I s \<and> disc (teardownDiscipline r c b name) K s) (andThen (ensureAdmin r c) k) Q"
  by (rule valid_andThen [where R = "\<lambda>_ s. I s \<and> disc (teardownDiscipline r c b name) K s"])
    (rule valid_weaken [OF valid_conj [OF ensureAdmin_teardown [OF assms(1)] keeps_ensureAdmin [OF assms(2)]]],
      use assms(3,4) in \<open>auto split: sum.splits\<close>)

lemma s3_td:
  assumes "lasting K" and "aboutObj I" and "\<And>a. valid (\<lambda>s. I s \<and> disc (teardownDiscipline r c b name) K s) (k a) Q"
    and "\<And>e s. I s \<Longrightarrow> disc (teardownDiscipline r c b name) K s \<Longrightarrow> Q (Inl e) s"
  shows "valid (\<lambda>s. I s \<and> disc (teardownDiscipline r c b name) K s) (andThen (newS3Admin r c name admin) k) Q"
  by (rule inv_then [OF keeps_newS3Admin [OF assms(2)] assms(1)])
    ((intro only_rules, simp)[1], rule valid_end, use assms(3,4) in auto)

lemma owned_td:
  assumes K: "lasting K"
  shows "valid (\<lambda>s. onOwner b s \<and> disc (teardownDiscipline r c b name) K s) (bucketOwnedByUs r c name)
    (\<lambda>x s. onOwner b s \<and> disc (teardownDiscipline r c b name)
      (\<lambda>H. K H \<and> (case x of Inl e \<Rightarrow> True | Inr owned \<Rightarrow> owned \<longrightarrow> ownedSeen r b name H)) s)"
  unfolding bucketOwnedByUs_def
  apply (rule admin_td [OF K aboutObj_onOwner])
   apply (rule s3_td [OF K aboutObj_onOwner])
    apply (rule inv_check [where E = "\<lambda>x H. case x of Inl e \<Rightarrow> True | Inr tags \<Rightarrow> isOwnedByUs r tags b \<longrightarrow> ownedSeen r b name H"])
         apply (intro keeps_rules, simp)
        apply (rule K)
       apply (intro only_rules, simp)
      apply (drule BucketTags_answer [where r = r and b = b], simp split: sum.splits)
     apply (rule valid_end, simp add: disc_def)
    apply (rule valid_reads_inv)
    apply (rule valid_end, simp add: disc_def onOwner_owned)
   apply (simp add: disc_def)+
  done

lemma empty_td:
  assumes K: "lasting K" and I: "aboutObj I"
  shows "valid (\<lambda>s. I s \<and> disc (teardownDiscipline r c b name) K s) (assertBucketEmpty r c name)
    (\<lambda>x s. I s \<and> disc (teardownDiscipline r c b name) (\<lambda>H. K H \<and> (case x of Inl e \<Rightarrow> True | Inr u \<Rightarrow> cleared name H)) s)"
  unfolding assertBucketEmpty_def
  apply (rule admin_td [OF K I])
   apply (rule s3_td [OF K I])
    apply (rule inv_check [where E = "\<lambda>x H. case x of Inl e \<Rightarrow> True | Inr em \<Rightarrow> em \<longrightarrow> CListObjects name False ([], True) \<in> H"])
         apply (intro keeps_rules, simp add: I)
        apply (rule K)
       apply (intro only_rules, simp)
      apply (erule BucketEmpty_seen)
     apply (rule valid_end, simp add: disc_def)
    apply (intro valid_if)
     apply (rule inv_after, (intro keeps_rules I)[1], (intro lasting_rules K)[1], (intro only_rules)[1])
     apply (rule valid_end, simp add: disc_def)
    apply (rule valid_end, simp add: disc_def cleared_def)
   apply (simp add: disc_def)+
  done

lemma deleteOwned_td:
  assumes K: "lasting K" and cl: "\<And>H. K H \<Longrightarrow> cleared name H"
  shows "valid (\<lambda>s. onOwner b s \<and> disc (teardownDiscipline r c b name) K s) (deleteBucketIfOwned r c name)
    (\<lambda>_ s. onOwner b s \<and> disc (teardownDiscipline r c b name) K s)"
  unfolding deleteBucketIfOwned_def
  apply (rule valid_andThen [where R = "\<lambda>owned s. onOwner b s \<and> disc (teardownDiscipline r c b name)
      (\<lambda>H. K H \<and> (owned \<longrightarrow> ownedSeen r b name H)) s"])
   apply (rule valid_weaken [OF owned_td [OF K]], simp, simp add: disc_def split: sum.splits)
  apply (intro valid_if)
   apply (rule inv_after, (intro keeps_rules aboutObj_onOwner)[1], (intro lasting_rules K)[1], (intro only_rules)[1])
   apply (rule valid_end, simp add: disc_def)
  apply (rule inv_then)
      apply (intro keeps_rules, simp)
     apply (intro lasting_rules K)
    apply (intro only_rules, simp add: teardownDiscipline_def cl)
   apply (intro valid_if; rule valid_end; simp add: disc_def)
  apply (rule valid_end, simp add: disc_def)
  done

lemma keeps_resolve: "aboutObj I \<Longrightarrow> keeps I (resolveWorkloadGroup r c b n admin groups create f)"
  unfolding resolveWorkloadGroup_def attributeGroup_def groupFromTags_def groupFromPolicy_def guardGroupCreate_def
    createWorkloadGroup_def stamp_def groupExists_def
  by (intro keeps_rules aboutObj_stable) simp_all

lemma keeps_deleteCloneArtifacts: "ext_stable I \<Longrightarrow> keeps I (deleteCloneArtifacts r b stage)"
  unfolding deleteCloneArtifacts_def by (intro keeps_rules)

text \<open>The group a teardown resolves is attributed by the bucket: no group was created for it.\<close>

lemma disciplined_mem: "disciplined G h \<Longrightarrow> x \<in> set h \<Longrightarrow> \<exists>H. G x H"
  by (induction h) auto

lemma workload_not_admin: "workloadGroupName b \<noteq> adminGroupName"
proof -
  have "hd (workloadGroupName b) = CHR ''s''"
    by (simp add: workloadGroupName_def truncatedName_def Let_def maxGroupNameLen_def shortHash_def)
  moreover have "hd adminGroupName = CHR ''o''" by (simp add: adminGroupName_def)
  ultimately show ?thesis by auto
qed

lemma sameBucket_owned: "sameBucket b' b \<Longrightarrow> isOwnedByUs r tags b' = isOwnedByUs r tags b"
  by (simp add: sameBucket_def isOwnedByUs_def ownerTagValue_def)

lemma resolve_td:
  assumes same: "sameBucket b' b" and K: "lasting K" and gs: "\<And>H. K H \<Longrightarrow> CListGroups (Some groups) \<in> H"
  shows "valid (disc (teardownDiscipline r c b name) K) (resolveWorkloadGroup r c b' name admin groups False False)
    (\<lambda>x. disc (teardownDiscipline r c b name) (\<lambda>H. K H \<and> (case x of Inl e \<Rightarrow> True | Inr y \<Rightarrow> attributedTo r b name (wg_id (fst y)) H)))"
proof (rule validI)
  fix s x s'
  let ?G = "teardownDiscipline r c b name"
  assume P: "disc ?G K s" and run: "resolveWorkloadGroup r c b' name admin groups False False s = (x, s')"
  have "valid (disc ?G K) (resolveWorkloadGroup r c b' name admin groups False False) (\<lambda>_. disc ?G K)"
    by (rule disc_keeps [OF K only_resolveWorkloadGroup]) (auto simp: groupCall_def split: call.splits)
  from validD [OF this P run] have D: "disciplined ?G (s_calls s')" and K': "K (set (s_calls s'))" by (simp_all add: disc_def)
  have no: "CCreateGroup (workloadGroupName b') y \<notin> set (s_calls s')" for y
    using disciplined_mem [OF D] workload_not_admin by fastforce
  have "attributedTo r b name (wg_id ref) (set (s_calls s'))" if "x = Inr (ref, wr)" for ref wr
    using resolve_sound [OF run [unfolded that]] no gs [OF K'] unfolding attributedBy_def sourceOf_def sameBucket_owned [OF same]
    by (auto simp: attributedTo_def ownedSeen_def)
  with D K' show "disc ?G (\<lambda>H. K H \<and> (case x of Inl e \<Rightarrow> True | Inr y \<Rightarrow> attributedTo r b name (wg_id (fst y)) H)) s'"
    by (auto simp: disc_def split: sum.splits)
qed

locale apiserver =
  fixes r :: "'w reconciler"
  assumes status_identity: "k_UpdateStatus (r_kube r) b w = (Inr b', w') \<Longrightarrow> sameBucket b' b"
begin

lemma keeps_updateStatus: "keeps (onOwner b) (updateStatus r)"
proof (rule keepsI)
  fix s x s'
  assume own: "onOwner b s" and run: "updateStatus r s = (x, s')"
  have obj: "s_obj s' = (case statusAnswer r s of Inl e \<Rightarrow> s_obj s | Inr b' \<Rightarrow> b')"
    using run updateStatus_run(3) [of r s] by simp
  show "onOwner b s'"
  proof (cases "statusAnswer r s")
    case (Inl e)
    with obj own show ?thesis by (simp add: onOwner_def)
  next
    case (Inr b')
    then have "k_UpdateStatus (r_kube r) (s_obj s) (s_world s) = (Inr b', snd (k_UpdateStatus (r_kube r) (s_obj s) (s_world s)))"
      unfolding statusAnswer_def by (metis prod.collapse)
    from status_identity [OF this] obj Inr own show ?thesis by (simp add: onOwner_def sameBucket_def)
  qed
qed

lemma wipe_td:
  assumes K: "lasting K" and "\<And>H. K H \<Longrightarrow> ownedSeen r b name H" and "r_EnableWipeOnDelete r" and "sp_WipeOnDelete (b_Spec b)"
  shows "valid (\<lambda>s. onOwner b s \<and> disc (teardownDiscipline r c b name) K s) (wipeBucket r c name)
    (\<lambda>x s. onOwner b s \<and> disc (teardownDiscipline r c b name) (\<lambda>H. K H \<and> (case x of Inl e \<Rightarrow> True | Inr u \<Rightarrow> cleared name H)) s)"
proof -
  have mod: "keeps (onOwner b) (modStatus f)" for f
    by (rule keepsI) (auto simp: exec onOwner_def sameBucket_def)
  have seen: "WipeBucket mc s3 name s = (x, s') \<Longrightarrow> (case x of Inl e \<Rightarrow> True | Inr u \<Rightarrow> cleared name (set (s_calls s')))" for mc s3 s x s'
    by (auto simp: WipeBucket_def ListObjects_def exec cleared_def split: sum.splits option.splits prod.splits)
  have run: "valid (\<lambda>s. onOwner b s \<and> disc (teardownDiscipline r c b name) K s) (WipeBucket mc s3 name)
    (\<lambda>x s. onOwner b s \<and> disc (teardownDiscipline r c b name) (\<lambda>H. K H \<and> (case x of Inl e \<Rightarrow> True | Inr u \<Rightarrow> cleared name H)) s)" for mc s3
    by (rule inv_last [OF keeps_s3(5) [OF aboutObj_stable [OF aboutObj_onOwner]] K])
      ((intro only_rules; simp add: teardownDiscipline_def assms)[1], erule seen, simp)
  show ?thesis unfolding wipeBucket_def
    apply (rule admin_td [OF K aboutObj_onOwner])
     apply (rule s3_td [OF K aboutObj_onOwner])
      apply (rule inv_after [OF keeps_raise [OF aboutObj_onOwner] K], (intro only_rules)[1])
      apply (rule inv_after [OF mod K], (intro only_rules)[1])
      apply (rule inv_after [OF keeps_updateStatus K], (intro only_rules; simp)[1])
      apply (rule run)
     apply (simp add: disc_def)+
    done
qed

lemma prepare_td:
  "valid (\<lambda>s. onObj b s \<and> disc (teardownDiscipline r c b name) (\<lambda>_. True) s) (prepareBucketForDelete r c name)
    (\<lambda>x s. onOwner b s \<and> disc (teardownDiscipline r c b name) (\<lambda>H. case x of Inl e \<Rightarrow> True | Inr u \<Rightarrow> cleared name H) s)"
  (is "valid _ _ ?Q")
proof -
  let ?G = "teardownDiscipline r c b name"
  have T: "lasting (\<lambda>_. True)" by (intro lasting_rules)
  have em: "valid (\<lambda>s. onOwner b s \<and> disc ?G K s) (assertBucketEmpty r c name) ?Q" if "lasting K" for K
    by (rule valid_weaken [OF empty_td [OF that aboutObj_onOwner]]) (auto simp: disc_def split: sum.splits)
  have warn: "valid (\<lambda>s. onOwner b s \<and> disc ?G K s) (andDo (raise r w x y) (assertBucketEmpty r c name)) ?Q"
    if "lasting K" for K w x y
    by (rule inv_after [OF keeps_raise [OF aboutObj_onOwner] that]) (intro only_rules em that)+
  have main: "valid (\<lambda>s. onOwner b s \<and> disc ?G (\<lambda>_. True) s)
      (if sp_WipeOnDelete (b_Spec b) then
         if \<not> r_EnableWipeOnDelete r then andDo (raise r True x y) (assertBucketEmpty r c name)
         else andThen (bucketOwnedByUs r c name) (\<lambda>owned. if \<not> owned then andDo (raise r True x z) (assertBucketEmpty r c name)
           else wipeBucket r c name)
       else assertBucketEmpty r c name) ?Q" for x y z
    apply (intro valid_if warn em T)
    apply (rule valid_andThen [where R = "\<lambda>owned s. onOwner b s \<and> disc ?G (\<lambda>H. owned \<longrightarrow> ownedSeen r b name H) s"])
     apply (rule valid_weaken [OF owned_td [OF T]], simp, simp add: disc_def split: sum.splits)
    apply (intro valid_if warn lasting_rules)
    apply (rule valid_weaken [OF wipe_td [where K = "ownedSeen r b name" and b = b]], (intro lasting_rules)[1])
        apply (auto simp: disc_def split: sum.splits)
    done
  show ?thesis unfolding prepareBucketForDelete_def
    apply (rule valid_reads_inv, drule onObjD, simp only:)
    apply (rule valid_weaken [OF main])
     apply (auto simp: onOwner_obj)
    done
qed

lemma release_td:
  "valid (\<lambda>s. onOwner b s \<and> disc (teardownDiscipline r c b name) (cleared name) s) (releaseWorkloadGroup r c name)
    (\<lambda>_ s. onOwner b s \<and> disc (teardownDiscipline r c b name) (cleared name) s)"
  (is "valid ?P _ ?Q")
proof -
  let ?G = "teardownDiscipline r c b name"
  have C: "lasting (cleared name)" by (intro lasting_rules)
  have rep: "keeps (onOwner b) (reportGroupNotAttributable r c name why)" for why
    unfolding reportGroupNotAttributable_def groupExists_def by (intro keeps_rules aboutObj_onOwner aboutObj_stable)
  have res: "valid (\<lambda>s. onOwner b s \<and> disc ?G (\<lambda>H. cleared name H \<and> CListGroups (Some groups) \<in> H) s)
      (resolveWorkloadGroup r c b' name admin groups False False)
      (\<lambda>x. case x of Inl e \<Rightarrow> \<lambda>s. onOwner b s \<and> disc ?G (cleared name) s
        | Inr y \<Rightarrow> \<lambda>s. onOwner b s \<and> disc ?G (\<lambda>H. cleared name H \<and> attributedTo r b name (wg_id (fst y)) H) s)"
    if "sameBucket b' b" for b' admin groups
    by (rule valid_weaken [OF valid_conj [OF resolve_td [OF that, where K = "\<lambda>H. cleared name H \<and> CListGroups (Some groups) \<in> H"]
          keeps_resolve [OF aboutObj_onOwner]]]) (intro lasting_rules, auto simp: disc_def split: sum.splits)
  show ?thesis unfolding releaseWorkloadGroup_def
    apply (rule admin_td [OF C aboutObj_onOwner])
     apply (unfold listGroups_def)
     apply (rule inv_check [where E = "\<lambda>x H. case x of Inl e \<Rightarrow> True | Inr gs \<Rightarrow> CListGroups (Some gs) \<in> H", OF _ C])
         apply (intro keeps_rules, simp)
        apply (intro only_rules, simp)
       apply (auto simp: ListCredentialsGroups_def exec split: sum.splits)[1]
      apply (rule valid_end, simp add: disc_def)
     apply (rule valid_reads_inv, simp only: sum.case)
     apply (rule valid_check [OF res])
       apply (simp add: onOwner_def)
      apply (intro valid_if)
       apply (rule inv_after [OF rep C], (unfold reportGroupNotAttributable_def, intro only_rules; simp)[1])
       apply (rule valid_end, simp)
      apply (rule valid_end, simp)
     apply (intro valid_prod, simp only: fst_conv)
     apply (rule inv_then, (intro keeps_rules, simp)[1], (intro lasting_rules)[1], (intro only_rules; simp)[1])
      apply (rule valid_end, simp add: disc_def)
     apply (rule inv_then, (intro keeps_rules, simp)[1], (intro lasting_rules)[1], (intro only_rules; simp)[1])
      apply (intro valid_if; rule valid_end; simp add: disc_def)
     apply (rule valid_end, simp add: disc_def)
    apply simp
    done
qed

lemma teardown_td:
  "valid (\<lambda>s. onObj b s \<and> disc (teardownDiscipline r c b (EffectiveBucketName b)) (\<lambda>_. True) s) (teardown r c)
    (\<lambda>x. disc (teardownDiscipline r c b (EffectiveBucketName b))
      (\<lambda>H. case x of Inl e \<Rightarrow> True | Inr u \<Rightarrow> cleared (EffectiveBucketName b) H \<or> absent c (EffectiveBucketName b) H))"
  (is "valid _ _ ?Q")
proof -
  let ?n = "EffectiveBucketName b"
  let ?G = "teardownDiscipline r c b ?n" and ?R = "\<lambda>H. cleared ?n H \<or> absent c ?n H"
  have R: "lasting ?R" and A: "lasting (absent c ?n)" and C: "lasting (cleared ?n)" by (intro lasting_rules)+
  have sec: "valid (disc ?G ?R) (reads (\<lambda>s. if isAdminSecret r (s_obj s) then ret () else deleteSecret r)) ?Q"
    by (rule validI) (auto simp: deleteSecret_def Let_def exec disc_def teardownDiscipline_def isAdminSecret_def cleared_def absent_def
        split: if_splits sum.splits)
  have rest: "valid (\<lambda>s. onObj b s \<and> disc ?G (\<lambda>H. ex \<or> absent c ?n H) s)
      (andThen (if ex then prepareBucketForDelete r c ?n else ret ()) (\<lambda>_.
       andThen (if ex then releaseWorkloadGroup r c ?n
              else andDo (reportGroupNotAttributable r c ?n ''bucket does not exist'') (ret ())) (\<lambda>_.
       andThen (if ex then deleteBucketIfOwned r c ?n else ret ()) (\<lambda>_. reads (\<lambda>s.
         if isAdminSecret r (s_obj s) then ret () else deleteSecret r))))) ?Q" for ex
  proof (cases ex)
    case True
    show ?thesis
      apply (simp only: True if_True simp_thms)
      apply (rule valid_andThen [where R = "\<lambda>_ s. onOwner b s \<and> disc ?G (cleared ?n) s"])
       apply (rule valid_weaken [OF prepare_td], simp, simp add: disc_def split: sum.splits)
      apply (rule valid_andThen [where R = "\<lambda>_ s. onOwner b s \<and> disc ?G (cleared ?n) s"])
       apply (rule valid_weaken [OF release_td], simp, simp add: disc_def split: sum.splits)
      apply (rule valid_andThen [where R = "\<lambda>_. disc ?G ?R"])
       apply (rule valid_weaken [OF deleteOwned_td [OF C]], simp, simp, simp add: disc_def split: sum.splits)
      apply (rule sec)
      done
  next
    case False
    show ?thesis
      apply (simp only: False if_False simp_thms)
      apply (rule inv_drop)
      apply (rule valid_andThen [where R = "\<lambda>_. disc ?G (absent c ?n)"])
       apply (rule valid_end, simp)
      apply (rule valid_andThen [where R = "\<lambda>_. disc ?G (absent c ?n)"])
       apply (rule disc_after [OF A], (unfold reportGroupNotAttributable_def, intro only_rules; simp)[1])
       apply (rule valid_end, simp)
      apply (rule valid_andThen [where R = "\<lambda>_. disc ?G ?R"])
       apply (rule valid_end, simp add: disc_def)
      apply (rule sec)
      done
  qed
  show ?thesis unfolding teardown_def Let_def
    apply (rule valid_reads_inv, drule onObjD, simp only:)
    apply (rule inv_then)
        apply (rule keeps_deleteCloneArtifacts, simp)
       apply (intro lasting_rules)
      apply (intro only_rules; auto simp: teardownDiscipline_def)
     apply (rule valid_end, simp add: disc_def)
    apply (rule inv_check [where E = "\<lambda>x H. case x of Inl e \<Rightarrow> True
        | Inr ok \<Rightarrow> \<exists>ns. CListBuckets (cl_ProjectID c) (Some ns) \<in> H \<and> ok = (?n \<in> set ns)"])
         apply (intro keeps_rules, simp)
        apply (intro lasting_rules)
       apply (intro only_rules, simp)
      apply (erule HasBucket_seen)
     apply (rule valid_end, simp add: disc_def)
    apply (rule valid_weaken [OF rest])
     apply (auto simp: disc_def absent_def)
    done
qed

end

interpretation fakeServer: apiserver fakeReconciler
proof
  fix b w b' w'
  assume "k_UpdateStatus (r_kube fakeReconciler) b w = (Inr b', w')"
  then show "sameBucket b' b"
    by (auto simp: fakeReconciler_def fakeKube_def storeCR_def sameBucket_def find_Some_iff split: option.splits)
qed

section \<open>Finalizer\<close>

text \<open>The finalizer goes with the last update of the object, and only once the release is complete.\<close>

definition released :: "'w reconciler \<Rightarrow> call set \<Rightarrow> bool" where
  "released r H \<longleftrightarrow> (case r_Stackit r of None \<Rightarrow> True | Some c \<Rightarrow> \<exists>name. cleared name H \<or> absent c name H)"

definition finalizerDiscipline :: "'w reconciler \<Rightarrow> call \<Rightarrow> call set \<Rightarrow> bool" where
  "finalizerDiscipline r x H =
     (case x of KUpdateBucket b y \<Rightarrow> BucketFinalizer \<notin> set (b_Finalizers b) \<and> released r H | _ \<Rightarrow> True)"

lemma lasting_released [lasting_rules]: "lasting (released r)"
  unfolding released_def by (intro lasting_rules lasting_ex)

lemma assert_seen: "assertBucketEmpty r c name s = (Inr u, s') \<Longrightarrow> cleared name (set (s_calls s'))"
  unfolding assertBucketEmpty_def
  by (elim andThen_InrE) (auto simp: exec cleared_def dest!: BucketEmpty_seen split: if_splits)

lemma prepare_seen: "prepareBucketForDelete r c name s = (Inr u, s') \<Longrightarrow> cleared name (set (s_calls s'))"
proof -
  have wipe: "WipeBucket mc s3 name s = (Inr u, s') \<Longrightarrow> cleared name (set (s_calls s'))" for mc s3 s s'
    by (auto simp: WipeBucket_def ListObjects_def exec cleared_def split: sum.splits option.splits prod.splits)
  have "wipeBucket r c name s = (Inr u, s') \<Longrightarrow> cleared name (set (s_calls s'))" for s s'
    unfolding wipeBucket_def by (elim andThen_InrE) (auto simp: exec intro: wipe)
  then show "prepareBucketForDelete r c name s = (Inr u, s') \<Longrightarrow> cleared name (set (s_calls s'))"
    unfolding prepareBucketForDelete_def
    by (auto simp: reads_def after_def dest: assert_seen elim!: andThen_InrE split: prod.splits if_splits)
qed

lemma only_teardown_steps:
  assumes A: "\<And>x. (\<forall>b y. x \<noteq> KUpdateBucket b y) \<Longrightarrow> A x"
  shows "calls_only A (deleteCloneArtifacts r b st)" "calls_only A (HasBucket c p name)"
    "calls_only A (prepareBucketForDelete r c name)" "calls_only A (releaseWorkloadGroup r c name)"
    "calls_only A (deleteBucketIfOwned r c name)" "calls_only A (deleteSecret r)"
    "calls_only A (reportGroupNotAttributable r c name why)"
proof -
  have adm: "calls_only A (ensureAdmin r c)"
    by (rule only_weaken [OF only_ensureAdmin]) (auto intro!: A simp: adminCall_def)
  have own: "calls_only A (bucketOwnedByUs r c name)" unfolding bucketOwnedByUs_def by (intro only_rules adm) (simp_all add: A)
  have emp: "calls_only A (assertBucketEmpty r c name)" unfolding assertBucketEmpty_def by (intro only_rules adm) (simp_all add: A)
  have wip: "calls_only A (wipeBucket r c name)" unfolding wipeBucket_def by (intro only_rules adm) (simp_all add: A)
  have res: "calls_only A (resolveWorkloadGroup r c b name admin gs False False)" for b admin gs
    by (rule only_weaken [OF only_resolveWorkloadGroup]) (auto intro!: A simp: groupCall_def)
  show "calls_only A (deleteCloneArtifacts r b st)" "calls_only A (HasBucket c p name)" by (intro only_rules; simp add: A)+
  show "calls_only A (prepareBucketForDelete r c name)"
    unfolding prepareBucketForDelete_def by (intro only_rules emp own wip)
  show rep: "calls_only A (reportGroupNotAttributable r c name why)" for why
    unfolding reportGroupNotAttributable_def by (intro only_rules) (simp_all add: A)
  show "calls_only A (releaseWorkloadGroup r c name)"
    unfolding releaseWorkloadGroup_def listGroups_def by (intro only_rules adm res rep) (simp_all add: A)
  show "calls_only A (deleteBucketIfOwned r c name)" unfolding deleteBucketIfOwned_def by (intro only_rules own) (simp_all add: A)
  show "calls_only A (deleteSecret r)" unfolding deleteSecret_def by (intro only_rules only_callOut) (simp_all add: A)
qed

lemma finalizer_other [simp]: "(\<forall>b y. x \<noteq> KUpdateBucket b y) \<Longrightarrow> finalizerDiscipline r x H"
  by (auto simp: finalizerDiscipline_def split: call.split)

lemma teardown_released:
  fixes r :: "'w reconciler"
  assumes c: "r_Stackit r = Some c"
  shows "valid (disc (finalizerDiscipline r) (\<lambda>_. True)) (teardown r c)
    (\<lambda>x. disc (finalizerDiscipline r) (\<lambda>H. case x of Inl e \<Rightarrow> True | Inr u \<Rightarrow> released r H))"
  (is "valid _ _ ?Q")
proof -
  let ?F = "finalizerDiscipline r"
  have R: "lasting (released r)" by (intro lasting_rules)
  have T: "lasting (\<lambda>_. True)" by (intro lasting_rules)
  have go: "valid (disc ?F (released r)) (andThen m k) ?Q"
    if "\<And>A. (\<And>x. (\<forall>b y. x \<noteq> KUpdateBucket b y) \<Longrightarrow> A x) \<Longrightarrow> calls_only A m" "\<And>a. valid (disc ?F (released r)) (k a) ?Q"
    for m :: "('w st, go_error, unit) fallible" and k :: "unit \<Rightarrow> ('w st, go_error, unit) fallible"
    by (rule disc_then [OF R that(1)]) (simp, rule disc_end, simp, rule that(2))
  have sec: "valid (disc ?F (released r)) (reads (\<lambda>s. if isAdminSecret r (s_obj s) then ret () else deleteSecret r)) ?Q"
    by (rule disc_last [where E = "\<lambda>_ _. True", OF R], intro only_rules only_teardown_steps) (simp_all split: sum.split)
  have rest: "valid (disc ?F (\<lambda>H. ex \<or> released r H))
      (andThen (if ex then prepareBucketForDelete r c name else ret ()) (\<lambda>_.
       andThen (if ex then releaseWorkloadGroup r c name
              else andDo (reportGroupNotAttributable r c name why) (ret ())) (\<lambda>_.
       andThen (if ex then deleteBucketIfOwned r c name else ret ()) (\<lambda>_. reads (\<lambda>s.
         if isAdminSecret r (s_obj s) then ret () else deleteSecret r))))) ?Q" for ex name why
    apply (rule disc_check [where E = "\<lambda>x H. case x of Inl e \<Rightarrow> True | Inr u \<Rightarrow> ex \<longrightarrow> released r H"])
        apply (intro lasting_rules)
       apply (intro only_rules only_teardown_steps, simp)
      apply (auto simp: released_def c dest: prepare_seen split: sum.splits if_splits)[1]
     apply (rule disc_end, simp)
    apply (rule disc_weaken [where K = "released r"])
     apply (intro go sec only_rules only_teardown_steps; assumption)
    apply auto
    done
  show ?thesis unfolding teardown_def Let_def
    apply (rule valid_readsI)
    apply (rule disc_then [OF T only_teardown_steps(1)], simp)
     apply (rule disc_end, simp)
    apply (rule disc_check [OF T only_teardown_steps(2)], simp)
      apply (erule HasBucket_seen)
     apply (rule disc_end, simp)
    apply (rule disc_weaken [OF rest])
    apply (auto simp: released_def c absent_def)
    done
qed

lemma dropFinalizer_disc:
  "valid (disc (finalizerDiscipline r) (released r)) (dropFinalizer r) (\<lambda>_. disc (finalizerDiscipline r) (\<lambda>_. True))"
  by (rule validI) (auto simp: dropFinalizer_def updateObj_def exec disc_def finalizerDiscipline_def split: sum.splits)

lemma reconcileDelete_disc:
  "valid (disc (finalizerDiscipline r) (\<lambda>_. True)) (reconcileDelete r) (\<lambda>_. disc (finalizerDiscipline r) (\<lambda>_. True))"
  (is "valid ?P _ ?Q")
proof -
  have T: "lasting (\<lambda>_. True)" by (intro lasting_rules)
  have rel: "valid ?P (releaseAndDrop r c) ?Q" if c: "r_Stackit r = Some c" for c
    unfolding releaseAndDrop_def
    apply (rule valid_readsI, intro valid_if)
     apply (rule disc_end, simp)
    apply (rule valid_check [where E = "\<lambda>_. ?P" and R = "\<lambda>_. disc (finalizerDiscipline r) (released r)"])
      apply (rule valid_weaken [OF teardown_released [OF c]], simp, simp add: disc_def split: sum.splits)
     apply (rule disc_only [OF T]; (intro only_rules)?; simp)
    apply (rule disc_after, (intro lasting_rules)[1], (intro only_rules)[1], rule dropFinalizer_disc)
    done
  show ?thesis unfolding reconcileDelete_def
    apply (rule valid_readsI, intro valid_if valid_option rel)
       apply (rule disc_end, simp)
      apply (rule valid_weaken [OF dropFinalizer_disc], simp add: disc_def released_def, simp)
     apply (rule disc_after [OF T], (intro only_rules)[1])
     apply (rule disc_after [OF T], (intro only_rules; simp)[1])
     apply (intro valid_option rel)
      apply assumption
     apply (rule disc_end, simp)
    apply assumption
    done
qed

section \<open>Properties\<close>


text \<open>An owned bucket that still holds an object, its resource under deletion.\<close>

definition fullBucket :: Bucket where
  "fullBucket = readyBucket\<lparr>b_DeletionTimestamp := Some 0\<rparr>"

definition fullState :: "fworld st" where
  "fullState = (fakeState (taggedWorld\<lparr>fw_crs := [fullBucket], fw_cloud := (fw_cloud taggedWorld)\<lparr>sv_buckets :=
     map (\<lambda>(n, b). (n, b\<lparr>fb_Objects := [\<lparr>o_Key = ''a'', o_VersionID = [], o_IsDeleteMarker = False, o_IsLatest = True, o_Size = 3\<rparr>]\<rparr>))
       (sv_buckets (fw_cloud taggedWorld))\<rparr>\<rparr>) fullBucket)\<lparr>s_admin := Some fakeAdmin\<rparr>"




text \<open>A blocked delete counts as a provider failure. A teardown that ends in an error, the data-loss
  guard of a bucket that is not empty included, is reported to the breaker exactly once, and the
  breaker decides whether the error is returned: a resource whose deletion is refused for its own
  contents moves the fleet-wide circuit towards open.\<close>

lemma blocked_delete_feeds_breaker:
  assumes "snd (breakerAllow r s)" and "teardown r c s = (Inl e, s1)"
  shows "\<exists>now. s_breaker (snd (releaseAndDrop r c s)) = snd (Failure (s_breaker s1) now) \<and>
    fst (releaseAndDrop r c s) = (case fst (Failure (s_breaker s1) now) of (wait, opened) \<Rightarrow> if opened then (wait, None) else (0, Some e))"
proof -
  have "s_breaker (snd (degrade r e t)) = s_breaker t" for t
    by (auto simp: degrade_def exec Let_def updateStatus_run split: option.split)
  moreover have "releaseAndDrop r c s = fail r e s1" using assms by (simp add: releaseAndDrop_def exec)
  moreover define s2 where "s2 = snd ((if fst (degrade r e s1) then finish () else markFailed r e) (snd (degrade r e s1)))"
  ultimately show ?thesis
    by (intro exI [of _ "clock (r_sys r) s2"]) (simp add: s2_def fail_def exec markFailed_def markFailedReason_run split: prod.split)
qed

end
