(* ===== verification/Controller.thy ===== *)
theory Controller
  imports Teardown
begin

text \<open>
  The entry points of the controller, \<open>internal/controller/bucket_controller.go\<close>: \<open>Reconcile\<close>
  with the finalizer, skeleton mode and the breaker's gate, and the functions that map watch events
  to the Buckets to reconcile. Of a watched object the maps read its namespace, name, labels and
  annotations.
\<close>

section \<open>Reconcile\<close>

definition skeletonMessage :: string where
  "skeletonMessage = ''operator skeleton: no StackIT service-account key configured''"

definition reconcileSkeleton :: "'w reconciler \<Rightarrow> ('w st, Result) handler" where
  "reconcileSkeleton r =
     andDo (modObj (\<lambda>b. b\<lparr>b_Status := (b_Status b)\<lparr>
         st_Conditions := setCondition (condition ConditionReady False ReasonNotImplemented skeletonMessage) (st_Conditions (b_Status b)),
         st_Phase := PhasePending, st_Message := skeletonMessage, st_ObservedGeneration := b_Generation b,
         st_OperatorVersion := r_OperatorVersion r\<rparr>\<rparr>))
       (after (updateStatus r) (\<lambda>err. finish (0, ignoreNotFound err)))"

definition gated :: "'w reconciler \<Rightarrow> 'w client \<Rightarrow> ('w st, Result) handler" where
  "gated r c = reads (\<lambda>s.
     if \<not> snd (breakerAllow r s) then holdForProvider r (fst (breakerAllow r s)) else reconcileNormal r c)"

definition ensureFinalizer :: "'w reconciler \<Rightarrow> ('w st, go_error option) handler" where
  "ensureFinalizer r = reads (\<lambda>s.
     if BucketFinalizer \<in> set (b_Finalizers (s_obj s)) then finish None
     else andDo (modObj (\<lambda>b. b\<lparr>b_Finalizers := b_Finalizers b @ [BucketFinalizer]\<rparr>)) (updateObj r))"

definition Reconcile :: "'w reconciler \<Rightarrow> string \<Rightarrow> string \<Rightarrow> ('w st, Result) handler" where
  "Reconcile r ns n =
     check (callOut (k_GetBucket (r_kube r) ns n) (\<lambda>x. KGetBucket ns n (isOk x)))
       (\<lambda>err. finish (0, ignoreNotFound (Some err)))
       (\<lambda>b. andDo (modObj (\<lambda>_. b))
          (if b_DeletionTimestamp b \<noteq> None then reconcileDelete r
           else after (ensureFinalizer r) (\<lambda>err. case err of Some e \<Rightarrow> finish (0, Some e)
             | None \<Rightarrow> (case r_Stackit r of None \<Rightarrow> reconcileSkeleton r | Some c \<Rightarrow> gated r c))))"

section \<open>Watches\<close>

record Object =
  ob_Namespace :: string
  ob_Name :: string
  ob_Labels :: "string gomap"
  ob_Annotations :: "string gomap"

datatype bucketEvent =
    CreateEvent
  | DeleteEvent
  | GenericEvent
  | UpdateEvent "Bucket option" "Bucket option"

definition granteeCredentialsPredicate :: "bucketEvent \<Rightarrow> bool" where
  "granteeCredentialsPredicate e =
     (case e of CreateEvent \<Rightarrow> True | DeleteEvent \<Rightarrow> True | GenericEvent \<Rightarrow> False
      | UpdateEvent (Some oldB) (Some newB) \<Rightarrow>
          if (b_DeletionTimestamp oldB = None) \<noteq> (b_DeletionTimestamp newB = None) then True
          else st_CredentialsGroupURN (b_Status oldB) \<noteq> st_CredentialsGroupURN (b_Status newB)
      | _ \<Rightarrow> False)"

definition listBucketsIn :: "'w reconciler \<Rightarrow> string \<Rightarrow> ('w st, go_error, Bucket list) fallible" where
  "listBucketsIn r ns = callOut (k_ListBuckets (r_kube r) ns) (\<lambda>x. KListBuckets ns (isOk x))"

definition bucketsGrantingTo :: "'w reconciler \<Rightarrow> Object \<Rightarrow> ('w st, (string \<times> string) list) handler" where
  "bucketsGrantingTo r obj =
     check (listBucketsIn r (ob_Namespace obj)) (\<lambda>_. finish [])
       (\<lambda>items. finish (map objKey (filter (\<lambda>b. b_Name b \<noteq> ob_Name obj \<and>
          list_ex (\<lambda>ref. lb_Name ref = ob_Name obj) (sp_GrantReadAccess (b_Spec b))) items)))"

definition isCloneJob :: "Object \<Rightarrow> bool" where
  "isCloneJob obj \<longleftrightarrow> mget (ob_Labels obj) managedByLabel = managedByValue \<and>
     mget (ob_Labels obj) cloneComponentLabel = cloneComponentValue"

definition bucketsForCloneJob :: "Object \<Rightarrow> (string \<times> string) list" where
  "bucketsForCloneJob obj =
     (let ns = mget (ob_Annotations obj) cloneBucketNamespaceAnnotation; name = mget (ob_Annotations obj) cloneBucketNameAnnotation in
      if ns = [] \<or> name = [] then [] else [(ns, name)])"

definition isManagedSecret :: "Object \<Rightarrow> bool" where
  "isManagedSecret obj \<longleftrightarrow> mget (ob_Labels obj) managedByLabel = managedByValue"

definition bucketsForSecret :: "'w reconciler \<Rightarrow> Object \<Rightarrow> ('w st, (string \<times> string) list) handler" where
  "bucketsForSecret r obj =
     check (listBucketsIn r (ob_Namespace obj)) (\<lambda>_. finish [])
       (\<lambda>items. finish (map objKey (filter (\<lambda>b. sr_Name (sp_SecretRef (b_Spec b)) = ob_Name obj) items)))"

text \<open>The metadata of a Job and of a Secret, as the watch sees them.\<close>

definition jobObject :: "Job \<Rightarrow> Object" where
  "jobObject j = \<lparr>ob_Namespace = job_Namespace j, ob_Name = job_Name j, ob_Labels = job_Labels j, ob_Annotations = job_Annotations j\<rparr>"

definition secretObject :: "string \<Rightarrow> string \<Rightarrow> Secret \<Rightarrow> Object" where
  "secretObject ns n sec = \<lparr>ob_Namespace = ns, ob_Name = n, ob_Labels = sec_Labels sec, ob_Annotations = []\<rparr>"

section \<open>Who is called\<close>

text \<open>Calls to the cluster.\<close>

definition kubeCall :: "call \<Rightarrow> bool" where
  "kubeCall x = (case x of KGetBucket _ _ _ \<Rightarrow> True | KUpdateBucket _ _ \<Rightarrow> True | KUpdateStatus _ _ \<Rightarrow> True
     | KPatchStatus _ _ _ \<Rightarrow> True | KListBuckets _ _ \<Rightarrow> True | KGetSecret _ _ _ \<Rightarrow> True | KUpsertSecret _ _ _ \<Rightarrow> True
     | KDeleteSecret _ _ _ \<Rightarrow> True | KGetJob _ _ _ \<Rightarrow> True | KCreateJob _ _ \<Rightarrow> True | KDeleteJob _ _ _ \<Rightarrow> True
     | KListPods _ _ _ \<Rightarrow> True | KCloneStats _ \<Rightarrow> True | _ \<Rightarrow> False)"

text \<open>The finalizer of the object read is stored before anything else than the cluster is called.\<close>

definition finalizerStored :: "Bucket \<Rightarrow> call set \<Rightarrow> bool" where
  "finalizerStored b0 H \<longleftrightarrow> BucketFinalizer \<in> set (b_Finalizers b0) \<or>
     (\<exists>b. BucketFinalizer \<in> set (b_Finalizers b) \<and> KUpdateBucket b True \<in> H)"

definition finalizerFirst :: "Bucket \<Rightarrow> call \<Rightarrow> call set \<Rightarrow> bool" where
  "finalizerFirst b0 x H \<longleftrightarrow> kubeCall x \<or> finalizerStored b0 H"

lemma lasting_finalizerStored [lasting_rules]: "lasting (finalizerStored b0)"
  unfolding finalizerStored_def by (intro lasting_rules)

lemma only_ensureFinalizer [only_rules]: "(\<And>b y. A (KUpdateBucket b y)) \<Longrightarrow> calls_only A (ensureFinalizer r)"
  unfolding ensureFinalizer_def by (intro only_rules)

lemma only_reconcileSkeleton: "(\<And>b y. A (KUpdateStatus b y)) \<Longrightarrow> calls_only A (reconcileSkeleton r)"
  unfolding reconcileSkeleton_def by (intro only_rules)

lemma only_dropFinalizer: "(\<And>b y. A (KUpdateBucket b y)) \<Longrightarrow> calls_only A (dropFinalizer r)"
  unfolding dropFinalizer_def by (intro only_rules only_sets) simp_all

lemma any_provision: "calls_only anyCall (provisionBucket r c name changes)"
proof -
  have adm: "calls_only anyCall (ensureAdmin r c)" by (rule only_weaken [OF only_ensureAdmin]) simp
  have grp: "calls_only anyCall (resolveWorkloadGroup r c b n admin gs cr f)" for b n admin gs cr f
    by (rule only_weaken [OF only_resolveWorkloadGroup]) simp
  have gra: "calls_only anyCall (resolveReadGrants r c b admin gs)" for b admin gs by (rule only_resolveGrants; simp)
  have cln: "calls_only anyCall (ensureClone r c n u)" for n u by (rule only_ensureClone; simp)
  have fin: "calls_only anyCall (finishPass r n u cr ch)" for n u cr ch by (rule only_finishPass) simp
  show ?thesis
    unfolding provisionBucket_def provisionCredentialsAndClone_def cloneStep_def applyPolicy_def issueCredentials_def
      guardBucketPresent_def reportAuthorizedRecreate_def stops_def listGroups_def
    by (intro only_rules only_sets adm grp gra cln fin; simp)
qed

lemma any_normal: "calls_only anyCall (reconcileNormal r c)"
  unfolding reconcileNormal_def by (intro only_rules any_provision; simp)

lemma any_delete: "calls_only anyCall (reconcileDelete r)"
proof -
  have td: "calls_only anyCall (teardown r c)" for c
    unfolding teardown_def by (intro only_rules only_teardown_steps; simp)
  have dr: "calls_only anyCall (dropFinalizer r)" by (rule only_dropFinalizer) simp
  show ?thesis unfolding reconcileDelete_def releaseAndDrop_def by (intro only_rules td dr; simp)
qed

lemma ensureFinalizer_stored:
  assumes "ensureFinalizer r s = (None, s')" and "s_obj s = b0"
  shows "finalizerStored b0 (set (s_calls s'))"
  using assms by (auto simp: ensureFinalizer_def updateObj_def exec finalizerStored_def split: if_splits sum.splits)
    (rule exI [of _ "(s_obj s)\<lparr>b_Finalizers := b_Finalizers (s_obj s) @ [BucketFinalizer]\<rparr>"], simp)

lemma Reconcile_disc:
  assumes got: "fst (k_GetBucket (r_kube r) ns n (s_world s)) = Inr b0" and "s_calls s = []"
  shows "disciplined (finalizerFirst b0) (s_calls (snd (Reconcile r ns n s)))"
proof -
  let ?G = "finalizerFirst b0"
  let ?s1 = "s\<lparr>s_world := snd (k_GetBucket (r_kube r) ns n (s_world s)), s_calls := KGetBucket ns n True # s_calls s, s_obj := b0\<rparr>"
  have F: "lasting (finalizerStored b0)" and T: "lasting (\<lambda>_. True)" by (intro lasting_rules)+
  have all: "valid (disc ?G (finalizerStored b0)) m (\<lambda>_. disc ?G (\<lambda>_. True))" if "calls_only anyCall m" for m :: "('a st, Result) handler"
    by (rule disc_only [OF F only_weaken [OF that]]) (simp_all add: finalizerFirst_def)
  have kube: "valid (disc ?G (\<lambda>_. True)) m (\<lambda>_. disc ?G (\<lambda>_. True))" if "calls_only kubeCall m" for m :: "('a st, Result) handler"
    by (rule disc_only [OF T only_weaken [OF that]]) (simp_all add: finalizerFirst_def)
  have del: "valid (\<lambda>s. onObj b0 s \<and> disc ?G (\<lambda>_. True) s) (reconcileDelete r) (\<lambda>_. disc ?G (\<lambda>_. True))"
  proof (cases "BucketFinalizer \<in> set (b_Finalizers b0)")
    case True
    then show ?thesis
      by (intro valid_weaken [OF all [OF any_delete]]) (auto simp: disc_def finalizerStored_def)
  next
    case False
    then show ?thesis by (auto simp: valid_def reconcileDelete_def exec onObj_def)
  qed
  have tail: "valid (disc ?G (finalizerStored b0)) (case r_Stackit r of None \<Rightarrow> reconcileSkeleton r | Some c \<Rightarrow> gated r c)
      (\<lambda>_. disc ?G (\<lambda>_. True))"
    unfolding gated_def by (rule all, intro only_rules only_reconcileSkeleton any_normal; simp)
  have live: "valid (\<lambda>s. onObj b0 s \<and> disc ?G (\<lambda>_. True) s) (after (ensureFinalizer r) (\<lambda>err. case err of Some e \<Rightarrow> finish (0, Some e)
      | None \<Rightarrow> (case r_Stackit r of None \<Rightarrow> reconcileSkeleton r | Some c \<Rightarrow> gated r c))) (\<lambda>_. disc ?G (\<lambda>_. True))"
  proof (rule valid_after)
    show "valid (\<lambda>s. onObj b0 s \<and> disc ?G (\<lambda>_. True) s) (ensureFinalizer r)
        (\<lambda>x. disc ?G (\<lambda>H. x = None \<longrightarrow> finalizerStored b0 H))"
    proof (rule validI, elim conjE)
      fix s x s'
      assume s: "onObj b0 s" "disc ?G (\<lambda>_. True) s" and run: "ensureFinalizer r s = (x, s')"
      have "valid (disc ?G (\<lambda>_. True)) (ensureFinalizer r) (\<lambda>_. disc ?G (\<lambda>_. True))"
        by (rule disc_only [OF T]) (intro only_rules; simp add: finalizerFirst_def kubeCall_def)+
      from validD [OF this s(2) run] show "disc ?G (\<lambda>H. x = None \<longrightarrow> finalizerStored b0 H) s'"
        using ensureFinalizer_stored [of r s s' b0] run s(1) by (auto simp: disc_def onObj_def)
    qed
    show "valid (disc ?G (\<lambda>H. x = None \<longrightarrow> finalizerStored b0 H)) (case x of Some e \<Rightarrow> finish (0, Some e)
        | None \<Rightarrow> (case r_Stackit r of None \<Rightarrow> reconcileSkeleton r | Some c \<Rightarrow> gated r c)) (\<lambda>_. disc ?G (\<lambda>_. True))" for x
    proof (cases x)
      case None
      with tail show ?thesis by simp
    next
      case (Some e)
      then show ?thesis by (auto intro!: valid_end simp: disc_def)
    qed
  qed
  have s1: "onObj b0 ?s1 \<and> disc ?G (\<lambda>_. True) ?s1"
    using assms(2) by (simp add: onObj_def disc_def finalizerFirst_def kubeCall_def)
  have run: "Reconcile r ns n s = (if b_DeletionTimestamp b0 \<noteq> None then reconcileDelete r ?s1
      else after (ensureFinalizer r) (\<lambda>err. case err of Some e \<Rightarrow> finish (0, Some e)
        | None \<Rightarrow> (case r_Stackit r of None \<Rightarrow> reconcileSkeleton r | Some c \<Rightarrow> gated r c)) ?s1)"
    using got by (simp add: Reconcile_def exec)
  show ?thesis
    unfolding run using validD [OF del s1 prod.collapse [symmetric]] validD [OF live s1 prod.collapse [symmetric]]
    by (simp add: disc_def)
qed

section \<open>Properties\<close>

text \<open>C11: no provider work without a finalizer. In every history \<open>Reconcile\<close> leaves, a call to
  anything but the cluster was made only if the resource it read carries the finalizer, or the
  update that adds it was stored before: a resource whose cloud objects exist cannot disappear
  unnoticed.\<close>

theorem finalizer_before_provider:
  assumes "fst (k_GetBucket (r_kube r) ns n (s_world s)) = Inr b" and "s_calls s = []"
  shows "disciplined (finalizerFirst b) (s_calls (snd (Reconcile r ns n s)))"
  by (rule Reconcile_disc [OF assms])

theorem finalizer_before_provider_witness:
  "disciplined (finalizerFirst fullBucket) (s_calls (snd (Reconcile fakeReconciler ''team'' ''data'' fullState)))"
proof (rule finalizer_before_provider)
  show "fst (k_GetBucket (r_kube fakeReconciler) ''team'' ''data'' (s_world fullState)) = Inr fullBucket"
    by (simp add: fullState_def fakeReconciler_def fakeKube_def fakeState_def fullBucket_def readyBucket_def sampleBucket_def)
qed (simp add: fullState_def fakeState_def)



text \<open>C34: the watches reach the right Buckets. The Job built for a clone is recognised by the Job
  watch and maps back to the Bucket it was built for; the Secret map and the grant map of a listing
  yield exactly the requests of the Buckets in it whose Secret, or one of whose grants, the object
  is (a self-reference apart), each once per Bucket; and a status write wakes the grantors only if
  it changes the credentials group URN.\<close>

theorem watches_exact:
  assumes "b_Namespace b \<noteq> []" and "b_Name b \<noteq> []"
    and "fst (k_ListBuckets (r_kube r) (ob_Namespace obj) (s_world s)) = Inr items"
  shows "isCloneJob (jobObject (buildCloneJob r c b name u src staging)) \<and>
    bucketsForCloneJob (jobObject (buildCloneJob r c b name u src staging)) = [(b_Namespace b, b_Name b)] \<and>
    fst (bucketsForSecret r obj s) = [objKey x. x \<leftarrow> items, sr_Name (sp_SecretRef (b_Spec x)) = ob_Name obj] \<and>
    fst (bucketsGrantingTo r obj s) = [objKey x. x \<leftarrow> items, b_Name x \<noteq> ob_Name obj \<and>
      ob_Name obj \<in> lb_Name ` set (sp_GrantReadAccess (b_Spec x))] \<and>
    (granteeCredentialsPredicate (UpdateEvent (Some b) (Some (b\<lparr>b_Status := t\<rparr>))) \<longleftrightarrow>
      st_CredentialsGroupURN t \<noteq> st_CredentialsGroupURN (b_Status b))"
proof -
  have f: "map g (filter P xs) = concat (map (\<lambda>x. if P x then [g x] else []) xs)" for P xs and g :: "Bucket \<Rightarrow> string \<times> string"
    by (induction xs) auto
  have "isCloneJob (jobObject (buildCloneJob r c b name u src staging)) \<and>
      bucketsForCloneJob (jobObject (buildCloneJob r c b name u src staging)) = [(b_Namespace b, b_Name b)]"
    using assms(1,2) by (simp add: isCloneJob_def jobObject_def buildCloneJob_def bucketsForCloneJob_def Let_def mget_def
        managedByLabel_def cloneComponentLabel_def cloneBucketNamespaceAnnotation_def cloneBucketNameAnnotation_def)
  moreover have ex: "list_ex (\<lambda>ref. lb_Name ref = ob_Name obj) rs \<longleftrightarrow> ob_Name obj \<in> lb_Name ` set rs" for rs
    by (force simp: list_ex_iff)
  ultimately show ?thesis using assms(3)
    by (auto simp: bucketsForSecret_def bucketsGrantingTo_def listBucketsIn_def exec f ex granteeCredentialsPredicate_def)
qed

theorem watches_exact_witness:
  "fst (bucketsForSecret fakeReconciler (secretObject ''team'' ''data-creds'' zeroSecret) fullState) =
     [objKey x. x \<leftarrow> [fullBucket], sr_Name (sp_SecretRef (b_Spec x)) = ''data-creds'']"
proof -
  have l: "fst (k_ListBuckets (r_kube fakeReconciler) (ob_Namespace (secretObject ''team'' ''data-creds'' zeroSecret)) (s_world fullState)) =
      Inr [fullBucket]"
    by (simp add: fullState_def fakeReconciler_def fakeKube_def fakeState_def fullBucket_def readyBucket_def sampleBucket_def secretObject_def)
  have "b_Namespace fullBucket \<noteq> []" "b_Name fullBucket \<noteq> []" by (simp_all add: fullBucket_def readyBucket_def sampleBucket_def)
  from watches_exact [OF this l] show ?thesis by (simp add: secretObject_def)
qed

end
