(* ===== verification/KeyReload.thy ===== *)
theory KeyReload
  imports Breaker Errors
begin

text \<open>
  The reload of the service-account key: \<open>Account\<close> and \<open>parseAccount\<close> of \<open>stackit/client.go\<close>,
  \<open>stackit/keyreload.go\<close> and the observer of \<open>internal/controller/sakey_reload.go\<close>.

  One poll is a function of the poller's state and of what the poll meets: the read of the key file,
  the decoding of its JSON, the SDK's client constructor, the answer of the probe (\<open>GetServiceStatus\<close>
  with the candidate), and whether the context was cancelled before the probe answered or by the end
  of the poll. SHA-256 is a parameter of the hash. A connection pool is a value of type \<open>'t\<close>; the
  pools that were drained are kept as a history.

  The properties say that a bad candidate changes nothing, that the project never changes, how far
  apart the retries of a rejected candidate are, and that a good key is adopted at the next poll.
\<close>

section \<open>Accounts\<close>

record Account =
  a_ProjectID :: string
  a_Issuer :: string
  a_KeyPath :: string
  a_ValidUntil :: "int option"

definition zeroAccount :: Account where
  "zeroAccount = \<lparr>a_ProjectID = [], a_Issuer = [], a_KeyPath = [], a_ValidUntil = None\<rparr>"

record keyDoc =
  kd_ProjectID :: string
  kd_ValidUntil :: "int option"
  kd_Iss :: string

definition parseAccount :: "(string \<Rightarrow> go_error + keyDoc) \<Rightarrow> string \<Rightarrow> string \<Rightarrow> go_error + Account" where
  "parseAccount decode raw keyPath =
     (if raw = [] then Inl (Msg (''key file '' @ keyPath @ '' is empty''))
      else case decode raw of
        Inl err \<Rightarrow> Inl (wrapf (''parse key file '' @ keyPath @ '': '') err)
      | Inr doc \<Rightarrow>
          if kd_ProjectID doc = [] then Inl (Msg (''key file '' @ keyPath @ '' has no projectId field''))
          else Inr \<lparr>a_ProjectID = kd_ProjectID doc, a_Issuer = kd_Iss doc, a_KeyPath = keyPath, a_ValidUntil = kd_ValidUntil doc\<rparr>)"

record ('a, 't) clientState =
  cs_api :: 'a
  cs_account :: Account
  cs_transport :: "'t option"
  cs_keyHash :: string

section \<open>One poll\<close>

definition reloadRejectBackoffMax :: int where "reloadRejectBackoffMax = 600 * 10 ^ 9"

datatype ReloadOutcome = ReloadUnchanged | ReloadApplied | ReloadRejected

record ReloadResult =
  rr_Outcome :: ReloadOutcome
  rr_Hash :: string
  rr_Account :: Account
  rr_Err :: "go_error option"
  rr_Definitive :: bool
  rr_Repeated :: bool

text \<open>What a poll meets.\<close>

record ('a, 't) poll =
  p_file :: "go_error + string"
  p_decode :: "string \<Rightarrow> go_error + keyDoc"
  p_build :: "string \<Rightarrow> go_error + 'a \<times> 't"
  p_probe :: "'a \<Rightarrow> string \<Rightarrow> go_error option"
  p_abandoned :: bool
  p_cancelled :: bool
  p_ctxErr :: go_error

text \<open>The poller with its client; no outcome yet is the empty outcome of the code.\<close>

record ('a, 't) KeyReloader =
  k_client :: "('a, 't) clientState"
  k_keyPath :: string
  k_interval :: int
  k_lastHash :: string
  k_lastOutcome :: "ReloadOutcome option"
  k_backoffHash :: string
  k_waitIntervals :: int
  k_ticksLeft :: int
  k_drained :: "'t list"

definition NewKeyReloader :: "('a, 't) clientState \<Rightarrow> string \<Rightarrow> int \<Rightarrow> ('a, 't) KeyReloader" where
  "NewKeyReloader client keyPath interval =
     \<lparr>k_client = client, k_keyPath = keyPath, k_interval = interval, k_lastHash = [], k_lastOutcome = None, k_backoffHash = [],
       k_waitIntervals = 1, k_ticksLeft = 0, k_drained = []\<rparr>"

definition readKeyFile :: "(string \<Rightarrow> string) \<Rightarrow> go_error + string \<Rightarrow> go_error + string \<times> string" where
  "readKeyFile hash file = (case file of Inl err \<Rightarrow> Inl (wrapf ''read key file: '' err) | Inr raw \<Rightarrow> Inr (raw, hash raw))"

definition definitive :: "go_error \<Rightarrow> go_error" where
  "definitive err = Definitive err"

definition reload :: "('a, 't) poll \<Rightarrow> string \<Rightarrow> string \<Rightarrow> Account \<Rightarrow> ('a, 't) KeyReloader \<Rightarrow> go_error option \<times> ('a, 't) KeyReloader" where
  "reload p raw hash acc k =
     (let c = k_client k; project = a_ProjectID (cs_account c) in
      if a_ProjectID acc \<noteq> project
      then (Some (definitive (Msg (''candidate key names project '' @ a_ProjectID acc @ '', the operator is bound to '' @ project))), k)
      else case p_build p raw of
        Inl err \<Rightarrow> (Some (definitive (wrapf ''build a client from the candidate key: '' err)), k)
      | Inr (api, transport) \<Rightarrow>
          if p_abandoned p then (Some (p_ctxErr p), k)
          else case p_probe p api (a_ProjectID acc) of
            Some probeErr \<Rightarrow>
              (Some (if ProviderRefused probeErr then definitive (wrapf ''provider refused the candidate key: '' probeErr)
                 else wrapf ''probe the candidate key: '' probeErr), k\<lparr>k_drained := transport # k_drained k\<rparr>)
          | None \<Rightarrow>
              (None, k\<lparr>k_client := \<lparr>cs_api = api, cs_account = acc, cs_transport = Some transport, cs_keyHash = hash\<rparr>,
                 k_drained := (case cs_transport c of None \<Rightarrow> k_drained k | Some t \<Rightarrow> t # k_drained k)\<rparr>))"

definition settled :: "ReloadOutcome \<Rightarrow> string \<Rightarrow> Account \<Rightarrow> ('a, 't) KeyReloader \<Rightarrow> ReloadResult \<times> ('a, 't) KeyReloader" where
  "settled outcome hash acc k =
     (\<lparr>rr_Outcome = outcome, rr_Hash = hash, rr_Account = acc, rr_Err = None, rr_Definitive = False,
        rr_Repeated = (k_lastOutcome k = Some outcome \<and> k_lastHash k = hash)\<rparr>,
      k\<lparr>k_lastOutcome := Some outcome, k_lastHash := hash, k_waitIntervals := 1, k_ticksLeft := 0, k_backoffHash := []\<rparr>)"

definition maxWaitIntervals :: "('a, 't) KeyReloader \<Rightarrow> int" where
  "maxWaitIntervals k = max 1 (reloadRejectBackoffMax div k_interval k)"

definition schedule :: "string \<Rightarrow> ('a, 't) KeyReloader \<Rightarrow> ('a, 't) KeyReloader" where
  "schedule hash k =
     (let k1 = (if hash \<noteq> k_backoffHash k then k\<lparr>k_waitIntervals := 1, k_backoffHash := hash\<rparr> else k) in
      k1\<lparr>k_ticksLeft := k_waitIntervals k1 - 1, k_waitIntervals := min (k_waitIntervals k1 * 2) (maxWaitIntervals k1)\<rparr>)"

definition rejected :: "string \<Rightarrow> go_error \<Rightarrow> bool \<Rightarrow> ('a, 't) KeyReloader \<Rightarrow> ReloadResult \<times> ('a, 't) KeyReloader" where
  "rejected hash err isDefinitiveRejection k =
     (\<lparr>rr_Outcome = ReloadRejected, rr_Hash = hash, rr_Account = zeroAccount, rr_Err = Some err, rr_Definitive = isDefinitiveRejection,
        rr_Repeated = (k_lastOutcome k = Some ReloadRejected \<and> k_lastHash k = hash)\<rparr>,
      (if isDefinitiveRejection then schedule hash k else k\<lparr>k_ticksLeft := 0\<rparr>)
        \<lparr>k_lastOutcome := Some ReloadRejected, k_lastHash := hash\<rparr>)"

text \<open>\<open>None\<close>: the poll is not reported.\<close>

definition reported :: "ReloadResult \<times> 's \<Rightarrow> ReloadResult option \<times> 's" where
  "reported x = (Some (fst x), snd x)"

definition tick :: "(string \<Rightarrow> string) \<Rightarrow> ('a, 't) poll \<Rightarrow> ('a, 't) KeyReloader \<Rightarrow> ReloadResult option \<times> ('a, 't) KeyReloader" where
  "tick h p k =
     (case readKeyFile h (p_file p) of
        Inl err \<Rightarrow> reported (rejected [] err False k)
      | Inr (raw, hash) \<Rightarrow>
          if hash = cs_keyHash (k_client k) then reported (settled ReloadUnchanged hash zeroAccount k)
          else if hash = k_backoffHash k \<and> 0 < k_ticksLeft k then (None, k\<lparr>k_ticksLeft := k_ticksLeft k - 1\<rparr>)
          else case parseAccount (p_decode p) raw (k_keyPath k) of
            Inl err \<Rightarrow> reported (rejected hash (definitive err) True k)
          | Inr acc \<Rightarrow>
              (case reload p raw hash acc k of
                 (Some err, k1) \<Rightarrow> if p_cancelled p then (None, k1) else reported (rejected hash err (isDefinitive err) k1)
               | (None, k1) \<Rightarrow> reported (settled ReloadApplied hash (cs_account (k_client k1)) k1)))"

text \<open>\<open>Start\<close> with a positive interval: the polls until the context is cancelled, and what the
  observer was handed.\<close>

primrec Start :: "(string \<Rightarrow> string) \<Rightarrow> ('a, 't) poll list \<Rightarrow> ('a, 't) KeyReloader \<Rightarrow> ReloadResult list \<times> ('a, 't) KeyReloader" where
  "Start h [] k = ([], k)"
| "Start h (p # ps) k =
     (let (res, k1) = tick h p k; (rest, k2) = Start h ps k1 in ((case res of None \<Rightarrow> rest | Some r \<Rightarrow> r # rest), k2))"

section \<open>The observer\<close>

record SAKeyReloadObserver =
  ob_breaker :: "ProviderBreaker option"
  ob_applied :: int
  ob_rejected :: int
  ob_unchanged :: int
  ob_loadedAt :: int
  ob_validUntil :: int
  ob_failing :: bool

definition adopt :: "Account \<Rightarrow> int \<Rightarrow> SAKeyReloadObserver \<Rightarrow> SAKeyReloadObserver" where
  "adopt acc now o' = o'\<lparr>ob_loadedAt := now, ob_validUntil := (case a_ValidUntil acc of Some v \<Rightarrow> v | None \<Rightarrow> 0)\<rparr>"

definition NewSAKeyReloadObserver :: "ProviderBreaker option \<Rightarrow> Account \<Rightarrow> int \<Rightarrow> SAKeyReloadObserver" where
  "NewSAKeyReloadObserver br initial now = adopt initial now
     \<lparr>ob_breaker = br, ob_applied = 0, ob_rejected = 0, ob_unchanged = 0, ob_loadedAt = 0, ob_validUntil = 0, ob_failing = False\<rparr>"

definition Observe :: "ReloadResult \<times> int \<Rightarrow> SAKeyReloadObserver \<Rightarrow> SAKeyReloadObserver" where
  "Observe rn o' =
     (case rn of (res, now) \<Rightarrow>
      case rr_Outcome res of
        ReloadApplied \<Rightarrow> (adopt (rr_Account res) now (o'\<lparr>ob_applied := ob_applied o' + 1, ob_failing := False\<rparr>))
          \<lparr>ob_breaker := Success (ob_breaker o')\<rparr>
      | ReloadRejected \<Rightarrow> o'\<lparr>ob_rejected := ob_rejected o' + 1, ob_failing := True\<rparr>
      | ReloadUnchanged \<Rightarrow> o'\<lparr>ob_unchanged := ob_unchanged o' + 1, ob_failing := False\<rparr>)"

definition count :: "ReloadOutcome \<Rightarrow> SAKeyReloadObserver \<Rightarrow> int" where
  "count result o' = (case result of ReloadApplied \<Rightarrow> ob_applied o' | ReloadRejected \<Rightarrow> ob_rejected o' | ReloadUnchanged \<Rightarrow> ob_unchanged o')"

text \<open>The samples of one scrape, by metric and label.\<close>

definition Collect_samples :: "SAKeyReloadObserver \<Rightarrow> (string \<times> string \<times> int) list" where
  "Collect_samples o' =
     [(''stackit_s3_provisioner_sa_key_reload_total'', ''applied'', count ReloadApplied o'), (''stackit_s3_provisioner_sa_key_reload_total'', ''rejected'', count ReloadRejected o'),
      (''stackit_s3_provisioner_sa_key_reload_total'', ''unchanged'', count ReloadUnchanged o'),
      (''stackit_s3_provisioner_sa_key_loaded_timestamp_seconds'', [], ob_loadedAt o'), (''stackit_s3_provisioner_sa_key_reload_failing'', [], if ob_failing o' then 1 else 0)] @
     (if ob_validUntil o' \<noteq> 0 then [(''stackit_s3_provisioner_sa_key_valid_until_timestamp_seconds'', [], ob_validUntil o')] else [])"

section \<open>Steps\<close>

lemma definitive_is: "isDefinitive (definitive e)"
  by (simp add: definitive_def isDefinitive_def)

text \<open>The fields a step may touch.\<close>

lemma settled_simps [simp]:
  "k_client (snd (settled oc h a k)) = k_client k" "k_interval (snd (settled oc h a k)) = k_interval k"
  "k_waitIntervals (snd (settled oc h a k)) = 1" "k_ticksLeft (snd (settled oc h a k)) = 0"
  "rr_Outcome (fst (settled oc h a k)) = oc" "k_keyPath (snd (settled oc h a k)) = k_keyPath k"
  by (simp_all add: settled_def)

lemma rejected_simps [simp]:
  "k_client (snd (rejected h e d k)) = k_client k" "k_interval (snd (rejected h e d k)) = k_interval k"
  "rr_Outcome (fst (rejected h e d k)) = ReloadRejected" "k_keyPath (snd (rejected h e d k)) = k_keyPath k"
  by (simp_all add: rejected_def schedule_def Let_def)

lemma reported_simps [simp]: "reported x = (Some (fst x), snd x)"
  by (simp add: reported_def)

lemma maxWait_pos: "1 \<le> maxWaitIntervals k"
  by (simp add: maxWaitIntervals_def)

lemma maxWait_cap:
  assumes "0 < k_interval k"
  shows "maxWaitIntervals k * k_interval k \<le> max (k_interval k) reloadRejectBackoffMax"
proof -
  have "reloadRejectBackoffMax div k_interval k * k_interval k \<le> reloadRejectBackoffMax"
    using div_mult_mod_eq [of reloadRejectBackoffMax "k_interval k"] pos_mod_sign [OF assms, of reloadRejectBackoffMax] by linarith
  then show ?thesis by (auto simp: maxWaitIntervals_def max_def)
qed

text \<open>The client after \<open>reload\<close>: untouched with an error, and otherwise one whose probe succeeded.\<close>

lemma reload_client:
  assumes "reload p raw hash acc k = (res, k')"
  shows "case res of
      Some e \<Rightarrow> k_client k' = k_client k
    | None \<Rightarrow> a_ProjectID acc = a_ProjectID (cs_account (k_client k)) \<and>
        (\<exists>api t. p_build p raw = Inr (api, t) \<and> p_probe p api (a_ProjectID acc) = None \<and>
           k_client k' = \<lparr>cs_api = api, cs_account = acc, cs_transport = Some t, cs_keyHash = hash\<rparr>)"
  using assms by (auto simp: reload_def Let_def split: if_splits sum.splits option.splits prod.splits)

lemma reload_fields:
  assumes "reload p raw hash acc k = (res, k')"
  shows "k_interval k' = k_interval k \<and> k_keyPath k' = k_keyPath k \<and> k_waitIntervals k' = k_waitIntervals k \<and>
    k_ticksLeft k' = k_ticksLeft k \<and> k_backoffHash k' = k_backoffHash k"
  using assms by (auto simp: reload_def Let_def split: if_splits sum.splits option.splits prod.splits)

text \<open>The well-formed schedules, kept by every step.\<close>

definition scheduled :: "('a, 't) KeyReloader \<Rightarrow> bool" where
  "scheduled k \<longleftrightarrow> 1 \<le> k_waitIntervals k \<and> k_waitIntervals k \<le> maxWaitIntervals k \<and> 0 \<le> k_ticksLeft k \<and> k_ticksLeft k < maxWaitIntervals k"

lemma scheduled_settled: "scheduled (snd (settled oc h a k))"
  using maxWait_pos [of "snd (settled oc h a k)"] by (simp add: scheduled_def)

lemma scheduled_rejected: "scheduled k \<Longrightarrow> scheduled (snd (rejected h e d k))"
  using maxWait_pos [of k] by (auto simp: scheduled_def rejected_def schedule_def Let_def maxWaitIntervals_def)

lemma scheduled_cong:
  "k_interval k' = k_interval k \<Longrightarrow> k_waitIntervals k' = k_waitIntervals k \<Longrightarrow> k_ticksLeft k' = k_ticksLeft k \<Longrightarrow> scheduled k' = scheduled k"
  by (simp add: scheduled_def maxWaitIntervals_def)

lemma scheduled_reload: "reload p raw hash acc k = (res, k') \<Longrightarrow> scheduled k' = scheduled k"
  by (drule reload_fields) (rule scheduled_cong; simp)

lemma scheduled_waiting: "scheduled k \<Longrightarrow> 0 < k_ticksLeft k \<Longrightarrow> scheduled (k\<lparr>k_ticksLeft := k_ticksLeft k - 1\<rparr>)"
  by (simp add: scheduled_def maxWaitIntervals_def)

lemma tick_scheduled:
  assumes "tick h p k = (res, k')" and "scheduled k"
  shows "scheduled k' \<and> k_interval k' = k_interval k \<and> k_keyPath k' = k_keyPath k"
proof -
  have r: "scheduled k1 \<and> k_interval k1 = k_interval k \<and> k_keyPath k1 = k_keyPath k" if "reload p raw hash acc k = (e, k1)" for raw hash acc e k1
    using scheduled_reload [OF that] reload_fields [OF that] assms(2) by simp
  show ?thesis
    using assms scheduled_waiting [OF assms(2)] scheduled_settled scheduled_rejected
    by (auto simp: tick_def readKeyFile_def split: if_splits sum.splits prod.splits option.splits dest!: r)
qed

lemma Start_scheduled:
  "scheduled k \<Longrightarrow> scheduled (snd (Start h ps k)) \<and> k_interval (snd (Start h ps k)) = k_interval k \<and>
     k_keyPath (snd (Start h ps k)) = k_keyPath k"
proof (induction ps arbitrary: k)
  case (Cons p ps)
  obtain res k1 where t: "tick h p k = (res, k1)" by fastforce
  from tick_scheduled [OF t Cons.prems] Cons.IH [of k1] t show ?case by (auto split: prod.splits)
qed simp

text \<open>A step either leaves the client alone or applies a proven candidate.\<close>

definition proven :: "(string \<Rightarrow> string) \<Rightarrow> ('a, 't) poll \<Rightarrow> ('a, 't) clientState \<Rightarrow> string \<Rightarrow> bool" where
  "proven h p c project \<longleftrightarrow> (\<exists>raw t. p_file p = Inr raw \<and> p_build p raw = Inr (cs_api c, t) \<and> cs_transport c = Some t \<and>
     cs_keyHash c = h raw \<and> p_probe p (cs_api c) project = None \<and> a_ProjectID (cs_account c) = project \<and>
     (\<exists>doc. p_decode p raw = Inr doc \<and> kd_ProjectID doc = project \<and> project \<noteq> []))"

lemma tick_client:
  assumes "tick h p k = (res, k')"
  shows "if (\<exists>r. res = Some r \<and> rr_Outcome r = ReloadApplied) then proven h p (k_client k') (a_ProjectID (cs_account (k_client k)))
    else k_client k' = k_client k"
proof (cases "p_file p")
  case (Inl e)
  with assms show ?thesis by (auto simp: tick_def readKeyFile_def)
next
  case (Inr raw)
  show ?thesis
  proof (cases "h raw = cs_keyHash (k_client k) \<or> (h raw = k_backoffHash k \<and> 0 < k_ticksLeft k) \<or> (\<exists>e. parseAccount (p_decode p) raw (k_keyPath k) = Inl e)")
    case True
    with assms Inr show ?thesis by (auto simp: tick_def readKeyFile_def split: if_splits sum.splits)
  next
    case False
    then obtain acc where acc: "parseAccount (p_decode p) raw (k_keyPath k) = Inr acc"
      by (cases "parseAccount (p_decode p) raw (k_keyPath k)") auto
    obtain er k1 where r: "reload p raw (h raw) acc k = (er, k1)" by fastforce
    from False acc Inr r assms have run: "(res, k') = (case er of
        Some err \<Rightarrow> if p_cancelled p then (None, k1) else reported (rejected (h raw) err (isDefinitive err) k1)
      | None \<Rightarrow> reported (settled ReloadApplied (h raw) (cs_account (k_client k1)) k1))"
      by (auto simp: tick_def readKeyFile_def split: option.splits)
    from acc obtain doc where doc: "p_decode p raw = Inr doc" "a_ProjectID acc = kd_ProjectID doc" "kd_ProjectID doc \<noteq> []"
      by (auto simp: parseAccount_def split: if_splits sum.splits)
    show ?thesis
    proof (cases er)
      case None
      with run reload_client [OF r] doc Inr show ?thesis by (auto simp: proven_def)
    next
      case (Some e)
      with run reload_client [OF r] show ?thesis by (auto split: if_splits)
    qed
  qed
qed

text \<open>The schedule: a candidate whose validation ends in a definitive rejection.\<close>

definition definitivelyBad :: "(string \<Rightarrow> string) \<Rightarrow> ('a, 't) poll \<Rightarrow> ('a, 't) KeyReloader \<Rightarrow> bool" where
  "definitivelyBad h p k =
     (case p_file p of Inl e \<Rightarrow> False
      | Inr raw \<Rightarrow> h raw \<noteq> cs_keyHash (k_client k) \<and> \<not> p_cancelled p \<and>
          (case parseAccount (p_decode p) raw (k_keyPath k) of Inl e \<Rightarrow> True
           | Inr acc \<Rightarrow> (case fst (reload p raw (h raw) acc k) of None \<Rightarrow> False | Some err \<Rightarrow> isDefinitive err)))"

definition contentHash :: "(string \<Rightarrow> string) \<Rightarrow> ('a, 't) poll \<Rightarrow> string" where
  "contentHash h p = (case p_file p of Inl e \<Rightarrow> [] | Inr raw \<Rightarrow> h raw)"

lemma bad_hash: "definitivelyBad h p k \<Longrightarrow> contentHash h p \<noteq> cs_keyHash (k_client k) \<and> (\<exists>raw. p_file p = Inr raw)"
  by (auto simp: definitivelyBad_def contentHash_def split: sum.splits)

lemma reload_cong:
  "k_client k = k_client k' \<Longrightarrow> fst (reload p raw hash acc k) = fst (reload p raw hash acc k')"
  by (auto simp: reload_def Let_def split: sum.split option.split)

lemma bad_cong:
  assumes "k_client k = k_client k'" and "k_keyPath k = k_keyPath k'"
  shows "definitivelyBad h p k = definitivelyBad h p k'"
  unfolding definitivelyBad_def assms(2) reload_cong [OF assms(1)] assms(1) ..

lemma tick_bad:
  assumes bad: "definitivelyBad h p k" and go: "contentHash h p \<noteq> k_backoffHash k \<or> k_ticksLeft k \<le> 0"
  defines "w \<equiv> if contentHash h p = k_backoffHash k then k_waitIntervals k else 1"
  shows "\<exists>r k'. tick h p k = (Some r, k') \<and> rr_Outcome r = ReloadRejected \<and> rr_Definitive r \<and> k_client k' = k_client k \<and>
    k_keyPath k' = k_keyPath k \<and> k_interval k' = k_interval k \<and> k_backoffHash k' = contentHash h p \<and>
    k_ticksLeft k' = w - 1 \<and> k_waitIntervals k' = min (2 * w) (maxWaitIntervals k)"
proof -
  from bad obtain raw where raw: "p_file p = Inr raw" "h raw \<noteq> cs_keyHash (k_client k)" "\<not> p_cancelled p"
    and v: "case parseAccount (p_decode p) raw (k_keyPath k) of Inl e \<Rightarrow> True
      | Inr acc \<Rightarrow> (case fst (reload p raw (h raw) acc k) of None \<Rightarrow> False | Some err \<Rightarrow> isDefinitive err)"
    unfolding definitivelyBad_def by (auto split: sum.splits)
  from raw go have nb: "\<not> (h raw = k_backoffHash k \<and> 0 < k_ticksLeft k)" by (auto simp: contentHash_def)
  obtain e k1 where t: "tick h p k = reported (rejected (h raw) e True k1)" and k1: "k_client k1 = k_client k"
    "k_interval k1 = k_interval k \<and> k_keyPath k1 = k_keyPath k \<and> k_waitIntervals k1 = k_waitIntervals k \<and> k_backoffHash k1 = k_backoffHash k"
  proof (cases "parseAccount (p_decode p) raw (k_keyPath k)")
    case (Inl e)
    with raw nb that [of "definitive e" k] show ?thesis by (auto simp: tick_def readKeyFile_def)
  next
    case (Inr acc)
    with v obtain err where er: "fst (reload p raw (h raw) acc k) = Some err" "isDefinitive err" by (auto split: option.splits)
    then obtain k1 where r: "reload p raw (h raw) acc k = (Some err, k1)" by (cases "reload p raw (h raw) acc k") auto
    note r = r er(2)
    have "tick h p k = reported (rejected (h raw) err True k1)"
      using raw nb Inr r by (simp add: tick_def readKeyFile_def)
    then show ?thesis by (rule that) (use reload_client [OF r(1)] reload_fields [OF r(1)] in auto)
  qed
  have m: "maxWaitIntervals (k1\<lparr>k_waitIntervals := 1, k_backoffHash := h raw\<rparr>) = maxWaitIntervals k" "maxWaitIntervals k1 = maxWaitIntervals k"
    using k1 by (simp_all add: maxWaitIntervals_def)
  show ?thesis unfolding t using k1 raw(1) m
    by (auto simp: rejected_def schedule_def Let_def w_def contentHash_def min_def)
qed

lemma Start_snd: "snd (Start h (p # ps) k) = snd (Start h ps (snd (tick h p k)))"
  by (simp split: prod.split)

lemma tick_silent:
  assumes "contentHash h p = k_backoffHash k" "0 < k_ticksLeft k" "contentHash h p \<noteq> cs_keyHash (k_client k)" "p_file p = Inr raw"
  shows "tick h p k = (None, k\<lparr>k_ticksLeft := k_ticksLeft k - 1\<rparr>)"
  using assms by (simp add: tick_def readKeyFile_def contentHash_def)

lemma Start_silent:
  assumes "contentHash h p = k_backoffHash k" "contentHash h p \<noteq> cs_keyHash (k_client k)" "p_file p = Inr raw" "k_ticksLeft k = int n"
  shows "Start h (replicate n p) k = ([], k\<lparr>k_ticksLeft := 0\<rparr>)"
  using assms
proof (induction n arbitrary: k)
  case (Suc n)
  from tick_silent [of h p k raw] Suc.prems have t: "tick h p k = (None, k\<lparr>k_ticksLeft := int n\<rparr>)" by simp
  from Suc.IH [of "k\<lparr>k_ticksLeft := int n\<rparr>"] Suc.prems show ?case by (simp add: t)
qed simp

section \<open>Properties\<close>

text \<open>C16: a bad candidate costs nothing. One poll changes the live client only when it reports an
  applied key, and then the new client was built from the very bytes that were read, carries their
  hash, belongs to the project the operator is bound to, and answered an authenticated call; in
  every other case (unreadable, unchanged, empty, malformed, foreign project, refused, unreachable,
  cancelled, backing off) the client is the one before.\<close>

theorem bad_candidate_is_noop:
  "if (\<exists>r. fst (tick h p k) = Some r \<and> rr_Outcome r = ReloadApplied)
   then proven h p (k_client (snd (tick h p k))) (a_ProjectID (cs_account (k_client k)))
   else k_client (snd (tick h p k)) = k_client k"
  using tick_client [of h p k] by (metis prod.collapse)

text \<open>C17: the project never changes. Whatever a sequence of polls meets, the account in use stays in
  the project of the account the process started with.\<close>

theorem project_never_changes:
  "a_ProjectID (cs_account (k_client (snd (Start h ps k)))) = a_ProjectID (cs_account (k_client k))"
proof (induction ps arbitrary: k)
  case (Cons p ps)
  obtain res k1 where t: "tick h p k = (res, k1)" by fastforce
  from tick_client [OF t] have "a_ProjectID (cs_account (k_client k1)) = a_ProjectID (cs_account (k_client k))"
    by (auto simp: proven_def split: if_splits)
  with Cons.IH [of k1] t show ?case by (auto split: prod.splits)
qed simp

text \<open>The retries of a rejected candidate back off, doubling up to the cap. As long as the file
  keeps the content the backoff was earned by, the wait of \<open>w\<close> intervals passes with exactly one
  validation, which is reported as a definitive rejection and leaves the client alone; the next wait
  is twice as long, but never more than the larger of one interval and ten minutes.\<close>

lemma rejected_candidate_backs_off:
  assumes "definitivelyBad h p k" and "contentHash h p = k_backoffHash k" and "k_ticksLeft k = 0"
    and "1 \<le> k_waitIntervals k" and "0 < k_interval k"
  shows "\<exists>r k'. Start h (replicate (nat (k_waitIntervals k)) p) k = ([r], k') \<and> rr_Outcome r = ReloadRejected \<and> rr_Definitive r \<and>
    k_client k' = k_client k \<and> k_backoffHash k' = k_backoffHash k \<and> k_ticksLeft k' = 0 \<and>
    k_waitIntervals k' = min (2 * k_waitIntervals k) (maxWaitIntervals k) \<and>
    k_waitIntervals k' * k_interval k \<le> max (k_interval k) reloadRejectBackoffMax"
proof -
  obtain n where n: "nat (k_waitIntervals k) = Suc n" "k_waitIntervals k = int n + 1"
    using assms(4) by (intro that [of "nat (k_waitIntervals k - 1)"]) auto
  from tick_bad [OF assms(1)] assms(2,3) obtain r k1 where t: "tick h p k = (Some r, k1)" "rr_Outcome r = ReloadRejected" "rr_Definitive r"
    and k1: "k_client k1 = k_client k" "k_interval k1 = k_interval k" "k_backoffHash k1 = contentHash h p" "k_ticksLeft k1 = int n"
      "k_waitIntervals k1 = min (2 * k_waitIntervals k) (maxWaitIntervals k)"
    using n(2) by auto
  from bad_hash [OF assms(1)] obtain raw where raw: "p_file p = Inr raw" "contentHash h p \<noteq> cs_keyHash (k_client k)" by blast
  have "Start h (replicate n p) k1 = ([], k1\<lparr>k_ticksLeft := 0\<rparr>)"
    by (rule Start_silent [OF _ _ raw(1)]) (simp_all add: k1 raw)
  then have run: "Start h (replicate (nat (k_waitIntervals k)) p) k = ([r], k1\<lparr>k_ticksLeft := 0\<rparr>)"
    by (simp add: n(1) t)
  have "min (2 * k_waitIntervals k) (maxWaitIntervals k) * k_interval k \<le> maxWaitIntervals k * k_interval k"
    using assms(5) by (intro mult_right_mono) auto
  with run t k1 maxWait_cap [OF assms(5)] assms(2) show ?thesis by auto
qed

text \<open>A concrete poller: the SDK accepts every key of project \<open>p1\<close>, the provider refuses the bytes
  \<open>bad\<close>.\<close>

definition samplePoll :: "string \<Rightarrow> (string, nat) poll" where
  "samplePoll raw = \<lparr>p_file = Inr raw, p_decode = (\<lambda>_. Inr \<lparr>kd_ProjectID = ''p1'', kd_ValidUntil = None, kd_Iss = ''sa''\<rparr>),
     p_build = (\<lambda>x. Inr (x, 7)), p_probe = (\<lambda>x _. if x = ''bad'' then Some (ApiError 401 ''{}'' ''401'') else None),
     p_abandoned = False, p_cancelled = False, p_ctxErr = CtxErr ''context canceled''\<rparr>"

definition sampleReloader :: "(string, nat) KeyReloader" where
  "sampleReloader = (NewKeyReloader \<lparr>cs_api = ''old'', cs_account = zeroAccount\<lparr>a_ProjectID := ''p1''\<rparr>, cs_transport = None,
     cs_keyHash = ''old''\<rparr> ''/key.json'' (60 * 10 ^ 9))\<lparr>k_backoffHash := ''bad'', k_waitIntervals := 2\<rparr>"

lemma samplePoll_bad: "definitivelyBad id (samplePoll ''bad'') sampleReloader"
  by code_simp

text \<open>C30: the retry schedule of a reloader is well formed in every state it reaches. From its
  construction on, whatever the polls meet, the next wait is between one poll and the cap, the polls
  left are between zero and one less than the cap, so no candidate is ignored for longer than the
  larger of one interval and ten minutes, and the interval and the watched path never change.\<close>

theorem schedule_wellformed:
  assumes "0 < interval"
  shows "scheduled (snd (Start h ps (NewKeyReloader c path interval))) \<and>
    (1 + k_ticksLeft (snd (Start h ps (NewKeyReloader c path interval)))) * interval \<le> max interval reloadRejectBackoffMax \<and>
    k_interval (snd (Start h ps (NewKeyReloader c path interval))) = interval \<and>
    k_keyPath (snd (Start h ps (NewKeyReloader c path interval))) = path"
proof -
  let ?k = "snd (Start h ps (NewKeyReloader c path interval))"
  have "scheduled (NewKeyReloader c path interval)"
    using maxWait_pos [of "NewKeyReloader c path interval"] by (simp add: scheduled_def NewKeyReloader_def)
  from Start_scheduled [OF this, of h ps]
  have k: "scheduled ?k" "k_interval ?k = interval" "k_keyPath ?k = path" by (simp_all add: NewKeyReloader_def)
  from k(1) have "1 + k_ticksLeft ?k \<le> maxWaitIntervals ?k" by (simp add: scheduled_def)
  then have "(1 + k_ticksLeft ?k) * interval \<le> maxWaitIntervals ?k * interval" using assms by (simp add: mult_right_mono)
  also have "\<dots> \<le> max interval reloadRejectBackoffMax" using maxWait_cap [of ?k] assms k(2) by simp
  finally show ?thesis using k by simp
qed

theorem schedule_wellformed_witness:
  "scheduled (snd (Start id (replicate 9 (samplePoll ''bad'')) (NewKeyReloader (k_client sampleReloader) ''/key.json'' (60 * 10 ^ 9))))"
  using schedule_wellformed [of "60 * 10 ^ 9" id "replicate 9 (samplePoll ''bad'')" "k_client sampleReloader" "''/key.json''"] by simp

text \<open>C18: a good key is always adopted. A file that keeps holding a key of the operator's project from
  which a client can be built and whose probe succeeds is in use after at most as many further polls
  as a pending backoff has left, whatever happened before; content the backoff was not earned by is
  adopted at the very next poll.\<close>

theorem good_key_adopted:
  assumes "p_file p = Inr raw" and "raw \<noteq> []" and "h raw \<noteq> cs_keyHash (k_client k)"
    and "p_decode p raw = Inr doc" and "kd_ProjectID doc = a_ProjectID (cs_account (k_client k))" and "kd_ProjectID doc \<noteq> []"
    and "p_build p raw = Inr (api, t)" and "\<not> p_abandoned p" and "p_probe p api (kd_ProjectID doc) = None"
    and "n = (if h raw = k_backoffHash k then nat (k_ticksLeft k) else 0)"
  shows "cs_api (k_client (snd (Start h (replicate (Suc n) p) k))) = api \<and>
    cs_keyHash (k_client (snd (Start h (replicate (Suc n) p) k))) = h raw \<and>
    k_backoffHash (snd (Start h (replicate (Suc n) p) k)) = []"
proof -
  have adopt: "cs_api (k_client (snd (tick h p k'))) = api \<and> cs_keyHash (k_client (snd (tick h p k'))) = h raw \<and>
      k_backoffHash (snd (tick h p k')) = []"
    if "k_client k' = k_client k" "\<not> (h raw = k_backoffHash k' \<and> 0 < k_ticksLeft k')" for k'
    using assms(1-9) that
    by (auto simp: tick_def readKeyFile_def parseAccount_def reload_def Let_def settled_def)
  show ?thesis
  proof (cases "h raw = k_backoffHash k \<and> 0 < k_ticksLeft k")
    case True
    with assms(10) have n: "k_ticksLeft k = int n" by simp
    have "Start h (replicate n p) k = ([], k\<lparr>k_ticksLeft := 0\<rparr>)"
      by (rule Start_silent [OF _ _ assms(1) n]) (use True assms(1,3) in \<open>simp_all add: contentHash_def\<close>)
    moreover have "snd (Start h (replicate (Suc m) p) k') = snd (tick h p (snd (Start h (replicate m p) k')))" for m k'
      by (induction m arbitrary: k') (simp_all add: Start_snd del: Start.simps(2))
    ultimately show ?thesis using adopt [of "k\<lparr>k_ticksLeft := 0\<rparr>"] by simp
  next
    case False
    with assms(10) have "n = 0" by auto
    with adopt [OF refl False] show ?thesis by (simp add: Start_snd del: Start.simps(2))
  qed
qed

theorem good_key_adopted_witness:
  "cs_keyHash (k_client (snd (Start id (replicate 1 (samplePoll ''new'')) sampleReloader))) = ''new''"
  using good_key_adopted [of "samplePoll ''new''" "''new''" id sampleReloader
      "\<lparr>kd_ProjectID = ''p1'', kd_ValidUntil = None, kd_Iss = ''sa''\<rparr>" "''new''" 7 0]
  by (simp add: samplePoll_def sampleReloader_def NewKeyReloader_def)

text \<open>An unreadable poll drops a pending wait. A read that fails leaves the schedule of the
  rejected candidate but sets its remaining wait to zero, so the candidate is validated again at the
  next poll that can read it; with a file that is unreadable at every other poll, every readable poll
  validates (and reports), whatever the backoff had become.\<close>

lemma unreadable_poll_drops_wait:
  assumes "p_file q = Inl e" and "definitivelyBad h p k"
  shows "k_ticksLeft (snd (tick h q k)) = 0 \<and> k_waitIntervals (snd (tick h q k)) = k_waitIntervals k \<and>
    length (fst (Start h (concat (replicate n [q, p])) k)) = 2 * n"
proof -
  have q: "\<exists>r. tick h q k = (Some r, snd (tick h q k)) \<and> k_ticksLeft (snd (tick h q k)) = 0 \<and>
      k_waitIntervals (snd (tick h q k)) = k_waitIntervals k \<and> k_client (snd (tick h q k)) = k_client k \<and>
      k_keyPath (snd (tick h q k)) = k_keyPath k" for k :: "('a, 'b) KeyReloader"
    using assms(1) by (simp add: tick_def readKeyFile_def rejected_def)
  have "length (fst (Start h (concat (replicate n [q, p])) k)) = 2 * n" if "definitivelyBad h p k" for k
    using that
  proof (induction n arbitrary: k)
    case (Suc n)
    obtain r k1 where t1: "tick h q k = (Some r, k1)" and k1: "k_ticksLeft k1 = 0" "k_client k1 = k_client k" "k_keyPath k1 = k_keyPath k"
      using q [of k] by (metis snd_conv)
    have b1: "definitivelyBad h p k1" using Suc.prems bad_cong [OF k1(2,3)] by blast
    from tick_bad [OF b1] k1(1) obtain r2 k2 where t2: "tick h p k1 = (Some r2, k2)" "k_client k2 = k_client k1" "k_keyPath k2 = k_keyPath k1"
      by auto
    have "definitivelyBad h p k2" using b1 bad_cong [OF t2(2,3)] by blast
    from Suc.IH [OF this] show ?case by (auto simp: t1 t2(1) split: prod.splits)
  qed simp
  with q [of k] assms(2) show ?thesis by blast
qed

text \<open>What the observer exports. The three counters are the numbers of polls with that outcome,
  the failing gauge is one exactly while the last poll was a rejection, and the breaker has been
  closed exactly as often as a key was applied.\<close>

lemma observer_counts:
  "(\<forall>result. count result (fold Observe rs (NewSAKeyReloadObserver br acc now)) =
     int (length (filter (\<lambda>(res, t). rr_Outcome res = result) rs))) \<and>
   ob_failing (fold Observe rs (NewSAKeyReloadObserver br acc now)) = (rs \<noteq> [] \<and> rr_Outcome (fst (last rs)) = ReloadRejected) \<and>
   ob_breaker (fold Observe rs (NewSAKeyReloadObserver br acc now)) =
     ((\<lambda>b. Success b) ^^ length (filter (\<lambda>(res, t). rr_Outcome res = ReloadApplied) rs)) br"
proof (induction rs rule: rev_induct)
  case Nil
  show ?case by (auto simp: NewSAKeyReloadObserver_def adopt_def count_def split: ReloadOutcome.split)
next
  case (snoc x rs)
  then show ?case
    by (cases x; cases "rr_Outcome (fst x)") (auto simp: Observe_def adopt_def count_def split: ReloadOutcome.splits)
qed

end
