(* ===== verification/Usage.thy ===== *)
theory Usage
  imports Provision
begin

text \<open>
  The measurement of bucket sizes: \<open>UsageInterval\<close> of \<open>api/v1/bucket_types.go\<close>,
  \<open>internal/controller/usage_config.go\<close> and \<open>internal/controller/bucket_usage_controller.go\<close>.

  \<open>float64\<close> arithmetic is exact rational arithmetic followed by rounding to 53 significant bits, ties
  to even (\<open>fl\<close>), which is IEEE 754 on the normal range the durations and prices here live in. The
  Prometheus counter and histogram of the measurement are not part of the state.

  The properties: the controller only ever writes \<open>status.usage\<close>, lists a bucket only when the
  measurement is enabled, due and the Bucket Ready, and its intervals respect the operator's floor.
\<close>

section \<open>Floating point\<close>

definition flPos :: "rat \<Rightarrow> rat" where
  "flPos x =
     (let n = nat (fst (quotient_of x)); d = nat (snd (quotient_of x));
               e0 = int (bitLen n) - int (bitLen d) - 53;
               e = (if 2 ^ 53 * (if 0 \<le> e0 then 2 ^ nat e0 else 1) * of_nat d \<le> (of_nat n :: rat) * (if e0 < 0 then 2 ^ nat (- e0) else 1)
                    then e0 + 1 else e0)
           in if 0 \<le> e then of_nat (roundEven n (d * 2 ^ nat e)) * 2 ^ nat e
              else of_nat (roundEven (n * 2 ^ nat (- e)) d) / 2 ^ nat (- e))"

definition fl :: "rat \<Rightarrow> rat" where
  "fl x = (if x = 0 then 0 else if x < 0 then - flPos (- x) else flPos x)"

text \<open>\<open>math.Round\<close>: half away from zero.\<close>

definition goRound :: "rat \<Rightarrow> int" where
  "goRound x = (if 0 \<le> x then \<lfloor>x + 1 / 2\<rfloor> else \<lceil>x - 1 / 2\<rceil>)"

section \<open>Durations\<close>

text \<open>\<open>time.ParseDuration\<close>. The leading digits, and the rest; \<open>None\<close> when they exceed \<open>2\<^sup>6\<^sup>3\<close>.\<close>

fun leadingInt :: "nat \<Rightarrow> string \<Rightarrow> (nat \<times> string) option" where
  "leadingInt x [] = Some (x, [])"
| "leadingInt x (c # s) =
     (if \<not> decimal c then Some (x, c # s)
      else if 2 ^ 63 div 10 < x then None
      else let x' = x * 10 + digitVal c in if 2 ^ 63 < x' then None else leadingInt x' s)"

text \<open>Fraction digits: value, scale and rest; digits beyond the precision are skipped.\<close>

fun leadingFraction :: "nat \<Rightarrow> rat \<Rightarrow> bool \<Rightarrow> string \<Rightarrow> nat \<times> rat \<times> string" where
  "leadingFraction x scale overflow [] = (x, scale, [])"
| "leadingFraction x scale overflow (c # s) =
     (if \<not> decimal c then (x, scale, c # s)
      else if overflow then leadingFraction x scale True s
      else if (2 ^ 63 - 1) div 10 < x then leadingFraction x scale True s
      else let y = x * 10 + digitVal c in
        if 2 ^ 63 < y then leadingFraction x scale True s else leadingFraction y (scale * 10) False s)"

definition unitMap :: "(string \<times> nat) list" where
  "unitMap = [(''ns'', 1), (''us'', 10 ^ 3), ([CHR 0xC2, CHR 0xB5, CHR ''s''], 10 ^ 3), ([CHR 0xCE, CHR 0xBC, CHR ''s''], 10 ^ 3),
     (''ms'', 10 ^ 6), (''s'', 10 ^ 9), (''m'', 60 * 10 ^ 9), (''h'', 3600 * 10 ^ 9)]"

definition invalidDuration :: "string \<Rightarrow> go_error" where
  "invalidDuration orig = Msg (''time: invalid duration '' @ quoted orig)"

definition startsNumber :: "char \<Rightarrow> bool" where
  "startsNumber c \<longleftrightarrow> c = CHR ''.'' \<or> decimal c"

text \<open>One component: its value in nanoseconds and the rest.\<close>

definition component :: "string \<Rightarrow> string \<Rightarrow> go_error + nat \<times> string" where
  "component orig s =
     (if s = [] \<or> \<not> startsNumber (hd s) then Inl (invalidDuration orig)
      else case leadingInt 0 s of None \<Rightarrow> Inl (invalidDuration orig)
      | Some (v, s1) \<Rightarrow>
          let pre = length s1 \<noteq> length s;
              dotted = s1 \<noteq> [] \<and> hd s1 = CHR ''.'';
              (f, scale, s2) = (if dotted then leadingFraction 0 1 False (tl s1) else (0, 1, s1));
              post = dotted \<and> length s2 \<noteq> length (tl s1);
              u = takeWhile (\<lambda>c. \<not> startsNumber c) s2; s3 = dropWhile (\<lambda>c. \<not> startsNumber c) s2
          in if \<not> pre \<and> \<not> post then Inl (invalidDuration orig)
             else if u = [] then Inl (Msg (''time: missing unit in duration '' @ quoted orig))
             else case map_of unitMap u of
               None \<Rightarrow> Inl (Msg (''time: unknown unit '' @ quoted u @ '' in duration '' @ quoted orig))
             | Some unit \<Rightarrow>
                 if 2 ^ 63 div unit < v then Inl (invalidDuration orig)
                 else let v1 = v * unit; v2 = (if 0 < f then v1 + nat \<lfloor>fl (fl (of_nat f) * fl (of_nat unit / scale))\<rfloor> else v1) in
                   if 0 < f \<and> 2 ^ 63 < v2 then Inl (invalidDuration orig) else Inr (v2, s3))"

text \<open>A component consumes at least one character, so the length of the string is enough fuel.\<close>

fun components :: "nat \<Rightarrow> string \<Rightarrow> nat \<Rightarrow> string \<Rightarrow> go_error + nat" where
  "components fuel orig d [] = Inr d"
| "components 0 orig d s = Inl OutOfFuel"
| "components (Suc fuel) orig d s =
     (case component orig s of Inl e \<Rightarrow> Inl e
      | Inr (v, s') \<Rightarrow> if 2 ^ 63 < d + v then Inl (invalidDuration orig) else components fuel orig (d + v) s')"

definition ParseDuration :: "string \<Rightarrow> go_error + int" where
  "ParseDuration orig =
     (let signed = orig \<noteq> [] \<and> (hd orig = CHR ''-'' \<or> hd orig = CHR ''+'');
          neg = orig \<noteq> [] \<and> hd orig = CHR ''-''; s = (if signed then tl orig else orig) in
      if s = ''0'' then Inr 0
      else if s = [] then Inl (invalidDuration orig)
      else case components (length s) orig 0 s of Inl e \<Rightarrow> Inl e
        | Inr d \<Rightarrow> if neg then Inr (- int d) else if 2 ^ 63 - 1 < d then Inl (invalidDuration orig) else Inr (int d))"

definition UsageInterval :: "UsageSpec option \<Rightarrow> go_error + int" where
  "UsageInterval u =
     (case u of None \<Rightarrow> Inr 0
      | Some v \<Rightarrow>
          if us_Interval v = [] then Inr 0
          else case ParseDuration (us_Interval v) of
            Inl err \<Rightarrow> Inl (wrapf (''spec.usage.interval '' @ quoted (us_Interval v) @ '' is not a Go duration (e.g. '' @
              quoted ''30m'' @ '', '' @ quoted ''6h'' @ ''): '') err)
          | Inr d \<Rightarrow> if d \<le> 0 then Inl (Msg (''spec.usage.interval '' @ quoted (us_Interval v) @ '' must be positive'')) else Inr d)"

section \<open>Policy\<close>

definition DefaultUsageInterval :: int where "DefaultUsageInterval = seconds 3600"
definition DefaultUsageMinInterval :: int where "DefaultUsageMinInterval = seconds 3600"
definition DefaultUsageMaxObjects :: int where "DefaultUsageMaxObjects = 2000000"
definition DefaultUsageCurrency :: string where "DefaultUsageCurrency = ''EUR''"
definition DefaultUsageConcurrency :: int where "DefaultUsageConcurrency = 2"
definition bytesPerGB :: int where "bytesPerGB = 1000000000"
definition billingHoursPerMonth :: int where "billingHoursPerMonth = 720"

record UsageConfig =
  uc_Enabled :: bool
  uc_DefaultEnabled :: bool
  uc_Interval :: int
  uc_MinInterval :: int
  uc_MaxObjects :: int
  uc_IncludeVersions :: bool
  uc_PricePerGBHour :: rat
  uc_Currency :: string
  uc_Concurrency :: int

definition withDefaults :: "UsageConfig \<Rightarrow> UsageConfig" where
  "withDefaults c = c\<lparr>uc_Interval := (if uc_Interval c \<le> 0 then DefaultUsageInterval else uc_Interval c),
     uc_MinInterval := (if uc_MinInterval c \<le> 0 then DefaultUsageMinInterval else uc_MinInterval c),
     uc_MaxObjects := (if uc_MaxObjects c < 0 then 0 else uc_MaxObjects c),
     uc_Currency := (if uc_Currency c = [] then DefaultUsageCurrency else uc_Currency c),
     uc_Concurrency := (if uc_Concurrency c \<le> 0 then DefaultUsageConcurrency else uc_Concurrency c)\<rparr>"

record effectiveUsage =
  eu_enabled :: bool
  eu_requested :: bool
  eu_interval :: int
  eu_includeVersions :: bool
  eu_clamped :: int
  eu_err :: "go_error option"

definition effectiveFor :: "UsageConfig \<Rightarrow> Bucket \<Rightarrow> effectiveUsage" where
  "effectiveFor c b =
     (let cfg = withDefaults c; spec = sp_Usage (b_Spec b);
          eff = \<lparr>eu_enabled = uc_Enabled cfg \<and> UsageEnabled spec (uc_DefaultEnabled cfg),
            eu_requested = (case spec of None \<Rightarrow> False | Some u \<Rightarrow> us_Enabled u = Some True),
            eu_interval = uc_Interval cfg, eu_includeVersions = UsageIncludeVersions spec (uc_IncludeVersions cfg),
            eu_clamped = 0, eu_err = None\<rparr>
      in case UsageInterval spec of
           Inl err \<Rightarrow> eff\<lparr>eu_err := Some err, eu_enabled := False\<rparr>
         | Inr requested \<Rightarrow>
             if 0 < requested then
               if requested < uc_MinInterval cfg then eff\<lparr>eu_interval := uc_MinInterval cfg, eu_clamped := requested\<rparr>
               else eff\<lparr>eu_interval := requested\<rparr>
             else eff)"

text \<open>\<open>int64\<close> addition wraps. Go leaves the conversion of a \<open>float64\<close> beyond \<open>int64\<close> to the platform;
  here the rounded estimate is the integer it is.\<close>

definition estimateMonthlyCostCents :: "int \<Rightarrow> rat \<Rightarrow> int" where
  "estimateMonthlyCostCents billableBytes pricePerGBHour =
     (if pricePerGBHour \<le> 0 \<or> billableBytes \<le> 0 then 0
      else let startedGB = goQuot (wrap64 (billableBytes + bytesPerGB - 1)) bytesPerGB;
               cents = fl (fl (fl (fl (of_int startedGB) * pricePerGBHour) * of_int billingHoursPerMonth) * 100)
           in goRound cents)"

definition pad2 :: "string \<Rightarrow> string" where
  "pad2 s = (if length s < 2 then CHR ''0'' # s else s)"

definition formatCost :: "int \<Rightarrow> string \<Rightarrow> bool \<Rightarrow> string" where
  "formatCost cents currency truncated =
     (let s = showInt (goQuot cents 100) @ ''.'' @ pad2 (showInt (cents - 100 * goQuot cents 100)) @ '' '' @
          (if currency = [] then DefaultUsageCurrency else currency)
      in if truncated then ''>= '' @ s else s)"

definition formatSize :: "int \<Rightarrow> bool \<Rightarrow> string" where
  "formatSize bytes truncated = (if truncated then ''>= '' @ humanBytes bytes else humanBytes bytes)"

section \<open>The controller\<close>

definition reasonUsageGateDisabled :: string where "reasonUsageGateDisabled = ''UsageMeasurementDisabled''"
definition reasonUsageInvalid :: string where "reasonUsageInvalid = ''UsageConfigInvalid''"
definition reasonUsageClamped :: string where "reasonUsageClamped = ''UsageIntervalClamped''"
definition reasonUsageFailed :: string where "reasonUsageFailed = ''UsageMeasurementFailed''"
definition reasonUsageTruncated :: string where "reasonUsageTruncated = ''UsageMeasurementTruncated''"
definition usageNotProvisionedRetry :: int where "usageNotProvisionedRetry = seconds 60"
definition usageFailureRetry :: int where "usageFailureRetry = seconds 600"

record 'w BucketUsageReconciler =
  ur_hasRecorder :: bool
  ur_Stackit :: "'w client option"
  ur_Config :: UsageConfig
  ur_AdminSecretName :: string
  ur_AdminSecretNamespace :: string
  ur_minio :: "'w minio"
  ur_kube :: "'w kube"
  ur_sys :: "'w sys"

definition warn :: "'w BucketUsageReconciler \<Rightarrow> string \<Rightarrow> string \<Rightarrow> ('w st, unit) handler" where
  "warn r reason note =
     (if ur_hasRecorder r
      then sets (\<lambda>s. s\<lparr>s_events := \<lparr>ev_Warning = True, ev_Reason = reason, ev_Note = note\<rparr> # s_events s\<rparr>)
      else finish ())"

definition bucketIsReady :: "Bucket \<Rightarrow> bool" where
  "bucketIsReady b = isConditionTrue (st_Conditions (b_Status b)) ConditionReady"

definition untilDue :: "Bucket \<Rightarrow> int \<Rightarrow> int \<Rightarrow> int" where
  "untilDue b interval now =
     (case st_Usage (b_Status b) of None \<Rightarrow> 0
      | Some u \<Rightarrow> (case u_LastMeasurementTime u of None \<Rightarrow> 0
        | Some t \<Rightarrow> if 0 < t + interval - now then t + interval - now else 0))"

definition nextMeasurement :: "Bucket \<Rightarrow> int \<Rightarrow> int" where
  "nextMeasurement b interval =
     (let spread = goQuot interval 10 in
      if spread \<le> 0 then interval else interval + uint (fnv32a (b_Namespace b @ ''/'' @ b_Name b)) mod spread)"

definition minDuration :: "int \<Rightarrow> int \<Rightarrow> int" where
  "minDuration a b = (if a < b then a else b)"

text \<open>\<open>r.Status().Patch(ctx, b, client.MergeFrom(base))\<close> after the assignment of \<open>status.usage\<close>.\<close>

definition patchStatus :: "'w BucketUsageReconciler \<Rightarrow> UsageStatus option \<Rightarrow> ('w st, go_error option) handler" where
  "patchStatus r usage = reads (\<lambda>s.
     let base = s_obj s; b = base\<lparr>b_Status := (b_Status base)\<lparr>st_Usage := usage\<rparr>\<rparr> in
     andDo (modObj (\<lambda>_. b))
       (check (callOut (k_PatchStatus (ur_kube r) base b) (\<lambda>x. KPatchStatus base b (isOk x)))
          (\<lambda>e. finish (ignoreNotFound (Some e))) (\<lambda>b'. andDo (modObj (\<lambda>_. b')) (finish None))))"

definition patchUsageMessage :: "'w BucketUsageReconciler \<Rightarrow> string \<Rightarrow> ('w st, go_error option) handler" where
  "patchUsageMessage r msg = reads (\<lambda>s.
     case st_Usage (b_Status (s_obj s)) of
       Some u \<Rightarrow> if u_Message u = msg then finish None else patchStatus r (Some (u\<lparr>u_Message := msg\<rparr>))
     | None \<Rightarrow> patchStatus r (Some (zeroUsage\<lparr>u_Message := msg\<rparr>)))"

definition patchUsageParked :: "'w BucketUsageReconciler \<Rightarrow> string \<Rightarrow> ('w st, go_error option) handler" where
  "patchUsageParked r msg = reads (\<lambda>s.
     if st_Usage (b_Status (s_obj s)) = Some (zeroUsage\<lparr>u_Message := msg\<rparr>) then finish None
     else patchStatus r (Some (zeroUsage\<lparr>u_Message := msg\<rparr>)))"

definition clearUsage :: "'w BucketUsageReconciler \<Rightarrow> ('w st, go_error option) handler" where
  "clearUsage r = reads (\<lambda>s. if st_Usage (b_Status (s_obj s)) = None then finish None else patchStatus r None)"

definition measuredUsage :: "UsageConfig \<Rightarrow> BucketStats \<Rightarrow> int \<Rightarrow> effectiveUsage \<Rightarrow> int \<Rightarrow> UsageStatus" where
  "measuredUsage cfg stats elapsed eff now =
     (let billable = BillableBytes stats; cents = estimateMonthlyCostCents billable (uc_PricePerGBHour cfg);
          priced = 0 < uc_PricePerGBHour cfg
      in \<lparr>u_Bytes = bs_Bytes stats, u_Objects = bs_Objects stats, u_VersionBytes = bs_VersionBytes stats,
          u_VersionObjects = bs_VersionObjects stats, u_BillableBytes = billable, u_HumanReadable = formatSize billable (bs_Truncated stats),
          u_EstimatedMonthlyCost = (if priced then formatCost cents (uc_Currency cfg) (bs_Truncated stats) else []),
          u_EstimatedMonthlyCostCents = (if priced then cents else 0), u_Currency = (if priced then uc_Currency cfg else []),
          u_LastMeasurementTime = Some now, u_MeasurementDuration = durString (10 ^ 6 * goQuot elapsed (10 ^ 6)),
          u_Truncated = bs_Truncated stats,
          u_Message = (if bs_Truncated stats then ''measurement stopped at the operator'' @ [CHR 0x27] @ ''s cap of '' @
              showInt (uc_MaxObjects cfg) @ '' objects; values are lower bounds''
            else if 0 < eu_clamped eff then ''requested interval '' @ durString (eu_clamped eff) @
              '' raised to the operator'' @ [CHR 0x27] @ ''s floor of '' @ durString (eu_interval eff)
            else [])\<rparr>)"

definition patchUsage :: "'w BucketUsageReconciler \<Rightarrow> BucketStats \<Rightarrow> int \<Rightarrow> effectiveUsage \<Rightarrow> ('w st, go_error option) handler" where
  "patchUsage r stats elapsed eff = reads (\<lambda>s.
     patchStatus r (Some (measuredUsage (withDefaults (ur_Config r)) stats elapsed eff (clock (ur_sys r) s))))"

definition precheck :: "'w BucketUsageReconciler \<Rightarrow> effectiveUsage \<Rightarrow> ('w st, Result option) handler" where
  "precheck r eff = reads (\<lambda>s.
     case eu_err eff of
       Some err \<Rightarrow> andDo (warn r reasonUsageInvalid (errText err)) (after (patchUsageParked r (errText err)) (\<lambda>_. finish (Some (0, None))))
     | None \<Rightarrow>
         if \<not> eu_enabled eff then
           if eu_requested eff
           then let msg = ''bucket size measurement is disabled operator-wide (bucketUsage.enabled=false)'' in
             andDo (warn r reasonUsageGateDisabled msg) (after (patchUsageParked r msg) (\<lambda>_. finish (Some (0, None))))
           else after (clearUsage r) (\<lambda>_. finish (Some (0, None)))
         else if ur_Stackit r = None then finish (Some (0, None))
         else if st_ResolvedBucketName (b_Status (s_obj s)) = [] \<or> \<not> bucketIsReady (s_obj s)
           then finish (Some (usageNotProvisionedRetry, None))
         else let wait = untilDue (s_obj s) (eu_interval eff) (clock (ur_sys r) s) in
           if 0 < wait then finish (Some (wait, None)) else finish None)"

definition readAdmin :: "'w BucketUsageReconciler \<Rightarrow> ('w st, go_error, adminCreds) fallible" where
  "readAdmin r =
     (let ns = ur_AdminSecretNamespace r; n = ur_AdminSecretName r in
      if ns = [] then fault (Msg ''operator namespace unknown (set POD_NAMESPACE)'')
      else check (callOut (k_GetSecret (ur_kube r) ns n) (\<lambda>x. KGetSecret ns n (okVal x)))
        (\<lambda>err. fault (wrapf (''get admin secret '' @ ns @ ''/'' @ n @ '': '') err))
        (\<lambda>sec. case adminFromSecret sec of None \<Rightarrow> fault (Msg (''admin secret '' @ ns @ ''/'' @ n @ '' is incomplete''))
           | Some ac \<Rightarrow> ret ac))"

definition measure :: "'w BucketUsageReconciler \<Rightarrow> 'w client \<Rightarrow> string \<Rightarrow> adminCreds \<Rightarrow> effectiveUsage
    \<Rightarrow> ('w st, go_error, BucketStats \<times> int) fallible" where
  "measure r c name admin eff =
     check (BucketEndpoint c name) (\<lambda>err. fault (wrapf ''bucket endpoint: '' err)) (\<lambda>endpoint.
     case NewS3Admin (ur_minio r) endpoint (ac_accessKeyID admin) (ac_secretAccessKey admin) (cl_region c) of
       Inl err \<Rightarrow> fault (wrapf ''build admin S3 client: '' err)
     | Inr s3admin \<Rightarrow> reads (\<lambda>s.
         andThen (measureBucket (ur_minio r) s3admin name (eu_includeVersions eff) (uc_MaxObjects (withDefaults (ur_Config r))))
           (\<lambda>stats. reads (\<lambda>s'. ret (stats, clock (ur_sys r) s' - clock (ur_sys r) s)))))"

definition recordFailure :: "'w BucketUsageReconciler \<Rightarrow> string \<Rightarrow> effectiveUsage \<Rightarrow> go_error \<Rightarrow> ('w st, Result) handler" where
  "recordFailure r name eff err =
     (let msg = ''measure bucket '' @ quoted name @ '': '' @ errText err in
      andDo (warn r reasonUsageFailed msg)
        (after (patchUsageMessage r msg) (\<lambda>_. finish (minDuration (eu_interval eff) usageFailureRetry, None))))"

definition warnAboutMeasurement :: "'w BucketUsageReconciler \<Rightarrow> string \<Rightarrow> BucketStats \<Rightarrow> effectiveUsage \<Rightarrow> ('w st, unit) handler" where
  "warnAboutMeasurement r name stats eff =
     andDo (if bs_Truncated stats
            then warn r reasonUsageTruncated (''measurement of bucket '' @ quoted name @ '' stopped at the operator'' @ [CHR 0x27] @
              ''s cap of '' @ showInt (uc_MaxObjects (withDefaults (ur_Config r))) @
              '' objects; the reported size and cost are lower bounds'')
            else finish ())
       (if 0 < eu_clamped eff
        then warn r reasonUsageClamped (''spec.usage.interval '' @ durString (eu_clamped eff) @ '' is below the operator'' @ [CHR 0x27] @
          ''s floor; measuring every '' @ durString (eu_interval eff) @ '' instead'')
        else finish ())"

definition measureDue :: "'w BucketUsageReconciler \<Rightarrow> 'w client \<Rightarrow> effectiveUsage \<Rightarrow> ('w st, Result) handler" where
  "measureDue r c eff =
     check (readAdmin r) (\<lambda>_. finish (usageNotProvisionedRetry, None)) (\<lambda>admin. reads (\<lambda>s.
     let name = st_ResolvedBucketName (b_Status (s_obj s)) in
     check (measure r c name admin eff) (recordFailure r name eff) (\<lambda>(stats, elapsed).
       andDo (warnAboutMeasurement r name stats eff)
         (after (patchUsage r stats elapsed eff) (\<lambda>err.
            if err \<noteq> None then finish (minDuration (eu_interval eff) usageFailureRetry, None)
            else reads (\<lambda>s. finish (nextMeasurement (s_obj s) (eu_interval eff), None)))))))"

definition ReconcileUsage :: "'w BucketUsageReconciler \<Rightarrow> string \<Rightarrow> string \<Rightarrow> ('w st, Result) handler" where
  "ReconcileUsage r ns n =
     check (callOut (k_GetBucket (ur_kube r) ns n) (\<lambda>x. KGetBucket ns n (isOk x)))
       (\<lambda>err. finish (0, ignoreNotFound (Some err)))
       (\<lambda>b. andDo (modObj (\<lambda>_. b))
          (if b_DeletionTimestamp b \<noteq> None then finish (0, None)
           else let eff = effectiveFor (ur_Config r) b in
             after (precheck r eff) (\<lambda>stop. case stop of Some res \<Rightarrow> finish res
               | None \<Rightarrow> (case ur_Stackit r of None \<Rightarrow> finish (0, None) | Some c \<Rightarrow> measureDue r c eff))))"

section \<open>Footprints\<close>

definition usageOnly :: "Bucket \<Rightarrow> Bucket \<Rightarrow> bool" where
  "usageOnly base b \<longleftrightarrow> b = base\<lparr>b_Status := (b_Status base)\<lparr>st_Usage := st_Usage (b_Status b)\<rparr>\<rparr>"

lemma usageOnly_set [simp]: "usageOnly base (base\<lparr>b_Status := (b_Status base)\<lparr>st_Usage := u\<rparr>\<rparr>)"
  by (simp add: usageOnly_def)

lemma only_warn [only_rules]: "calls_only A (warn r x y)"
  unfolding warn_def by (intro only_rules only_sets) simp

lemma only_patchStatus [only_rules]:
  "(\<And>base b y. usageOnly base b \<Longrightarrow> A (KPatchStatus base b y)) \<Longrightarrow> calls_only A (patchStatus r u)"
  unfolding patchStatus_def by (intro only_rules only_callOut) simp

lemma only_patches [only_rules]:
  assumes "\<And>base b y. usageOnly base b \<Longrightarrow> A (KPatchStatus base b y)"
  shows "calls_only A (patchUsageMessage r m)" "calls_only A (patchUsageParked r m)" "calls_only A (clearUsage r)"
    "calls_only A (patchUsage r st el eff)" "calls_only A (precheck r eff)" "calls_only A (recordFailure r n eff e)"
proof -
  show p: "calls_only A (patchUsageMessage r m)" "calls_only A (patchUsageParked r m)" "calls_only A (clearUsage r)"
    "calls_only A (patchUsage r st el eff)" for m
    unfolding patchUsageMessage_def patchUsageParked_def clearUsage_def patchUsage_def by (intro only_rules assms; assumption)+
  show "calls_only A (precheck r eff)" "calls_only A (recordFailure r n eff e)"
    unfolding precheck_def recordFailure_def by (intro only_rules p)+
qed

lemma only_measure [only_rules]:
  "(\<And>e. A (CGetBucket n e)) \<Longrightarrow> (\<And>v x. A (CListObjects n v x)) \<Longrightarrow> calls_only A (measure r c n admin eff)"
  unfolding measure_def by (intro only_rules)

lemma only_warnAbout [only_rules]: "calls_only A (warnAboutMeasurement r n st eff)"
  unfolding warnAboutMeasurement_def by (intro only_rules)

text \<open>A pass that goes on has touched nothing.\<close>

lemma precheck_None:
  assumes "precheck r eff s = (None, s')"
  shows "s' = s \<and> eu_err eff = None \<and> eu_enabled eff \<and> ur_Stackit r \<noteq> None \<and> st_ResolvedBucketName (b_Status (s_obj s)) \<noteq> [] \<and>
    bucketIsReady (s_obj s) \<and> untilDue (s_obj s) (eu_interval eff) (clock (ur_sys r) s) \<le> 0"
  using assms by (auto simp: precheck_def exec Let_def split: option.splits if_splits)

lemma precheck_result: "precheck r eff s = (Some res, s') \<Longrightarrow> snd res = None"
  by (auto simp: precheck_def exec Let_def split: option.splits if_splits)

lemma measureDue_result: "snd (fst (measureDue r c eff s)) = None"
  by (auto simp: measureDue_def recordFailure_def exec Let_def split: sum.split option.split prod.split)

section \<open>Durations are parsed to the end\<close>

lemma leadingInt_rest: "leadingInt x s = Some (v, s') \<Longrightarrow> length s' \<le> length s"
  by (induction x s rule: leadingInt.induct) (auto simp: Let_def split: if_splits)

lemma leadingFraction_rest: "length (snd (snd (leadingFraction x sc ov s))) \<le> length s"
  by (induction x sc ov s rule: leadingFraction.induct) (auto simp: Let_def intro: le_SucI)

lemma component_rest:
  assumes "component orig s = Inr (v, s')"
  shows "length s' < length s"
proof -
  from assms obtain w s1 where l: "leadingInt 0 s = Some (w, s1)" by (auto simp: component_def split: if_splits option.splits)
  let ?d = "s1 \<noteq> [] \<and> hd s1 = CHR ''.''"
  define f2 where "f2 = (if ?d then leadingFraction 0 1 False (tl s1) else (0, 1, s1))"
  have s2: "length (snd (snd f2)) \<le> length s1"
    using leadingFraction_rest [of 0 1 False "tl s1"] by (auto simp: f2_def)
  have "s' = dropWhile (\<lambda>c. \<not> startsNumber c) (snd (snd f2)) \<and> takeWhile (\<lambda>c. \<not> startsNumber c) (snd (snd f2)) \<noteq> []"
    using assms l by (auto simp: component_def Let_def f2_def [symmetric] split: if_splits option.splits prod.splits)
  moreover have "length (takeWhile P xs) + length (dropWhile P xs) = length xs" for P and xs :: string
    by (metis length_append takeWhile_dropWhile_id)
  ultimately have "length s' < length (snd (snd f2))" by (metis add_le_same_cancel2 leI length_greater_0_conv not_less)
  with s2 leadingInt_rest [OF l] show ?thesis by simp
qed

lemma component_error: "component orig s = Inl e \<Longrightarrow> e \<noteq> OutOfFuel"
  by (auto simp: component_def invalidDuration_def Let_def split: if_splits option.splits prod.splits)

lemma components_end: "length s \<le> fuel \<Longrightarrow> components fuel orig d s \<noteq> Inl OutOfFuel"
proof (induction fuel orig d s rule: components.induct)
  case (3 fuel orig d c s)
  show ?case
  proof (cases "component orig (c # s)")
    case (Inl e)
    with component_error show ?thesis by auto
  next
    case (Inr vs)
    obtain v s' where vs: "vs = (v, s')" by (cases vs)
    from component_rest [of orig "c # s" v s'] Inr vs "3.prems" have "length s' \<le> fuel" by simp
    with "3.IH" [OF Inr vs [symmetric]] Inr vs show ?thesis by (auto simp: invalidDuration_def)
  qed
qed simp_all

section \<open>Properties\<close>

text \<open>What a measurement may send for the Bucket \<open>b\<close>, read at time \<open>now\<close>.\<close>

definition measurable :: "'w BucketUsageReconciler \<Rightarrow> Bucket \<Rightarrow> int \<Rightarrow> bool" where
  "measurable r b now \<longleftrightarrow> b_DeletionTimestamp b = None \<and> ur_Stackit r \<noteq> None \<and> st_ResolvedBucketName (b_Status b) \<noteq> [] \<and> bucketIsReady b \<and>
     uc_Enabled (ur_Config r) \<and> eu_enabled (effectiveFor (ur_Config r) b) \<and>
     untilDue b (eu_interval (effectiveFor (ur_Config r) b)) now \<le> 0"

definition usageCall :: "'w BucketUsageReconciler \<Rightarrow> Bucket \<Rightarrow> int \<Rightarrow> call \<Rightarrow> bool" where
  "usageCall r b now x =
     (case x of KPatchStatus base b' y \<Rightarrow> usageOnly base b'
      | CGetBucket n e \<Rightarrow> n = st_ResolvedBucketName (b_Status b) \<and> measurable r b now
      | CListObjects n v os \<Rightarrow> n = st_ResolvedBucketName (b_Status b) \<and> measurable r b now
      | KGetBucket ns n y \<Rightarrow> True
      | KGetSecret ns n y \<Rightarrow> ns = ur_AdminSecretNamespace r \<and> n = ur_AdminSecretName r
      | _ \<Rightarrow> False)"

lemma effective_gate: "eu_enabled (effectiveFor c b) \<Longrightarrow> uc_Enabled c"
  by (auto simp: effectiveFor_def withDefaults_def Let_def split: sum.splits if_splits)

lemma measureDue_calls:
  assumes "measurable r b now" and "s_obj s = b"
  shows "\<exists>new. s_calls (snd (measureDue r c eff s)) = new @ s_calls s \<and> (\<forall>x \<in> set new. usageCall r b now x)"
proof -
  have adm: "calls_only (usageCall r b now) (readAdmin r)"
    unfolding readAdmin_def by (intro only_rules only_callOut) (simp add: usageCall_def)
  obtain ra s1 where ra: "readAdmin r s = (ra, s1)" by fastforce
  have "keeps (onObj b) (readAdmin r)"
    unfolding readAdmin_def by (intro keeps_rules ext_stable_onObj)
  with ra assms(2) have o1: "s_obj s1 = b" by (auto simp: onObj_def keeps_def valid_def)
  let ?n = "st_ResolvedBucketName (b_Status b)"
  let ?rest = "\<lambda>admin. check (measure r c ?n admin eff) (recordFailure r ?n eff) (\<lambda>(stats, elapsed).
       andDo (warnAboutMeasurement r ?n stats eff)
         (after (patchUsage r stats elapsed eff) (\<lambda>err.
            if err \<noteq> None then finish (minDuration (eu_interval eff) usageFailureRetry, None)
            else reads (\<lambda>s. finish (nextMeasurement (s_obj s) (eu_interval eff), None)))))"
  have rest: "calls_only (usageCall r b now) (?rest admin)" for admin
    by (intro only_rules) (simp_all add: usageCall_def assms(1))
  obtain n1 where n1: "s_calls s1 = n1 @ s_calls s" "\<forall>x \<in> set n1. usageCall r b now x" by (rule calls_onlyD [OF adm ra])
  show ?thesis
  proof (cases ra)
    case (Inl e)
    with n1 ra show ?thesis by (auto simp: measureDue_def exec)
  next
    case (Inr admin)
    have "measureDue r c eff s = ?rest admin s1" using ra Inr o1 by (simp add: measureDue_def exec Let_def)
    moreover obtain n2 where "s_calls (snd (?rest admin s1)) = n2 @ s_calls s1" "\<forall>x \<in> set n2. usageCall r b now x"
      using rest [of admin] unfolding calls_only_def by blast
    ultimately show ?thesis using n1 by (intro exI [of _ "n2 @ n1"]) auto
  qed
qed

lemma ReconcileUsage_calls:
  assumes "k_GetBucket (ur_kube r) ns n (s_world s) = (Inr b, w)"
  shows "snd (fst (ReconcileUsage r ns n s)) = None \<and>
    (\<exists>new. s_calls (snd (ReconcileUsage r ns n s)) = new @ s_calls s \<and> list_all (usageCall r b (sys_Now (ur_sys r) w)) new)"
proof -
  let ?now = "sys_Now (ur_sys r) w" and ?eff = "effectiveFor (ur_Config r) b"
  let ?s1 = "s\<lparr>s_world := w, s_calls := KGetBucket ns n True # s_calls s, s_obj := b\<rparr>"
  have k: "usageCall r b ?now (KGetBucket ns n True)" by (simp add: usageCall_def)
  have run: "ReconcileUsage r ns n s = (if b_DeletionTimestamp b \<noteq> None then ((0, None), ?s1)
      else after (precheck r ?eff) (\<lambda>stop. case stop of Some res \<Rightarrow> finish res
               | None \<Rightarrow> (case ur_Stackit r of None \<Rightarrow> finish (0, None) | Some c \<Rightarrow> measureDue r c ?eff)) ?s1)"
    using assms by (simp add: ReconcileUsage_def exec Let_def)
  show ?thesis
  proof (cases "b_DeletionTimestamp b \<noteq> None")
    case True
    with k show ?thesis by (simp add: run)
  next
    case False
    obtain stop s2 where p: "precheck r ?eff ?s1 = (stop, s2)" by fastforce
    have op: "calls_only (usageCall r b ?now) (precheck r ?eff)" by (intro only_rules) (simp add: usageCall_def)
    obtain n1 where n1: "s_calls s2 = n1 @ s_calls ?s1" "\<forall>x \<in> set n1. usageCall r b ?now x" by (rule calls_onlyD [OF op p])
    show ?thesis
    proof (cases stop)
      case (Some res)
      with False p n1 k precheck_result [OF p [unfolded Some]] show ?thesis by (auto simp: run exec list_all_iff)
    next
      case None
      from precheck_None [OF p [unfolded None]] have s2: "s2 = ?s1" and m: "measurable r b ?now" and c: "ur_Stackit r \<noteq> None"
        using False effective_gate by (auto simp: measurable_def clock_def)
      then obtain c where c: "ur_Stackit r = Some c" by blast
      obtain n2 where "s_calls (snd (measureDue r c ?eff ?s1)) = n2 @ s_calls ?s1" "\<forall>x \<in> set n2. usageCall r b ?now x"
        using measureDue_calls [OF m, of ?s1 c ?eff] by auto
      with False p None s2 c k show ?thesis
        by (auto simp: run exec list_all_iff measureDue_result intro!: exI [of _ "n2 @ [KGetBucket ns n True]"])
    qed
  qed
qed

text \<open>C20: measuring never interferes with provisioning. For the Bucket it read, a pass of the
  measurement controller returns no error, writes nothing but patches that change only
  \<open>status.usage\<close>, and talks to the provider only for the Bucket's own bucket and only when the
  operator-wide gate is open, measurement is enabled for it, it is Ready, not being deleted, and
  due; the only Secret it reads is the operator's.\<close>

theorem usage_writes_only_usage:
  assumes "k_GetBucket (ur_kube r) ns n (s_world s) = (Inr b, w)"
  shows "snd (fst (ReconcileUsage r ns n s)) = None \<and>
    (\<exists>new. s_calls (snd (ReconcileUsage r ns n s)) = new @ s_calls s \<and> list_all (usageCall r b (sys_Now (ur_sys r) w)) new)"
  by (rule ReconcileUsage_calls [OF assms])

text \<open>A provisioned Bucket that asks to be measured, and the measurement controller of the concrete
  reconciler.\<close>

definition usageConfig :: UsageConfig where
  "usageConfig = \<lparr>uc_Enabled = True, uc_DefaultEnabled = False, uc_Interval = 0, uc_MinInterval = 0, uc_MaxObjects = 100,
     uc_IncludeVersions = False, uc_PricePerGBHour = 0, uc_Currency = [], uc_Concurrency = 0\<rparr>"

definition usageReconciler :: "fworld BucketUsageReconciler" where
  "usageReconciler = \<lparr>ur_hasRecorder = True, ur_Stackit = Some (fakeClient ''proj'' ''eu01''), ur_Config = usageConfig,
     ur_AdminSecretName = ''admin-creds'', ur_AdminSecretNamespace = ''ops'', ur_minio = fakeMinio, ur_kube = fakeKube, ur_sys = fakeSys\<rparr>"

theorem usage_writes_only_usage_witness:
  "snd (fst (ReconcileUsage usageReconciler ''team'' ''data'' (fakeState taggedWorld sampleBucket))) = None"
proof -
  have "\<exists>w. k_GetBucket (ur_kube usageReconciler) ''team'' ''data'' (s_world (fakeState taggedWorld sampleBucket)) = (Inr readyBucket, w)"
    by (simp add: usageReconciler_def fakeKube_def fakeState_def taggedWorld_def readyBucket_def sampleBucket_def)
  then obtain w where "k_GetBucket (ur_kube usageReconciler) ''team'' ''data'' (s_world (fakeState taggedWorld sampleBucket)) = (Inr readyBucket, w)" ..
  from usage_writes_only_usage [OF this] show ?thesis by simp
qed


end
