(* ===== verification/Metrics.thy ===== *)
theory Metrics
  imports Usage
begin

text \<open>
  The Bucket metrics, \<open>internal/controller/metrics.go\<close>: what one scrape exports.

  A metric is its descriptor, its label values and its value; the channel the collector writes to is
  the list of metrics, in the order sent. The listing of the cached Buckets is an argument. Values are
  \<open>float64\<close>, so large counts are rounded by \<open>fl\<close>. The process counters and the histogram, which the
  Prometheus library keeps, are not part of the model.

  The properties: a scrape exports only series that were described, never the same series twice (the
  registry rejects both), and the fleet gauges are the numbers of Buckets they claim to count.
\<close>

section \<open>Definitions\<close>

datatype Desc = bucketsDesc | bucketsCloneDesc | bucketsDegradedDesc | bucketDegradedSinceDesc | bucketProvisionedMissingDesc
  | bucketsWipeOnDeleteDesc | skeletonModeDesc | wipeGateDesc | lastRotationDesc | bucketSizeDesc | bucketObjectsDesc
  | bucketVersionSizeDesc | bucketVersionObjectsDesc | bucketBillableSizeDesc | bucketCostDesc | bucketUsageMeasuredDesc
  | bucketUsageTruncatedDesc | bucketsUsageEnabledDesc | usageGateDesc | providerCircuitOpenDesc | providerCircuitOpenedSinceDesc

text \<open>The label names of a descriptor.\<close>

definition bucketLabels :: "string list" where
  "bucketLabels = [''namespace'', ''name'']"

definition descLabels :: "Desc \<Rightarrow> string list" where
  "descLabels d =
     (if d \<in> {bucketsDesc, bucketsCloneDesc} then [''phase'']
      else if d = bucketCostDesc then bucketLabels @ [''currency'']
      else if d \<in> {bucketDegradedSinceDesc, bucketProvisionedMissingDesc, lastRotationDesc, bucketSizeDesc, bucketObjectsDesc,
        bucketVersionSizeDesc, bucketVersionObjectsDesc, bucketBillableSizeDesc, bucketUsageMeasuredDesc, bucketUsageTruncatedDesc}
      then bucketLabels
      else [])"

record Metric =
  m_desc :: Desc
  m_labels :: "string list"
  m_value :: rat

definition gauge :: "Desc \<Rightarrow> rat \<Rightarrow> string list \<Rightarrow> Metric" where
  "gauge d v ls = \<lparr>m_desc = d, m_labels = ls, m_value = v\<rparr>"

text \<open>A phase that is not set yet has a label of its own; the others are the API's strings.\<close>

definition bucketPhaseUnknown :: string where "bucketPhaseUnknown = ''Unknown''"

definition phaseLabel :: "BucketPhase \<Rightarrow> string" where
  "phaseLabel p = (case p of PhaseNone \<Rightarrow> bucketPhaseUnknown | PhasePending \<Rightarrow> ''Pending'' | PhaseProvisioning \<Rightarrow> ''Provisioning''
     | PhaseReady \<Rightarrow> ''Ready'' | PhaseFailed \<Rightarrow> ''Failed'' | PhaseDeleting \<Rightarrow> ''Deleting'')"

definition clonePhaseLabel :: "ClonePhase \<Rightarrow> string" where
  "clonePhaseLabel p = (case p of ClonePhaseNone \<Rightarrow> [] | ClonePhaseRunning \<Rightarrow> ''Running'' | ClonePhaseCompleted \<Rightarrow> ''Completed''
     | ClonePhaseFailed \<Rightarrow> ''Failed'')"

definition bucketPhases :: "BucketPhase list" where
  "bucketPhases = [PhasePending, PhaseProvisioning, PhaseReady, PhaseFailed, PhaseDeleting, PhaseNone]"

definition clonePhases :: "ClonePhase list" where
  "clonePhases = [ClonePhaseRunning, ClonePhaseCompleted, ClonePhaseFailed]"

definition boolGauge :: "bool \<Rightarrow> rat" where
  "boolGauge b = (if b then 1 else 0)"

text \<open>\<open>float64\<close> of an integer, and \<open>Time.Unix\<close> of an instant in nanoseconds.\<close>

definition floatOf :: "int \<Rightarrow> rat" where
  "floatOf i = fl (of_int i)"

definition unix :: "int \<Rightarrow> int" where
  "unix t = t div 10 ^ 9"

definition isConditionFalse :: "Condition list \<Rightarrow> string \<Rightarrow> bool" where
  "isConditionFalse cs ty = (case findCondition ty cs of None \<Rightarrow> False | Some c \<Rightarrow> \<not> c_Status c)"

record bucketMetricsCollector =
  bm_breaker :: "ProviderBreaker option"
  bm_skeletonMode :: bool
  bm_wipeGateEnabled :: bool
  bm_usageGateEnabled :: bool

definition RegisterBucketMetrics :: "ProviderBreaker option \<Rightarrow> bool \<Rightarrow> bool \<Rightarrow> bool \<Rightarrow> bucketMetricsCollector" where
  "RegisterBucketMetrics breaker skeletonMode wipeGateEnabled usageGateEnabled =
     \<lparr>bm_breaker = breaker, bm_skeletonMode = skeletonMode, bm_wipeGateEnabled = wipeGateEnabled, bm_usageGateEnabled = usageGateEnabled\<rparr>"

definition Describe :: "Desc list" where
  "Describe = [bucketsDesc, bucketsCloneDesc, bucketsDegradedDesc, bucketDegradedSinceDesc, bucketProvisionedMissingDesc,
     bucketsWipeOnDeleteDesc, skeletonModeDesc, wipeGateDesc, lastRotationDesc, bucketSizeDesc, bucketObjectsDesc,
     bucketVersionSizeDesc, bucketVersionObjectsDesc, bucketBillableSizeDesc, bucketCostDesc, bucketUsageMeasuredDesc,
     bucketUsageTruncatedDesc, bucketsUsageEnabledDesc, usageGateDesc, providerCircuitOpenDesc, providerCircuitOpenedSinceDesc]"

definition collectUsage :: "string \<Rightarrow> string \<Rightarrow> UsageStatus \<Rightarrow> int \<Rightarrow> Metric list" where
  "collectUsage namespace name u lastMeasurement =
     (let g = (\<lambda>d v. gauge d v [namespace, name]) in
      [g bucketSizeDesc (floatOf (u_Bytes u)), g bucketObjectsDesc (floatOf (u_Objects u)),
       g bucketVersionSizeDesc (floatOf (u_VersionBytes u)), g bucketVersionObjectsDesc (floatOf (u_VersionObjects u)),
       g bucketBillableSizeDesc (floatOf (u_BillableBytes u)), g bucketUsageMeasuredDesc (floatOf (unix lastMeasurement)),
       g bucketUsageTruncatedDesc (boolGauge (u_Truncated u))] @
      (if u_Currency u \<noteq> []
       then [gauge bucketCostDesc (fl (floatOf (u_EstimatedMonthlyCostCents u) / 100)) [namespace, name, u_Currency u]] else []))"

definition collectBucket :: "Bucket \<Rightarrow> BucketPhase \<Rightarrow> Metric list \<times> bool \<times> bool" where
  "collectBucket b phase =
     (let st = b_Status b; ls = [b_Namespace b, b_Name b];
          held = st_DegradedSince st \<noteq> None \<and> phase = PhaseReady;
          since = (case st_DegradedSince st of Some t \<Rightarrow> if phase = PhaseReady then [gauge bucketDegradedSinceDesc (floatOf (unix t)) ls] else []
            | None \<Rightarrow> []);
          missing = (if isConditionFalse (st_Conditions st) ConditionBucketPresent then [gauge bucketProvisionedMissingDesc 1 ls] else []);
          rotated = (case st_LastRotationTime st of Some t \<Rightarrow> [gauge lastRotationDesc (floatOf (unix t)) ls] | None \<Rightarrow> []);
          last = (case st_Usage st of Some u \<Rightarrow> u_LastMeasurementTime u | None \<Rightarrow> None);
          usage = (case (st_Usage st, last) of (Some u, Some t) \<Rightarrow> collectUsage (b_Namespace b) (b_Name b) u t | _ \<Rightarrow> [])
      in (since @ missing @ rotated @ usage, held, last \<noteq> None))"

text \<open>The loop over the listed Buckets: the metrics sent and the counts.\<close>

record scrapeTally =
  t_sent :: "Metric list"
  t_byPhase :: "BucketPhase \<Rightarrow> int"
  t_byClonePhase :: "ClonePhase \<Rightarrow> int"
  t_wipeOnDelete :: int
  t_degraded :: int
  t_measured :: int

definition noTally :: scrapeTally where
  "noTally = \<lparr>t_sent = [], t_byPhase = (\<lambda>_. 0), t_byClonePhase = (\<lambda>_. 0), t_wipeOnDelete = 0, t_degraded = 0, t_measured = 0\<rparr>"

definition countBucket :: "scrapeTally \<Rightarrow> Bucket \<Rightarrow> scrapeTally" where
  "countBucket t b =
     (let phase = st_Phase (b_Status b); (sent, held, hasUsage) = collectBucket b phase in
      \<lparr>t_sent = t_sent t @ sent, t_byPhase = (t_byPhase t)(phase := t_byPhase t phase + 1),
       t_byClonePhase = (case st_Clone (b_Status b) of None \<Rightarrow> t_byClonePhase t
         | Some c \<Rightarrow> if cl_Phase c \<noteq> ClonePhaseNone then (t_byClonePhase t)(cl_Phase c := t_byClonePhase t (cl_Phase c) + 1)
             else t_byClonePhase t),
       t_wipeOnDelete = t_wipeOnDelete t + (if sp_WipeOnDelete (b_Spec b) then 1 else 0),
       t_degraded = t_degraded t + (if held then 1 else 0), t_measured = t_measured t + (if hasUsage then 1 else 0)\<rparr>)"

definition CollectBuckets :: "bucketMetricsCollector \<Rightarrow> go_error + Bucket list \<Rightarrow> Metric list" where
  "CollectBuckets c listed =
     [gauge skeletonModeDesc (boolGauge (bm_skeletonMode c)) [], gauge wipeGateDesc (boolGauge (bm_wipeGateEnabled c)) [],
      gauge usageGateDesc (boolGauge (bm_usageGateEnabled c)) [],
      gauge providerCircuitOpenDesc (boolGauge (OpenedAt (bm_breaker c) \<noteq> None)) []] @
     (case OpenedAt (bm_breaker c) of Some t \<Rightarrow> [gauge providerCircuitOpenedSinceDesc (floatOf (unix t)) []] | None \<Rightarrow> []) @
     (case listed of
        Inl err \<Rightarrow> []
      | Inr items \<Rightarrow>
          let t = foldl countBucket noTally items in
          t_sent t @
          map (\<lambda>p. gauge bucketsDesc (floatOf (t_byPhase t p)) [phaseLabel p]) bucketPhases @
          map (\<lambda>p. gauge bucketsCloneDesc (floatOf (t_byClonePhase t p)) [clonePhaseLabel p]) clonePhases @
          [gauge bucketsWipeOnDeleteDesc (floatOf (t_wipeOnDelete t)) [], gauge bucketsDegradedDesc (floatOf (t_degraded t)) [],
           gauge bucketsUsageEnabledDesc (floatOf (t_measured t)) []])"

section \<open>The loop\<close>

abbreviation "phaseOf b \<equiv> st_Phase (b_Status b)"

definition series :: "Metric \<Rightarrow> Desc \<times> string list" where
  "series m = (m_desc m, m_labels m)"

definition cloneIn :: "ClonePhase \<Rightarrow> Bucket \<Rightarrow> bool" where
  "cloneIn p b \<longleftrightarrow> (\<exists>c. st_Clone (b_Status b) = Some c \<and> cl_Phase c = p)"

definition held :: "Bucket \<Rightarrow> bool" where
  "held b \<longleftrightarrow> st_DegradedSince (b_Status b) \<noteq> None \<and> phaseOf b = PhaseReady"

definition measured :: "Bucket \<Rightarrow> bool" where
  "measured b \<longleftrightarrow> (\<exists>u t. st_Usage (b_Status b) = Some u \<and> u_LastMeasurementTime u = Some t)"

abbreviation "number P xs \<equiv> int (length (filter P xs))"

lemma series_gauge [simp]: "series (gauge d v ls) = (d, ls)" "m_desc (gauge d v ls) = d" "m_labels (gauge d v ls) = ls"
    "m_value (gauge d v ls) = v"
  by (simp_all add: series_def gauge_def)

lemma collectBucket_flags: "snd (collectBucket b (phaseOf b)) = (held b, measured b)"
  by (auto simp: collectBucket_def Let_def held_def measured_def split: option.splits)

lemma countBucket_run:
  "countBucket t b = \<lparr>t_sent = t_sent t @ fst (collectBucket b (phaseOf b)),
     t_byPhase = (\<lambda>p. t_byPhase t p + (if phaseOf b = p then 1 else 0)),
     t_byClonePhase = (\<lambda>p. t_byClonePhase t p + (if p \<noteq> ClonePhaseNone \<and> cloneIn p b then 1 else 0)),
     t_wipeOnDelete = t_wipeOnDelete t + (if sp_WipeOnDelete (b_Spec b) then 1 else 0),
     t_degraded = t_degraded t + (if held b then 1 else 0), t_measured = t_measured t + (if measured b then 1 else 0)\<rparr>"
proof -
  obtain sent where c: "collectBucket b (phaseOf b) = (sent, held b, measured b)"
    using collectBucket_flags [of b] by (cases "collectBucket b (phaseOf b)") auto
  have "(case st_Clone (b_Status b) of None \<Rightarrow> f | Some c \<Rightarrow> if cl_Phase c \<noteq> ClonePhaseNone then f(cl_Phase c := f (cl_Phase c) + 1) else f) =
      (\<lambda>p. f p + (if p \<noteq> ClonePhaseNone \<and> cloneIn p b then 1 else 0))" for f :: "ClonePhase \<Rightarrow> int"
    by (auto simp: cloneIn_def fun_eq_iff split: option.split)
  moreover have "g(p := g p + 1) = (\<lambda>q. g q + (if p = q then 1 else 0))" for g :: "BucketPhase \<Rightarrow> int" and p
    by (auto simp: fun_eq_iff)
  ultimately show ?thesis by (simp add: countBucket_def c Let_def)
qed

lemma tally_run:
  "foldl countBucket t items =
     \<lparr>t_sent = t_sent t @ concat (map (\<lambda>b. fst (collectBucket b (phaseOf b))) items),
      t_byPhase = (\<lambda>p. t_byPhase t p + number (\<lambda>b. phaseOf b = p) items),
      t_byClonePhase = (\<lambda>p. t_byClonePhase t p + (if p = ClonePhaseNone then 0 else number (cloneIn p) items)),
      t_wipeOnDelete = t_wipeOnDelete t + number (\<lambda>b. sp_WipeOnDelete (b_Spec b)) items,
      t_degraded = t_degraded t + number held items, t_measured = t_measured t + number measured items\<rparr>"
  by (induction items arbitrary: t) (simp_all add: countBucket_run fun_eq_iff)

section \<open>Series\<close>

definition perBucket :: "Desc set" where
  "perBucket = {bucketDegradedSinceDesc, bucketProvisionedMissingDesc, lastRotationDesc, bucketSizeDesc, bucketObjectsDesc,
     bucketVersionSizeDesc, bucketVersionObjectsDesc, bucketBillableSizeDesc, bucketCostDesc, bucketUsageMeasuredDesc, bucketUsageTruncatedDesc}"

definition fixedDescs :: "Desc set" where
  "fixedDescs = {skeletonModeDesc, wipeGateDesc, usageGateDesc, providerCircuitOpenDesc, providerCircuitOpenedSinceDesc}"

definition fleetDescs :: "Desc set" where
  "fleetDescs = {bucketsDesc, bucketsCloneDesc, bucketsWipeOnDeleteDesc, bucketsDegradedDesc, bucketsUsageEnabledDesc}"

lemma collectBucket_series:
  "distinct (map series (fst (collectBucket b p))) \<and>
   (\<forall>m \<in> set (fst (collectBucket b p)). m_desc m \<in> perBucket \<and> length (m_labels m) = length (descLabels (m_desc m)) \<and>
      take 2 (m_labels m) = [b_Namespace b, b_Name b])"
  by (auto simp: collectBucket_def collectUsage_def Let_def perBucket_def descLabels_def bucketLabels_def split: option.splits)

lemma allDescs: "d \<in> set Describe"
  by (cases d) (simp_all add: Describe_def)

lemma sent_distinct:
  assumes "distinct (map objKey items)"
  shows "distinct (map series (concat (map (\<lambda>b. fst (collectBucket b (phaseOf b))) items)))"
  using assms
proof (induction items)
  case (Cons b items)
  have "series x \<noteq> series y" if "x \<in> set (fst (collectBucket b (phaseOf b)))" "b' \<in> set items" "y \<in> set (fst (collectBucket b' (phaseOf b')))" for x y b'
  proof
    assume "series x = series y"
    with that collectBucket_series have "[b_Namespace b, b_Name b] = [b_Namespace b', b_Name b']" by (metis series_def snd_conv)
    with that(2) Cons.prems show False by (auto simp: objKey_def image_iff)
  qed
  then have "series ` set (fst (collectBucket b (phaseOf b))) \<inter> series ` set (concat (map (\<lambda>b. fst (collectBucket b (phaseOf b))) items)) = {}"
    by fastforce
  with Cons collectBucket_series [of b] show ?case by simp
qed simp

lemma bitLen_bound: "n < 2 ^ k \<Longrightarrow> bitLen n \<le> k"
proof (induction n arbitrary: k rule: bitLen.induct)
  case (1 n)
  show ?case
  proof (cases "n = 0")
    case False
    with "1.prems" obtain j where k: "k = Suc j" by (cases k) auto
    with "1.prems" have "n div 2 < 2 ^ j" by auto
    from "1.IH" [OF False this] False k show ?thesis by (simp add: bitLen.simps [of n])
  qed (simp add: bitLen.simps)
qed

lemma roundEven_one: "roundEven a (Suc 0) = a"
  by (simp add: roundEven_def)

text \<open>Counts up to \<open>2\<^sup>5\<^sup>3\<close> are exported exactly.\<close>

lemma floatOf_exact:
  assumes "0 \<le> i" and "i < 2 ^ 53"
  shows "floatOf i = of_int i"
proof (cases "i = 0")
  case False
  with assms(1) have pos: "0 < i" by simp
  from assms have "bitLen (nat i) \<le> 53" by (intro bitLen_bound) (simp add: nat_less_iff)
  moreover have "bitLen 1 = 1" by (simp add: bitLen.simps)
  moreover have "quotient_of (of_int i :: rat) = (i, 1)" by (simp add: of_int_rat quotient_of_Fract)
  ultimately show ?thesis
    using pos by (auto simp: floatOf_def fl_def flPos_def Let_def roundEven_one)
qed (simp add: floatOf_def fl_def)

section \<open>Properties\<close>

lemma scrape_run:
  "CollectBuckets c (Inr items) = CollectBuckets c (Inl err) @ concat (map (\<lambda>b. fst (collectBucket b (phaseOf b))) items) @
     map (\<lambda>p. gauge bucketsDesc (floatOf (number (\<lambda>b. phaseOf b = p) items)) [phaseLabel p]) bucketPhases @
     map (\<lambda>p. gauge bucketsCloneDesc (floatOf (number (cloneIn p) items)) [clonePhaseLabel p]) clonePhases @
     [gauge bucketsWipeOnDeleteDesc (floatOf (number (\<lambda>b. sp_WipeOnDelete (b_Spec b)) items)) [],
      gauge bucketsDegradedDesc (floatOf (number held items)) [], gauge bucketsUsageEnabledDesc (floatOf (number measured items)) []]"
  by (simp add: CollectBuckets_def tally_run noTally_def Let_def clonePhases_def)

lemma fixed_series:
  "distinct (map series (CollectBuckets c (Inl err)))"
  "m \<in> set (CollectBuckets c (Inl err)) \<Longrightarrow> m_labels m = [] \<and> descLabels (m_desc m) = [] \<and>
     m_desc m \<in> fixedDescs"
  by (auto simp: CollectBuckets_def descLabels_def fixedDescs_def split: option.splits)

lemma distinct_by_desc:
  assumes "distinct xs" "distinct ys" "distinct zs" and "fst ` set xs \<subseteq> fixedDescs" "fst ` set ys \<subseteq> perBucket" "fst ` set zs \<subseteq> fleetDescs"
  shows "distinct (xs @ ys @ zs)"
proof -
  have "fixedDescs \<inter> (perBucket \<union> fleetDescs) = {}" "perBucket \<inter> fleetDescs = {}"
    by (simp_all add: fixedDescs_def perBucket_def fleetDescs_def)
  with assms(4-6) have "set xs \<inter> (set ys \<union> set zs) = {}" "set ys \<inter> set zs = {}" by blast+
  with assms(1-3) show ?thesis by simp
qed

text \<open>C37: a scrape is always accepted by the registry. Whatever the state of the Buckets, the series of
  a scrape are pairwise different, as long as the listed Buckets have different namespaced names, and
  each has a described descriptor and as many label values as that has labels.\<close>

theorem scrape_consistent:
  assumes "\<And>items. listed = Inr items \<Longrightarrow> distinct (map objKey items)"
  shows "distinct (map series (CollectBuckets c listed)) \<and>
    list_all (\<lambda>m. m_desc m \<in> set Describe \<and> length (m_labels m) = length (descLabels (m_desc m))) (CollectBuckets c listed)"
proof (cases listed)
  case (Inl err)
  with fixed_series(1) [of c err] fixed_series(2) [of _ c err] show ?thesis by (auto simp: list_all_iff allDescs)
next
  case (Inr items)
  let ?sent = "concat (map (\<lambda>b. fst (collectBucket b (phaseOf b))) items)"
  let ?fleet = "map (\<lambda>p. (bucketsDesc, [phaseLabel p])) bucketPhases @ map (\<lambda>p. (bucketsCloneDesc, [clonePhaseLabel p])) clonePhases @
    [(bucketsWipeOnDeleteDesc, []), (bucketsDegradedDesc, []), (bucketsUsageEnabledDesc, [])]"
  have keys: "map series (CollectBuckets c listed) = map series (CollectBuckets c (Inl undefined)) @ map series ?sent @ ?fleet"
    by (simp add: Inr scrape_run [of c items undefined] comp_def)
  have fleet: "distinct ?fleet"
    by (simp add: bucketPhases_def clonePhases_def phaseLabel_def clonePhaseLabel_def bucketPhaseUnknown_def)
  have "fst ` set (map series (CollectBuckets c (Inl undefined))) \<subseteq> fixedDescs" "fst ` set (map series ?sent) \<subseteq> perBucket"
    "fst ` set ?fleet \<subseteq> fleetDescs"
    using fixed_series(2) [of _ c undefined] collectBucket_series by (fastforce simp: series_def fleetDescs_def)+
  from distinct_by_desc [OF fixed_series(1) sent_distinct [OF assms [OF Inr]] fleet this]
  have "distinct (map series (CollectBuckets c listed))" unfolding keys .
  moreover have "length (m_labels m) = length (descLabels (m_desc m))" if "m \<in> set (CollectBuckets c listed)" for m
  proof -
    have fl: "length (descLabels bucketsDesc) = 1" "length (descLabels bucketsCloneDesc) = 1" "descLabels bucketsWipeOnDeleteDesc = []"
      "descLabels bucketsDegradedDesc = []" "descLabels bucketsUsageEnabledDesc = []" by (simp_all add: descLabels_def)
    from that fixed_series(2) [of m c undefined] collectBucket_series show ?thesis
      by (auto simp: Inr scrape_run [of c items undefined] fl)
  qed
  ultimately show ?thesis by (simp add: list_all_iff allDescs)
qed

definition samples :: "Desc \<Rightarrow> Metric list \<Rightarrow> Metric list" where
  "samples d ms = filter (\<lambda>m. m_desc m = d) ms"

lemma samples_append [simp]: "samples d (xs @ ys) = samples d xs @ samples d ys"
  by (simp add: samples_def)

lemma samples_fixed:
  "d \<notin> fixedDescs \<Longrightarrow>
     samples d (CollectBuckets c (Inl err)) = []"
  unfolding samples_def filter_empty_conv using fixed_series(2) by blast

lemma samples_sent:
  "samples d (concat (map f items)) = concat (map (\<lambda>b. samples d (f b)) items)"
  by (simp add: samples_def filter_concat comp_def)

lemma samples_fleet: "d \<notin> perBucket \<Longrightarrow> samples d (fst (collectBucket b p)) = []"
  unfolding samples_def filter_empty_conv using collectBucket_series by blast

lemma samples_bucket:
  "length (samples bucketDegradedSinceDesc (fst (collectBucket b (phaseOf b)))) = (if held b then 1 else 0)"
  "length (samples bucketUsageMeasuredDesc (fst (collectBucket b (phaseOf b)))) = (if measured b then 1 else 0)"
  "map m_labels (samples bucketProvisionedMissingDesc (fst (collectBucket b p))) =
     (if isConditionFalse (st_Conditions (b_Status b)) ConditionBucketPresent then [[b_Namespace b, b_Name b]] else [])"
  by (auto simp: samples_def collectBucket_def collectUsage_def Let_def held_def measured_def split: option.splits)

lemma length_concat_if: "length (concat (map f xs)) = length (filter P xs)" if "\<And>x. length (f x) = (if P x then 1 else 0)"
  using that by (induction xs) auto

lemma phases_total: "(\<Sum>p\<leftarrow>bucketPhases. length (filter (\<lambda>b. phaseOf b = p) items)) = length items"
proof (induction items)
  case (Cons b items)
  then show ?case by (cases "phaseOf b") (simp_all add: bucketPhases_def)
qed (simp add: bucketPhases_def)

text \<open>The fleet gauges count what they say. After a successful listing of fewer than \<open>2\<^sup>5\<^sup>3\<close> Buckets
  there is exactly one sample per phase, its value is the number of Buckets in that phase, and these
  add up to the number of Buckets; the degraded and measured gauges are the numbers of Buckets that
  export a degraded-since and a last-measurement series; and the missing-bucket series exists exactly
  for the Buckets with \<open>BucketPresent=False\<close>.\<close>

lemma fleet_gauges_exact:
  assumes "length items < 2 ^ 53" and "CollectBuckets c (Inr items) = ms"
  shows "map (\<lambda>m. (m_labels m, m_value m)) (samples bucketsDesc ms) =
      map (\<lambda>p. ([phaseLabel p], of_nat (length (filter (\<lambda>b. st_Phase (b_Status b) = p) items)))) bucketPhases \<and>
    sum_list (map m_value (samples bucketsDesc ms)) = of_nat (length items) \<and>
    map m_value (samples bucketsDegradedDesc ms) = [of_nat (length (samples bucketDegradedSinceDesc ms))] \<and>
    map m_value (samples bucketsUsageEnabledDesc ms) = [of_nat (length (samples bucketUsageMeasuredDesc ms))] \<and>
    map m_labels (samples bucketProvisionedMissingDesc ms) =
      map (\<lambda>b. [b_Namespace b, b_Name b]) (filter (\<lambda>b. isConditionFalse (st_Conditions (b_Status b)) ConditionBucketPresent) items)"
proof -
  let ?sent = "concat (map (\<lambda>b. fst (collectBucket b (phaseOf b))) items)"
  note run = assms(2) [symmetric, unfolded scrape_run [of c items undefined]]
  have cnt: "floatOf (number P items) = of_nat (length (filter P items))" for P
    using assms(1) floatOf_exact [of "number P items"] length_filter_le [of P items] by (simp add: le_less_trans)
  have none: "samples d ?sent = []" if "d \<notin> perBucket" for d
    using that by (simp add: samples_sent samples_fleet)
  have ph: "samples bucketsDesc ms = map (\<lambda>p. gauge bucketsDesc (of_nat (length (filter (\<lambda>b. phaseOf b = p) items))) [phaseLabel p]) bucketPhases"
    by (simp add: run samples_fixed none perBucket_def fixedDescs_def cnt) (simp add: samples_def bucketPhases_def clonePhases_def)
  have "(\<Sum>m\<leftarrow>samples bucketsDesc ms. m_value m) = of_nat (\<Sum>p\<leftarrow>bucketPhases. length (filter (\<lambda>b. phaseOf b = p) items))"
    by (simp add: ph comp_def bucketPhases_def)
  moreover have "samples bucketsDegradedDesc ms = [gauge bucketsDegradedDesc (of_nat (length (filter held items))) []]"
    "samples bucketsUsageEnabledDesc ms = [gauge bucketsUsageEnabledDesc (of_nat (length (filter measured items))) []]"
    by (simp_all add: run samples_fixed none perBucket_def fixedDescs_def cnt) (simp_all add: samples_def bucketPhases_def clonePhases_def)
  moreover have sent: "samples d ms = samples d ?sent" if "d \<in> perBucket" for d
  proof -
    from that have "d \<notin> fixedDescs" "d \<notin> fleetDescs" by (auto simp: perBucket_def fixedDescs_def fleetDescs_def)
    then show ?thesis by (simp add: run samples_fixed) (auto simp: samples_def fleetDescs_def bucketPhases_def clonePhases_def)
  qed
  moreover have "map m_labels (samples bucketProvisionedMissingDesc ?sent) =
      map (\<lambda>b. [b_Namespace b, b_Name b]) (filter (\<lambda>b. isConditionFalse (st_Conditions (b_Status b)) ConditionBucketPresent) items)"
    by (induction items) (simp_all add: samples_bucket, simp add: samples_def)
  ultimately show ?thesis
    by (simp add: ph comp_def phases_total sent perBucket_def samples_sent length_concat_if [of _ held] length_concat_if [of _ measured] samples_bucket)
qed

text \<open>Two Buckets of the same name in different namespaces, one of them vanished and one held.\<close>

definition missingBucketSample :: Bucket where
  "missingBucketSample = sampleBucket\<lparr>b_Namespace := ''other'', b_Status := (b_Status sampleBucket)\<lparr>st_Phase := PhaseFailed,
     st_Conditions := [\<lparr>c_Type = ConditionBucketPresent, c_Status = False, c_Reason = ''BucketMissing'', c_Message = [],
       c_ObservedGeneration = 1\<rparr>]\<rparr>\<rparr>"

definition heldSample :: Bucket where
  "heldSample = sampleBucket\<lparr>b_Status := (b_Status sampleBucket)\<lparr>st_Phase := PhaseReady, st_DegradedSince := Some (seconds 5)\<rparr>\<rparr>"

theorem scrape_consistent_witness:
  "distinct (map series (CollectBuckets (RegisterBucketMetrics None False False True) (Inr [heldSample, missingBucketSample])))"
  using scrape_consistent [of "Inr [heldSample, missingBucketSample]" "RegisterBucketMetrics None False False True"]
  by (simp add: objKey_def heldSample_def missingBucketSample_def sampleBucket_def)

end
