(* ===== verification/Startup.thy ===== *)
theory Startup
  imports Controller KeyReload Metrics
begin

text \<open>
  The process start, \<open>cmd/main.go\<close>, with \<open>LoadAccount\<close> and \<open>NewClient\<close> of \<open>stackit/client.go\<close>.

  The environment is a function of the variable's name (an unset variable reads as empty). A setting
  is a flag whose default comes from the environment; the command line may then replace any of them,
  so \<open>startOperator\<close> takes the settings after it. What the libraries do at start (the manager, the
  controllers' registration, the SDK's client constructor, the JSON decoder of the resources, the two
  reads of the key file) are arguments.

  The properties: the operator never falls back to running without a provider because its key is
  unusable, it polls the key exactly when it should, and a variable that cannot be parsed leaves the
  default in force.
\<close>

section \<open>Reading the environment\<close>

text \<open>\<open>strconv.ParseBool\<close>.\<close>

definition ParseBool :: "string \<Rightarrow> bool option" where
  "ParseBool s =
     (if s \<in> {''1'', ''t'', ''T'', ''true'', ''TRUE'', ''True''} then Some True
      else if s \<in> {''0'', ''f'', ''F'', ''false'', ''FALSE'', ''False''} then Some False
      else None)"

type_synonym env = "string \<Rightarrow> string"

definition envOrDefault :: "env \<Rightarrow> string \<Rightarrow> string \<Rightarrow> string" where
  "envOrDefault env key def = (if env key \<noteq> [] then env key else def)"

definition envBoolOrDefault :: "env \<Rightarrow> string \<Rightarrow> bool \<Rightarrow> bool" where
  "envBoolOrDefault env key def = (case ParseBool (env key) of Some v \<Rightarrow> v | None \<Rightarrow> def)"

definition envIntOrDefault :: "env \<Rightarrow> string \<Rightarrow> int \<Rightarrow> int" where
  "envIntOrDefault env key def = (case ParseInt (env key) of Some v \<Rightarrow> v | None \<Rightarrow> def)"

definition envInt64OrDefault :: "env \<Rightarrow> string \<Rightarrow> int \<Rightarrow> int" where
  "envInt64OrDefault env key def = (case ParseInt (env key) of Some v \<Rightarrow> v | None \<Rightarrow> def)"

definition envDurationOrDefault :: "env \<Rightarrow> string \<Rightarrow> int \<Rightarrow> int" where
  "envDurationOrDefault env key def = (case ParseDuration (env key) of Inr v \<Rightarrow> v | Inl err \<Rightarrow> def)"

section \<open>Settings\<close>

definition RegionEU01 :: string where "RegionEU01 = ''eu01''"

record settings =
  se_enableLeaderElection :: bool
  se_metricsAddr :: string
  se_probeAddr :: string
  se_saKeyPath :: string
  se_saKeyReloadInterval :: int
  se_region :: string
  se_adminSecretName :: string
  se_operatorNamespace :: string
  se_bucketNamePrefix :: string
  se_bucketNameIncludeNamespace :: bool
  se_ownershipName :: string
  se_enableWipeOnDelete :: bool
  se_cloneImage :: string
  se_driftResyncInterval :: int
  se_providerDegradedGrace :: int
  se_providerCircuitThreshold :: int
  se_providerCircuitMaxCooldown :: int
  se_usageEnabled :: bool
  se_usageDefaultEnabled :: bool
  se_usageInterval :: int
  se_usageMinInterval :: int
  se_usageMaxObjects :: int
  se_usageIncludeVersions :: bool
  se_usageConcurrency :: int
  se_usagePrice :: string
  se_usageCurrency :: string

definition defaultSettings :: "env \<Rightarrow> settings" where
  "defaultSettings env =
     \<lparr>se_enableLeaderElection = False, se_metricsAddr = '':8080'', se_probeAddr = '':8081'',
      se_saKeyPath = env ''STACKIT_SERVICE_ACCOUNT_KEY_PATH'',
      se_saKeyReloadInterval = envDurationOrDefault env ''STACKIT_SERVICE_ACCOUNT_KEY_RELOAD_INTERVAL'' (seconds 30),
      se_region = envOrDefault env ''STACKIT_REGION'' RegionEU01,
      se_adminSecretName = envOrDefault env ''ADMIN_CREDENTIALS_SECRET_NAME'' ''stackit-s3-provisioner-admin'',
      se_operatorNamespace = env ''POD_NAMESPACE'',
      se_bucketNamePrefix = env ''BUCKET_NAME_PREFIX'',
      se_bucketNameIncludeNamespace = envBoolOrDefault env ''BUCKET_NAME_INCLUDE_NAMESPACE'' False,
      se_ownershipName = envOrDefault env ''OWNERSHIP_NAME'' ''stackit-s3-provisioner'',
      se_enableWipeOnDelete = envBoolOrDefault env ''ENABLE_WIPE_ON_DELETE'' False,
      se_cloneImage = envOrDefault env ''CLONE_IMAGE'' DefaultCloneImage,
      se_driftResyncInterval = envDurationOrDefault env ''DRIFT_RESYNC_INTERVAL'' (seconds 600),
      se_providerDegradedGrace = envDurationOrDefault env ''PROVIDER_DEGRADED_GRACE'' (seconds 1800),
      se_providerCircuitThreshold = envIntOrDefault env ''PROVIDER_CIRCUIT_THRESHOLD'' DefaultCircuitThreshold,
      se_providerCircuitMaxCooldown = envDurationOrDefault env ''PROVIDER_CIRCUIT_MAX_COOLDOWN'' DefaultCircuitMaxCooldown,
      se_usageEnabled = envBoolOrDefault env ''BUCKET_USAGE_ENABLED'' True,
      se_usageDefaultEnabled = envBoolOrDefault env ''BUCKET_USAGE_DEFAULT_ENABLED'' False,
      se_usageInterval = envDurationOrDefault env ''BUCKET_USAGE_INTERVAL'' DefaultUsageInterval,
      se_usageMinInterval = envDurationOrDefault env ''BUCKET_USAGE_MIN_INTERVAL'' DefaultUsageMinInterval,
      se_usageMaxObjects = envInt64OrDefault env ''BUCKET_USAGE_MAX_OBJECTS'' DefaultUsageMaxObjects,
      se_usageIncludeVersions = envBoolOrDefault env ''BUCKET_USAGE_INCLUDE_VERSIONS'' False,
      se_usageConcurrency = envIntOrDefault env ''BUCKET_USAGE_CONCURRENCY'' DefaultUsageConcurrency,
      se_usagePrice = env ''BUCKET_USAGE_PRICE_PER_GB_HOUR'',
      se_usageCurrency = envOrDefault env ''BUCKET_USAGE_CURRENCY'' DefaultUsageCurrency\<rparr>"

text \<open>\<open>LOGLEVEL\<close> is fed to the flag of the logging library, \<open>setLevel\<close>, unless it was given. The second
  component is the value fed.\<close>

definition applyLogLevelEnv :: "env \<Rightarrow> bool \<Rightarrow> (string \<Rightarrow> go_error option) \<Rightarrow> go_error option \<times> string option" where
  "applyLogLevelEnv env explicit setLevel =
     (let v = env ''LOGLEVEL'' in
      if v = [] then (None, None)
      else if explicit then (None, None)
      else case setLevel v of
        Some err \<Rightarrow> (Some (wrapf (''invalid value '' @ quoted v @ '' for LOGLEVEL: '') err), Some v)
      | None \<Rightarrow> (None, Some v))"

text \<open>\<open>strconv.ParseFloat\<close> is an argument; its results beyond the numbers are values of their own.\<close>

datatype goFloat = Finite rat | NaN | PosInf | NegInf

fun belowZero :: "goFloat \<Rightarrow> bool" where
  "belowZero (Finite x) = (x < 0)"
| "belowZero NegInf = True"
| "belowZero _ = False"

definition parseUsagePrice :: "(string \<Rightarrow> go_error + goFloat) \<Rightarrow> string \<Rightarrow> go_error + goFloat" where
  "parseUsagePrice parseFloat raw =
     (if raw = [] then Inr (Finite 0)
      else case parseFloat raw of Inl err \<Rightarrow> Inl err
      | Inr v \<Rightarrow> if belowZero v then Inl (Msg (''price '' @ quoted raw @ '' must not be negative'')) else Inr v)"

section \<open>The provider client\<close>

definition LoadAccount :: "(string \<Rightarrow> go_error + keyDoc) \<Rightarrow> go_error + string \<Rightarrow> string \<Rightarrow> go_error + Account" where
  "LoadAccount decode file keyPath =
     (case file of Inl err \<Rightarrow> Inl (wrapf ''read key file: '' err) | Inr raw \<Rightarrow> parseAccount decode raw keyPath)"

definition NewClient :: "(string \<Rightarrow> string) \<Rightarrow> (string \<Rightarrow> go_error + keyDoc) \<Rightarrow> (string \<Rightarrow> go_error + 'a \<times> 't) \<Rightarrow> go_error + string
    \<Rightarrow> Account \<Rightarrow> go_error + ('a, 't) clientState" where
  "NewClient hash decode build file acc =
     (case readKeyFile hash file of Inl err \<Rightarrow> Inl err
      | Inr (raw, h) \<Rightarrow>
          (case parseAccount decode raw (a_KeyPath acc) of Inl err \<Rightarrow> Inl err
           | Inr loaded \<Rightarrow>
               (case build raw of
                  Inl err \<Rightarrow> Inl (wrapf (''init object storage client for '' @ a_Issuer loaded @ '': '') err)
                | Inr (api, transport) \<Rightarrow>
                    Inr \<lparr>cs_api = api, cs_account = loaded, cs_transport = Some transport, cs_keyHash = h\<rparr>)))"

text \<open>What the process meets at start. The key file is read twice.\<close>

record ('a, 't) host =
  h_explicitLevel :: bool
  h_setLevel :: "string \<Rightarrow> go_error option"
  h_parseFloat :: "string \<Rightarrow> go_error + goFloat"
  h_manager :: "go_error option"
  h_file1 :: "go_error + string"
  h_file2 :: "go_error + string"
  h_hash :: "string \<Rightarrow> string"
  h_decode :: "string \<Rightarrow> go_error + keyDoc"
  h_build :: "string \<Rightarrow> go_error + 'a \<times> 't"
  h_resources :: "string \<Rightarrow> go_error option"
  h_addPoller :: "go_error option"
  h_bucketSetup :: "go_error option"
  h_usageSetup :: "go_error option"
  h_healthz :: "go_error option"
  h_readyz :: "go_error option"
  h_now :: int

definition newStackitClient :: "('a, 't) host \<Rightarrow> string \<Rightarrow> string \<Rightarrow> go_error + ('a, 't) clientState option" where
  "newStackitClient h saKeyPath operatorNamespace =
     (if saKeyPath = [] then Inr None
      else if operatorNamespace = []
        then Inl (Msg ''operator namespace unknown; set POD_NAMESPACE (or --operator-namespace) when a StackIT key is configured'')
      else case LoadAccount (h_decode h) (h_file1 h) saKeyPath of
        Inl err \<Rightarrow> Inl (wrapf ''load StackIT service-account key: '' err)
      | Inr acc \<Rightarrow>
          (case NewClient (h_hash h) (h_decode h) (h_build h) (h_file2 h) acc of
             Inl err \<Rightarrow> Inl (wrapf ''build StackIT client: '' err)
           | Inr client \<Rightarrow> Inr (Some client)))"

definition setupSAKeyReload :: "('a, 't) host \<Rightarrow> ('a, 't) clientState option \<Rightarrow> ProviderBreaker option \<Rightarrow> string \<Rightarrow> int
    \<Rightarrow> go_error + (('a, 't) KeyReloader \<times> SAKeyReloadObserver) option" where
  "setupSAKeyReload h client breaker keyPath interval =
     (case client of None \<Rightarrow> Inr None
      | Some c \<Rightarrow>
          if interval \<le> 0 then Inr None
          else let observer = NewSAKeyReloadObserver breaker (cs_account c) (h_now h) in
            case h_addPoller h of Some err \<Rightarrow> Inl err
            | None \<Rightarrow> Inr (Some (NewKeyReloader c keyPath interval, observer)))"

section \<open>The start\<close>

definition usageConfigOf :: "settings \<Rightarrow> rat \<Rightarrow> UsageConfig" where
  "usageConfigOf s price =
     \<lparr>uc_Enabled = se_usageEnabled s, uc_DefaultEnabled = se_usageDefaultEnabled s, uc_Interval = se_usageInterval s,
      uc_MinInterval = se_usageMinInterval s, uc_MaxObjects = se_usageMaxObjects s, uc_IncludeVersions = se_usageIncludeVersions s,
      uc_PricePerGBHour = price, uc_Currency = se_usageCurrency s, uc_Concurrency = se_usageConcurrency s\<rparr>"

text \<open>The reconcilers over a world: \<open>client\<close> is the provider client over the SDK client of the start.\<close>

definition bucketReconcilerOf :: "settings \<Rightarrow> string \<Rightarrow> 'w client option \<Rightarrow> 'w minio \<Rightarrow> 'w kube \<Rightarrow> 'w sys \<Rightarrow> 'w reconciler" where
  "bucketReconcilerOf s version client mc kube sys =
     \<lparr>r_hasRecorder = True, r_Stackit = client, r_OperatorVersion = version,
      r_Naming = \<lparr>bn_Prefix = se_bucketNamePrefix s, bn_IncludeNamespace = se_bucketNameIncludeNamespace s\<rparr>,
      r_AdminSecretName = se_adminSecretName s, r_AdminSecretNamespace = se_operatorNamespace s,
      r_OwnershipName = se_ownershipName s, r_EnableWipeOnDelete = se_enableWipeOnDelete s, r_CloneImage = se_cloneImage s,
      r_DriftResyncInterval = se_driftResyncInterval s, r_ProviderDegradedGrace = se_providerDegradedGrace s,
      r_minio = mc, r_kube = kube, r_sys = sys\<rparr>"

definition usageReconcilerOf :: "settings \<Rightarrow> rat \<Rightarrow> 'w client option \<Rightarrow> 'w minio \<Rightarrow> 'w kube \<Rightarrow> 'w sys \<Rightarrow> 'w BucketUsageReconciler" where
  "usageReconcilerOf s price client mc kube sys =
     \<lparr>ur_hasRecorder = True, ur_Stackit = client, ur_Config = usageConfigOf s price,
      ur_AdminSecretName = se_adminSecretName s, ur_AdminSecretNamespace = se_operatorNamespace s,
      ur_minio = mc, ur_kube = kube, ur_sys = sys\<rparr>"

record ('a, 't) started =
  sd_client :: "('a, 't) clientState option"
  sd_breaker :: "ProviderBreaker option"
  sd_poller :: "(('a, 't) KeyReloader \<times> SAKeyReloadObserver) option"
  sd_price :: goFloat
  sd_metrics :: bucketMetricsCollector

text \<open>The exit code of a start that fails, or the running operator.\<close>

definition startOperator :: "('a, 't) host \<Rightarrow> env \<Rightarrow> settings \<Rightarrow> int + ('a, 't) started" where
  "startOperator h env s =
     (if fst (applyLogLevelEnv env (h_explicitLevel h) (h_setLevel h)) \<noteq> None then Inl 2
      else if validateNaming \<lparr>bn_Prefix = se_bucketNamePrefix s, bn_IncludeNamespace = se_bucketNameIncludeNamespace s\<rparr> \<noteq> None then Inl 1
      else case parseUsagePrice (h_parseFloat h) (se_usagePrice s) of Inl err \<Rightarrow> Inl 1
      | Inr price \<Rightarrow>
      if h_manager h \<noteq> None then Inl 1
      else case newStackitClient h (se_saKeyPath s) (se_operatorNamespace s) of Inl err \<Rightarrow> Inl 1
      | Inr client \<Rightarrow>
      if env ''CLONE_JOB_RESOURCES'' \<noteq> [] \<and> h_resources h (env ''CLONE_JOB_RESOURCES'') \<noteq> None then Inl 1
      else let breaker = Some (NewProviderBreaker (se_providerCircuitThreshold s) (se_providerCircuitMaxCooldown s)) in
      case setupSAKeyReload h client breaker (se_saKeyPath s) (se_saKeyReloadInterval s) of Inl err \<Rightarrow> Inl 1
      | Inr poller \<Rightarrow>
      if h_bucketSetup h \<noteq> None \<or> h_usageSetup h \<noteq> None \<or> h_healthz h \<noteq> None \<or> h_readyz h \<noteq> None then Inl 1
      else Inr \<lparr>sd_client = client, sd_breaker = breaker, sd_poller = poller, sd_price = price,
        sd_metrics = RegisterBucketMetrics breaker (client = None) (se_enableWipeOnDelete s) (se_usageEnabled s)\<rparr>)"

section \<open>Properties\<close>

lemma digitChar_digit:
  assumes "n < 10"
  shows "decimal (digitChar n)" "digitVal (digitChar n) = n" "digitChar n \<noteq> CHR ''-''" "digitChar n \<noteq> CHR ''+''"
proof -
  from assms have "n \<in> {0, 1, 2, 3, 4, 5, 6, 7, 8, 9}" by auto
  then show d: "decimal (digitChar n)" and "digitVal (digitChar n) = n"
    by (auto simp: digitChar_def decimal_def digitVal_def)
  have "\<not> decimal (CHR ''-'')" "\<not> decimal (CHR ''+'')" by (simp_all add: decimal_def)
  with d show "digitChar n \<noteq> CHR ''-''" "digitChar n \<noteq> CHR ''+''" by auto
qed

lemma showNat_digits:
  "list_all decimal (showNat n) \<and> foldl (\<lambda>n c. 10 * n + digitVal c) 0 (showNat n) = n \<and> showNat n \<noteq> [] \<and>
     hd (showNat n) \<noteq> CHR ''-'' \<and> hd (showNat n) \<noteq> CHR ''+''"
proof (induction n rule: showNat.induct)
  case (1 n)
  show ?case
  proof (cases "n < 10")
    case True
    with digitChar_digit [of n] show ?thesis by (simp add: showNat.simps [of n])
  next
    case False
    with "1.IH" digitChar_digit [of "n mod 10"] show ?thesis by (simp add: showNat.simps [of n])
  qed
qed

lemma digits_showNat: "digits (showNat n) = Some n"
  using showNat_digits [of n] by (simp add: digits_def)

lemma ParseInt_showInt:
  "ParseInt (showInt i) = (if - (2 ^ 63) \<le> i \<and> i < 2 ^ 63 then Some i else None)"
  using showNat_digits [of "nat i"] by (auto simp: ParseInt_def showInt_def Let_def digits_showNat)

text \<open>Round trip of the numeric settings. A variable that holds the decimal text of a number in
  the range of \<open>int64\<close> is read as that number; beyond the range, and for anything that is not a number,
  the default stays in force.\<close>

lemma env_int_roundtrip:
  "envInt64OrDefault (env(key := showInt i)) key def = (if - (2 ^ 63) \<le> i \<and> i < 2 ^ 63 then i else def) \<and>
   envInt64OrDefault (env(key := [])) key def = def \<and>
   (list_ex (\<lambda>c. \<not> decimal c) ds \<longrightarrow> envInt64OrDefault (env(key := CHR ''0'' # ds)) key def = def)"
proof (intro conjI impI)
  show "envInt64OrDefault (env(key := showInt i)) key def = (if - (2 ^ 63) \<le> i \<and> i < 2 ^ 63 then i else def)"
    by (simp add: envInt64OrDefault_def ParseInt_showInt)
  show "envInt64OrDefault (env(key := [])) key def = def"
    by (simp add: envInt64OrDefault_def ParseInt_def digits_def)
  assume "list_ex (\<lambda>c. \<not> decimal c) ds"
  then have "digits (CHR ''0'' # ds) = None" by (auto simp: digits_def list_all_iff list_ex_iff)
  then show "envInt64OrDefault (env(key := CHR ''0'' # ds)) key def = def"
    by (simp add: envInt64OrDefault_def ParseInt_def)
qed

lemma NewClient_account:
  assumes "NewClient hash decode build file acc = Inr c"
  shows "\<exists>raw t. file = Inr raw \<and> cs_keyHash c = hash raw \<and> parseAccount decode raw (a_KeyPath acc) = Inr (cs_account c) \<and>
    build raw = Inr (cs_api c, t) \<and> cs_transport c = Some t"
  using assms by (auto simp: NewClient_def readKeyFile_def split: sum.splits prod.splits)

lemma parseAccount_fields: "parseAccount decode raw path = Inr acc \<Longrightarrow> a_KeyPath acc = path \<and> a_ProjectID acc \<noteq> []"
  by (auto simp: parseAccount_def split: if_splits sum.splits)

lemma newStackitClient_client:
  assumes "newStackitClient h path ns = Inr client"
  shows "case client of None \<Rightarrow> path = []
    | Some c \<Rightarrow> path \<noteq> [] \<and> ns \<noteq> [] \<and> a_ProjectID (cs_account c) \<noteq> [] \<and>
        (\<exists>raw. h_file2 h = Inr raw \<and> cs_keyHash c = h_hash h raw \<and> parseAccount (h_decode h) raw path = Inr (cs_account c))"
proof (cases client)
  case None
  with assms show ?thesis by (auto simp: newStackitClient_def split: if_splits sum.splits)
next
  case (Some c)
  with assms obtain acc raw where p: "path \<noteq> []" "ns \<noteq> []" and a: "parseAccount (h_decode h) raw path = Inr acc"
    and n: "NewClient (h_hash h) (h_decode h) (h_build h) (h_file2 h) acc = Inr c"
    by (auto simp: newStackitClient_def LoadAccount_def split: if_splits sum.splits)
  from NewClient_account [OF n] parseAccount_fields [OF a] obtain raw2 where
    r: "h_file2 h = Inr raw2" "cs_keyHash c = h_hash h raw2" "parseAccount (h_decode h) raw2 path = Inr (cs_account c)" by auto
  with parseAccount_fields [OF r(3)] p Some show ?thesis by auto
qed

lemma started_parts:
  assumes "startOperator h env s = Inr d"
  shows "newStackitClient h (se_saKeyPath s) (se_operatorNamespace s) = Inr (sd_client d) \<and>
    setupSAKeyReload h (sd_client d) (sd_breaker d) (se_saKeyPath s) (se_saKeyReloadInterval s) = Inr (sd_poller d) \<and>
    sd_breaker d = Some (NewProviderBreaker (se_providerCircuitThreshold s) (se_providerCircuitMaxCooldown s)) \<and>
    validateNaming \<lparr>bn_Prefix = se_bucketNamePrefix s, bn_IncludeNamespace = se_bucketNameIncludeNamespace s\<rparr> = None \<and>
    sd_metrics d = RegisterBucketMetrics (sd_breaker d) (sd_client d = None) (se_enableWipeOnDelete s) (se_usageEnabled s) \<and>
    \<not> belowZero (sd_price d)"
  using assms by (auto simp: startOperator_def parseUsagePrice_def Let_def split: if_splits sum.splits)

text \<open>C39: a configured key is never ignored. When the operator starts, it runs without a provider
  exactly if no key path is configured; otherwise the namespace is known, and the client, its account
  and the hash the poller compares with all come from one read of the file, whose project is named.
  The poller runs exactly if there is a client and a positive interval; it starts on that client with
  an idle schedule, its first poll of an unchanged file leaves the client alone, and the exported mode
  is the one the operator is in.\<close>

theorem startup_key_policy:
  assumes "startOperator h env s = Inr d"
  shows "(sd_client d = None) = (se_saKeyPath s = []) \<and>
    (\<forall>c. sd_client d = Some c \<longrightarrow> se_operatorNamespace s \<noteq> [] \<and> a_ProjectID (cs_account c) \<noteq> [] \<and>
       (\<exists>raw. h_file2 h = Inr raw \<and> cs_keyHash c = h_hash h raw \<and> parseAccount (h_decode h) raw (se_saKeyPath s) = Inr (cs_account c))) \<and>
    (sd_poller d \<noteq> None) = (sd_client d \<noteq> None \<and> 0 < se_saKeyReloadInterval s) \<and>
    (\<forall>k ob. sd_poller d = Some (k, ob) \<longrightarrow> sd_client d = Some (k_client k) \<and> scheduled k \<and> k_keyPath k = se_saKeyPath s \<and>
       k_interval k = se_saKeyReloadInterval s \<and> ob_breaker ob = sd_breaker d \<and>
       (\<forall>p. p_file p = h_file2 h \<longrightarrow> k_client (snd (tick (h_hash h) p k)) = k_client k)) \<and>
    bm_skeletonMode (sd_metrics d) = (se_saKeyPath s = [])"
proof -
  note parts = started_parts [OF assms]
  from newStackitClient_client parts have c: "case sd_client d of None \<Rightarrow> se_saKeyPath s = []
    | Some c \<Rightarrow> se_saKeyPath s \<noteq> [] \<and> se_operatorNamespace s \<noteq> [] \<and> a_ProjectID (cs_account c) \<noteq> [] \<and>
        (\<exists>raw. h_file2 h = Inr raw \<and> cs_keyHash c = h_hash h raw \<and> parseAccount (h_decode h) raw (se_saKeyPath s) = Inr (cs_account c))"
    by blast
  have p: "(sd_poller d \<noteq> None) = (sd_client d \<noteq> None \<and> 0 < se_saKeyReloadInterval s)"
    using parts by (cases "sd_poller d") (auto simp: setupSAKeyReload_def Let_def split: option.splits if_splits)
  have k: "sd_client d = Some (k_client k) \<and> scheduled k \<and> k_keyPath k = se_saKeyPath s \<and> k_interval k = se_saKeyReloadInterval s \<and>
      ob_breaker ob = sd_breaker d" if "sd_poller d = Some (k, ob)" for k ob
    using parts that maxWait_pos [of k]
    by (auto simp: setupSAKeyReload_def Let_def scheduled_def NewKeyReloader_def NewSAKeyReloadObserver_def adopt_def split: option.splits if_splits)
  have t: "k_client (snd (tick (h_hash h) q k)) = k_client k" if "sd_poller d = Some (k, ob)" "p_file q = h_file2 h" for q k ob
    using k [OF that(1)] c that(2) by (auto simp: tick_def readKeyFile_def)
  have m: "bm_skeletonMode (sd_metrics d) = (sd_client d = None)" using parts by (simp add: RegisterBucketMetrics_def)
  from c have none: "(sd_client d = None) = (se_saKeyPath s = [])" by (simp split: option.splits)
  from c have some: "\<forall>c. sd_client d = Some c \<longrightarrow> se_operatorNamespace s \<noteq> [] \<and> a_ProjectID (cs_account c) \<noteq> [] \<and>
       (\<exists>raw. h_file2 h = Inr raw \<and> cs_keyHash c = h_hash h raw \<and> parseAccount (h_decode h) raw (se_saKeyPath s) = Inr (cs_account c))"
    by (cases "sd_client d") auto
  have poller: "\<forall>k ob. sd_poller d = Some (k, ob) \<longrightarrow> sd_client d = Some (k_client k) \<and> scheduled k \<and> k_keyPath k = se_saKeyPath s \<and>
       k_interval k = se_saKeyReloadInterval s \<and> ob_breaker ob = sd_breaker d \<and>
       (\<forall>p. p_file p = h_file2 h \<longrightarrow> k_client (snd (tick (h_hash h) p k)) = k_client k)"
  proof (intro allI impI)
    fix k ob
    assume q: "sd_poller d = Some (k, ob)"
    from k [OF q] t [OF q] show "sd_client d = Some (k_client k) \<and> scheduled k \<and> k_keyPath k = se_saKeyPath s \<and>
       k_interval k = se_saKeyReloadInterval s \<and> ob_breaker ob = sd_breaker d \<and>
       (\<forall>p. p_file p = h_file2 h \<longrightarrow> k_client (snd (tick (h_hash h) p k)) = k_client k)" by blast
  qed
  show ?thesis
    by (intro conjI none some p poller) (simp only: m none)
qed

text \<open>A start with a key, and one whose environment is empty.\<close>

definition sampleHost :: "(string, nat) host" where
  "sampleHost = \<lparr>h_explicitLevel = False, h_setLevel = (\<lambda>_. None), h_parseFloat = (\<lambda>_. Inr (Finite (1 / 27000))), h_manager = None,
     h_file1 = Inr ''key'', h_file2 = Inr ''key'', h_hash = id,
     h_decode = (\<lambda>_. Inr \<lparr>kd_ProjectID = ''p1'', kd_ValidUntil = None, kd_Iss = ''sa''\<rparr>), h_build = (\<lambda>x. Inr (x, 7)),
     h_resources = (\<lambda>_. None), h_addPoller = None, h_bucketSetup = None, h_usageSetup = None, h_healthz = None, h_readyz = None,
     h_now = 0\<rparr>"

definition sampleEnv :: env where
  "sampleEnv = (\<lambda>_. [])(''STACKIT_SERVICE_ACCOUNT_KEY_PATH'' := ''/key.json'', ''POD_NAMESPACE'' := ''ops'', ''BUCKET_NAME_PREFIX'' := ''c1'')"

theorem startup_key_policy_witness:
  "\<exists>d. startOperator sampleHost sampleEnv (defaultSettings sampleEnv) = Inr d \<and> sd_client d \<noteq> None \<and> \<not> bm_skeletonMode (sd_metrics d)"
proof -
  have "\<not> (case startOperator sampleHost sampleEnv (defaultSettings sampleEnv) of Inl e \<Rightarrow> True | Inr d \<Rightarrow> False)" by code_simp
  then obtain d where d: "startOperator sampleHost sampleEnv (defaultSettings sampleEnv) = Inr d" by (auto split: sum.splits)
  have "se_saKeyPath (defaultSettings sampleEnv) \<noteq> []" by (simp add: defaultSettings_def sampleEnv_def)
  with startup_key_policy [OF d] d show ?thesis by auto
qed

end
