(* ===== verification/Cleanup.thy ===== *)
theory Cleanup
  imports Attribution
begin

text \<open>
  The clean-up tool of the end-to-end runs, \<open>hack/e2ecleanup/main.go\<close>: what it finds and what it
  deletes. Whether the key file exists and the client that is built from it are arguments of \<open>runSweep\<close>; the
  lines printed are left out, so a failure that is only reported is ignored.

  The property: the sweep touches nothing that does not carry the prefix, and nothing at all without
  \<open>-delete\<close>. It also shows that the key minted to empty the buckets is left behind.
\<close>

section \<open>Definitions\<close>

definition e2eAdminGroupName :: string where
  "e2eAdminGroupName = ''operator-admin''"

record leftovers =
  lo_buckets :: "string list"
  lo_groups :: "CredentialsGroupInfo list"
  lo_adminGroupID :: string

definition leftoverBuckets :: "'w client \<Rightarrow> string \<Rightarrow> ('w st, go_error, string list) fallible" where
  "leftoverBuckets c prefix =
     check (ListBucketNames c (cl_ProjectID c)) (\<lambda>err. fault (wrapf ''list buckets: '' err))
       (\<lambda>names. ret (filter (\<lambda>n. hasPrefix n prefix) names))"

text \<open>The last group of the admin's name wins, as in the loop.\<close>

definition sortGroup :: "string \<Rightarrow> CredentialsGroupInfo list \<times> string \<Rightarrow> CredentialsGroupInfo \<Rightarrow> CredentialsGroupInfo list \<times> string" where
  "sortGroup prefix acc g =
     (case acc of (out, adminID) \<Rightarrow>
        if g_DisplayName g = e2eAdminGroupName then (out, g_ID g)
        else if hasPrefix (g_DisplayName g) (''s3op-'' @ prefix) then (out @ [g], adminID)
        else (out, adminID))"

definition leftoverGroups :: "'w client \<Rightarrow> string \<Rightarrow> ('w st, go_error, CredentialsGroupInfo list \<times> string) fallible" where
  "leftoverGroups c prefix =
     check (ListCredentialsGroups c) (\<lambda>err. fault (wrapf ''list credentials groups: '' err))
       (\<lambda>groups. ret (foldl (sortGroup prefix) ([], []) groups))"

definition findLeftovers :: "'w client \<Rightarrow> string \<Rightarrow> ('w st, go_error, leftovers) fallible" where
  "findLeftovers c prefix =
     andThen (leftoverBuckets c prefix) (\<lambda>buckets.
     andThen (leftoverGroups c prefix) (\<lambda>(groups, adminGroupID).
       ret \<lparr>lo_buckets = buckets, lo_groups = groups, lo_adminGroupID = adminGroupID\<rparr>))"

definition adminS3 :: "'w minio \<Rightarrow> 'w client \<Rightarrow> string \<Rightarrow> string \<Rightarrow> ('w st, go_error, S3Admin) fallible" where
  "adminS3 mc c adminGroupID anyBucket =
     (if adminGroupID = []
      then fault (Msg (''no '' @ quoted e2eAdminGroupName @ '' group in project; leftover buckets keep denying every other principal''))
      else check (CreateAccessKey c adminGroupID) (\<lambda>err. fault (wrapf ''create admin key: '' err)) (\<lambda>ak.
           check (BucketEndpoint c anyBucket) (\<lambda>err. fault (wrapf ''bucket endpoint: '' err)) (\<lambda>endpoint.
             case NewS3Admin mc endpoint (ak_AccessKeyID ak) (ak_SecretAccessKey ak) (cl_region c) of
               Inl err \<Rightarrow> fault err | Inr s3admin \<Rightarrow> ret s3admin)))"

primrec forEach :: "('a \<Rightarrow> ('w st, unit) handler) \<Rightarrow> 'a list \<Rightarrow> ('w st, unit) handler" where
  "forEach f [] = finish ()"
| "forEach f (x # xs) = andDo (f x) (forEach f xs)"

text \<open>The steps of the sweep: their errors are printed and skipped.\<close>

definition ignoring :: "('w st, 'r) handler \<Rightarrow> ('w st, unit) handler" where
  "ignoring m = after m (\<lambda>_. finish ())"

definition sweepBucket :: "'w minio \<Rightarrow> 'w client \<Rightarrow> S3Admin option \<Rightarrow> string \<Rightarrow> ('w st, unit) handler" where
  "sweepBucket mc c admin b =
     andDo (case admin of None \<Rightarrow> finish () | Some s3admin \<Rightarrow> ignoring (WipeBucket mc s3admin b)) (ignoring (DeleteBucket c b))"

definition deleteBuckets :: "'w minio \<Rightarrow> 'w client \<Rightarrow> leftovers \<Rightarrow> ('w st, unit) handler" where
  "deleteBuckets mc c found =
     (if lo_buckets found = [] then finish ()
      else after (adminS3 mc c (lo_adminGroupID found) (hd (lo_buckets found))) (\<lambda>admin.
        forEach (sweepBucket mc c (case admin of Inl err \<Rightarrow> None | Inr s3admin \<Rightarrow> Some s3admin)) (lo_buckets found)))"

definition deleteGroups :: "'w client \<Rightarrow> CredentialsGroupInfo list \<Rightarrow> ('w st, unit) handler" where
  "deleteGroups c = forEach (\<lambda>g. andDo (ignoring (DeleteAllAccessKeys c (g_ID g))) (ignoring (DeleteCredentialsGroup c (g_ID g))))"

definition deleteAdminGroup :: "'w client \<Rightarrow> string \<Rightarrow> ('w st, unit) handler" where
  "deleteAdminGroup c adminGroupID =
     (if adminGroupID = [] then finish ()
      else andDo (ignoring (DeleteAllAccessKeys c adminGroupID)) (ignoring (DeleteCredentialsGroup c adminGroupID)))"

definition runSweep :: "'w minio \<Rightarrow> bool \<Rightarrow> go_error + 'w client \<Rightarrow> string \<Rightarrow> bool \<Rightarrow> bool \<Rightarrow> ('w st, go_error option) handler" where
  "runSweep mc keyExists client prefix doDelete withAdmin =
     (if trimSpace prefix = []
      then finish (Some (Msg ''-prefix must not be empty: it is the only thing separating e2e resources from real ones''))
      else if \<not> keyExists then finish None
      else case client of Inl err \<Rightarrow> finish (Some err)
      | Inr c \<Rightarrow> check (findLeftovers c prefix) (\<lambda>err. finish (Some err)) (\<lambda>found.
          if \<not> doDelete then finish None
          else andDo (deleteBuckets mc c found) (andDo (deleteGroups c (lo_groups found))
            (andDo (if withAdmin then deleteAdminGroup c (lo_adminGroupID found) else finish ()) (finish None)))))"

section \<open>What the sweep may touch\<close>

definition ours :: "string \<Rightarrow> bool \<Rightarrow> CredentialsGroupInfo \<Rightarrow> bool" where
  "ours prefix withAdmin g \<longleftrightarrow> hasPrefix (g_DisplayName g) (''s3op-'' @ prefix) \<or> withAdmin \<and> g_DisplayName g = adminGroupName"

definition sweepDiscipline :: "'w client \<Rightarrow> string \<Rightarrow> bool \<Rightarrow> bool \<Rightarrow> call \<Rightarrow> call set \<Rightarrow> bool" where
  "sweepDiscipline c prefix doDelete withAdmin x H =
     (let bucket = (\<lambda>n. doDelete \<and> hasPrefix n prefix \<and> (\<exists>ns. CListBuckets (cl_ProjectID c) (Some ns) \<in> H \<and> n \<in> set ns));
          group = (\<lambda>P i. doDelete \<and> (\<exists>gs g. CListGroups (Some gs) \<in> H \<and> g \<in> set gs \<and> g_ID g = i \<and> P g)) in
      case x of
        CListBuckets _ _ \<Rightarrow> True | CListGroups _ \<Rightarrow> True
      | CGetBucket n _ \<Rightarrow> bucket n | CListObjects n _ _ \<Rightarrow> bucket n | CRemoveObjects n _ \<Rightarrow> bucket n | CDeleteBucket n _ \<Rightarrow> bucket n
      | CListKeys i _ \<Rightarrow> group (ours prefix withAdmin) i | CDeleteKey i _ _ \<Rightarrow> group (ours prefix withAdmin) i
      | CDeleteGroup i _ \<Rightarrow> group (ours prefix withAdmin) i
      | CCreateKey i _ \<Rightarrow> group (\<lambda>g. g_DisplayName g = adminGroupName) i
      | _ \<Rightarrow> False)"

text \<open>What the listings said about the leftovers.\<close>

definition found_by :: "'w client \<Rightarrow> string \<Rightarrow> leftovers \<Rightarrow> call set \<Rightarrow> bool" where
  "found_by c prefix found H \<longleftrightarrow>
     (\<exists>ns. CListBuckets (cl_ProjectID c) (Some ns) \<in> H \<and> (\<forall>n \<in> set (lo_buckets found). n \<in> set ns \<and> hasPrefix n prefix)) \<and>
     (\<exists>gs. CListGroups (Some gs) \<in> H \<and> (\<forall>g \<in> set (lo_groups found). g \<in> set gs \<and> hasPrefix (g_DisplayName g) (''s3op-'' @ prefix)) \<and>
        (lo_adminGroupID found \<noteq> [] \<longrightarrow> (\<exists>g \<in> set gs. g_ID g = lo_adminGroupID found \<and> g_DisplayName g = adminGroupName)))"

lemma adminNames: "e2eAdminGroupName = adminGroupName"
  by (simp add: e2eAdminGroupName_def adminGroupName_def)

lemma sortGroup_sound:
  assumes "foldl (sortGroup prefix) acc gs = (out, adminID)"
  shows "(\<forall>g \<in> set out. g \<in> set (fst acc) \<or> g \<in> set gs \<and> hasPrefix (g_DisplayName g) (''s3op-'' @ prefix)) \<and>
    (adminID = snd acc \<or> (\<exists>g \<in> set gs. g_ID g = adminID \<and> g_DisplayName g = adminGroupName))"
  using assms
proof (induction gs arbitrary: acc)
  case (Cons g gs)
  obtain out0 a0 where acc: "acc = (out0, a0)" by (cases acc)
  from Cons.prems have "foldl (sortGroup prefix) (sortGroup prefix acc g) gs = (out, adminID)" by simp
  from Cons.IH [OF this] show ?case
    by (auto simp: acc sortGroup_def adminNames split: if_splits)
qed auto

lemma lasting_found: "lasting (found_by c prefix found)"
  unfolding lasting_def found_by_def by blast

lemma only_find:
  "(\<And>x. A (CListBuckets (cl_ProjectID c) x)) \<Longrightarrow> (\<And>x. A (CListGroups x)) \<Longrightarrow> calls_only A (findLeftovers c prefix)"
  unfolding findLeftovers_def leftoverBuckets_def leftoverGroups_def ListBucketNames_def ListCredentialsGroups_def
  by (intro only_rules only_callOut; assumption)

lemma findLeftovers_found:
  assumes "findLeftovers c prefix s = (x, s')"
  shows "case x of Inl e \<Rightarrow> True | Inr found \<Rightarrow> found_by c prefix found (set (s_calls s'))"
proof (cases x)
  case (Inr found)
  obtain rb s1 where rb: "leftoverBuckets c prefix s = (rb, s1)" by fastforce
  with assms Inr obtain buckets where b: "leftoverBuckets c prefix s = (Inr buckets, s1)"
    by (cases rb) (auto simp: findLeftovers_def exec)
  obtain rg s2 where rg: "leftoverGroups c prefix s1 = (rg, s2)" by fastforce
  with assms Inr b obtain groups adminID where g: "leftoverGroups c prefix s1 = (Inr (groups, adminID), s')"
    and f: "found = \<lparr>lo_buckets = buckets, lo_groups = groups, lo_adminGroupID = adminID\<rparr>"
    by (cases rg) (auto simp: findLeftovers_def exec split: prod.splits)
  from b have "\<exists>ns. CListBuckets (cl_ProjectID c) (Some ns) \<in> set (s_calls s1) \<and> buckets = filter (\<lambda>n. hasPrefix n prefix) ns"
    by (force simp: leftoverBuckets_def ListBucketNames_def callOut_def exec split: prod.splits sum.splits)
  then obtain ns where ns: "CListBuckets (cl_ProjectID c) (Some ns) \<in> set (s_calls s1)" "buckets = filter (\<lambda>n. hasPrefix n prefix) ns" by blast
  from g have "\<exists>gs. CListGroups (Some gs) \<in> set (s_calls s') \<and> foldl (sortGroup prefix) ([], []) gs = (groups, adminID) \<and>
      set (s_calls s1) \<subseteq> set (s_calls s')"
    by (force simp: leftoverGroups_def ListCredentialsGroups_def callOut_def exec split: prod.splits sum.splits)
  then obtain gs where gs: "CListGroups (Some gs) \<in> set (s_calls s')" "foldl (sortGroup prefix) ([], []) gs = (groups, adminID)"
    "set (s_calls s1) \<subseteq> set (s_calls s')" by blast
  from ns gs sortGroup_sound [OF gs(2)] show ?thesis
    by (auto simp: Inr f found_by_def)
qed simp

lemma only_ignoring [only_rules]: "calls_only A m \<Longrightarrow> calls_only A (ignoring m)"
  unfolding ignoring_def by (intro only_rules)

lemma only_forEach [only_rules]: "(\<And>x. x \<in> set xs \<Longrightarrow> calls_only A (f x)) \<Longrightarrow> calls_only A (forEach f xs)"
  by (induction xs) (auto intro!: only_rules)

text \<open>Under the evidence of the listings every call of the deletion is in order.\<close>

lemma only_sweep:
  assumes "found_by c prefix found H0" and A: "A = (\<lambda>x. \<forall>H. H0 \<subseteq> H \<longrightarrow> sweepDiscipline c prefix True withAdmin x H)"
  shows "calls_only A (deleteBuckets mc c found)" and "calls_only A (deleteGroups c (lo_groups found))"
    and "withAdmin \<Longrightarrow> calls_only A (deleteAdminGroup c (lo_adminGroupID found))"
proof -
  from assms(1) obtain ns gs where ns: "CListBuckets (cl_ProjectID c) (Some ns) \<in> H0" "\<forall>n \<in> set (lo_buckets found). n \<in> set ns \<and> hasPrefix n prefix"
    and gs: "CListGroups (Some gs) \<in> H0" "\<forall>g \<in> set (lo_groups found). g \<in> set gs \<and> hasPrefix (g_DisplayName g) (''s3op-'' @ prefix)"
      "lo_adminGroupID found \<noteq> [] \<longrightarrow> (\<exists>g \<in> set gs. g_ID g = lo_adminGroupID found \<and> g_DisplayName g = adminGroupName)"
    unfolding found_by_def by blast
  have b: "A (CGetBucket n e)" "A (CListObjects n v o')" "A (CRemoveObjects n x)" "A (CDeleteBucket n x)" if "n \<in> set (lo_buckets found)" for n e v o' x
    using that ns by (auto simp: A sweepDiscipline_def)
  have g: "A (CListKeys (g_ID g) r)" "A (CDeleteKey (g_ID g) k y)" "A (CDeleteGroup (g_ID g) y)" if "g \<in> set (lo_groups found)" for g r k y
    using that gs by (auto simp: A sweepDiscipline_def ours_def)
  have a: "A (CCreateKey (lo_adminGroupID found) r)" if "lo_adminGroupID found \<noteq> []" for r
    using that gs by (fastforce simp: A sweepDiscipline_def)
  have d: "A (CListKeys (lo_adminGroupID found) r)" "A (CDeleteKey (lo_adminGroupID found) k y)" "A (CDeleteGroup (lo_adminGroupID found) y)"
    if "lo_adminGroupID found \<noteq> []" "withAdmin" for r k y
    using that gs by (fastforce simp: A sweepDiscipline_def ours_def)+
  show "calls_only A (deleteBuckets mc c found)"
    unfolding deleteBuckets_def adminS3_def sweepBucket_def
    by (intro only_rules) (auto intro: a b)
  show "calls_only A (deleteGroups c (lo_groups found))"
    unfolding deleteGroups_def by (intro only_rules) (auto intro: g)
  show "withAdmin \<Longrightarrow> calls_only A (deleteAdminGroup c (lo_adminGroupID found))"
    unfolding deleteAdminGroup_def by (intro only_rules) (auto intro: d)
qed

section \<open>Properties\<close>

lemma sweep_disc:
  assumes "found_by c prefix found (set h)" and "disciplined (sweepDiscipline c prefix True withAdmin) h"
    and "calls_only (\<lambda>x. \<forall>H. set h \<subseteq> H \<longrightarrow> sweepDiscipline c prefix True withAdmin x H) m" and "s_calls s = h"
  shows "disciplined (sweepDiscipline c prefix True withAdmin) (s_calls (snd (m s)))"
proof -
  obtain new where new: "s_calls (snd (m s)) = new @ h" "\<forall>x \<in> set new. \<forall>H. set h \<subseteq> H \<longrightarrow> sweepDiscipline c prefix True withAdmin x H"
    using assms(3,4) unfolding calls_only_def by blast
  have "disciplined (sweepDiscipline c prefix True withAdmin) (new @ h)"
    by (rule disciplined_append [where K = "\<lambda>H. set h \<subseteq> H"]) (use new(2) assms(2) in \<open>auto simp: lasting_def\<close>)
  with new(1) show ?thesis by simp
qed

lemma runSweep_disc:
  assumes "s_calls s = []"
  shows "disciplined (sweepDiscipline c prefix doDelete withAdmin) (s_calls (snd (runSweep mc keyExists (Inr c) prefix doDelete withAdmin s)))"
proof (cases "trimSpace prefix = [] \<or> \<not> keyExists")
  case True
  with assms show ?thesis by (auto simp: runSweep_def exec)
next
  case False
  let ?G = "sweepDiscipline c prefix doDelete withAdmin"
  obtain x s1 where f: "findLeftovers c prefix s = (x, s1)" by fastforce
  have "calls_only (\<lambda>x. \<forall>H. ?G x H) (findLeftovers c prefix)" by (rule only_find) (simp_all add: sweepDiscipline_def)
  from calls_onlyD [OF this f] assms obtain new where "s_calls s1 = new" "\<forall>x \<in> set new. \<forall>H. ?G x H" by auto
  then have d1: "disciplined ?G (s_calls s1)" using disciplined_append [of "\<lambda>_. True" new ?G "[]"] by (auto simp: lasting_def)
  show ?thesis
  proof (cases "x")
    case (Inl e)
    with False f d1 show ?thesis by (simp add: runSweep_def exec)
  next
    case (Inr found)
    show ?thesis
    proof (cases doDelete)
      case del: True
      from findLeftovers_found [OF f] Inr have k: "found_by c prefix found (set (s_calls s1))" by simp
      let ?m = "andDo (deleteBuckets mc c found) (andDo (deleteGroups c (lo_groups found))
        (andDo (if withAdmin then deleteAdminGroup c (lo_adminGroupID found) else finish ()) (finish None)))"
      have "calls_only (\<lambda>x. \<forall>H. set (s_calls s1) \<subseteq> H \<longrightarrow> sweepDiscipline c prefix True withAdmin x H) ?m"
        by (intro only_rules only_sweep [OF k refl])
      from sweep_disc [OF k _ this refl] d1 del False f Inr show ?thesis by (simp add: runSweep_def exec)
    qed (use False f Inr d1 in \<open>simp add: runSweep_def exec\<close>)
  qed
qed

text \<open>C40: the clean-up touches only what the end-to-end runs created. Whatever the provider answers,
  without a prefix nothing is called and without \<open>-delete\<close> nothing but the two listings; objects,
  buckets, keys and groups are deleted only after the listing that names them, buckets only with the
  prefix, groups and keys only of groups named for it, or of the operator's own group with \<open>-admin\<close>;
  and a key is minted only in the operator's group.\<close>

theorem cleanup_confined:
  assumes "s_calls s = []"
  shows "(trimSpace prefix = [] \<longrightarrow> s_calls (snd (runSweep mc keyExists (Inr c) prefix doDelete withAdmin s)) = []) \<and>
    disciplined (sweepDiscipline c prefix doDelete withAdmin) (s_calls (snd (runSweep mc keyExists (Inr c) prefix doDelete withAdmin s)))"
  using runSweep_disc [OF assms] assms by (simp add: runSweep_def exec)

theorem cleanup_confined_witness:
  "disciplined (sweepDiscipline (fakeClient ''proj'' ''eu01'') ''c1-'' True False)
     (s_calls (snd (runSweep fakeMinio True (Inr (fakeClient ''proj'' ''eu01'')) ''c1-'' True False (fakeState taggedWorld sampleBucket)))) \<and>
   CDeleteBucket ''c1-team-data'' True \<in>
     set (s_calls (snd (runSweep fakeMinio True (Inr (fakeClient ''proj'' ''eu01'')) ''c1-'' True False (fakeState taggedWorld sampleBucket))))"
proof
  have "s_calls (fakeState taggedWorld sampleBucket) = []" by (simp add: fakeState_def)
  from cleanup_confined [OF this] show "disciplined (sweepDiscipline (fakeClient ''proj'' ''eu01'') ''c1-'' True False)
     (s_calls (snd (runSweep fakeMinio True (Inr (fakeClient ''proj'' ''eu01'')) ''c1-'' True False (fakeState taggedWorld sampleBucket))))"
    by blast
qed code_simp

text \<open>Without \<open>-admin\<close> the key minted to empty the buckets is never deleted again: no key of a group
  that only the operator's name belongs to is.\<close>

lemma sweep_leaves_admin_key:
  assumes "s_calls s = []" and "runSweep mc keyExists (Inr c) prefix doDelete False s = (x, s')"
    and "\<And>gs g. CListGroups (Some gs) \<in> set (s_calls s') \<Longrightarrow> g \<in> set gs \<Longrightarrow> g_ID g = i \<Longrightarrow> g_DisplayName g = adminGroupName"
  shows "CDeleteKey i k y \<notin> set (s_calls s')"
proof
  assume "CDeleteKey i k y \<in> set (s_calls s')"
  then obtain later earlier where h: "s_calls s' = later @ CDeleteKey i k y # earlier" by (meson split_list)
  from runSweep_disc [OF assms(1), of c prefix doDelete False mc keyExists] assms(2)
  have "disciplined (sweepDiscipline c prefix doDelete False) (s_calls s')" by simp
  with h have "sweepDiscipline c prefix doDelete False (CDeleteKey i k y) (set earlier)" unfolding disciplined_iff by blast
  then obtain gs g where g: "CListGroups (Some gs) \<in> set earlier" "g \<in> set gs" "g_ID g = i" "hasPrefix (g_DisplayName g) (''s3op-'' @ prefix)"
    by (auto simp: sweepDiscipline_def ours_def)
  with assms(3) h have "g_DisplayName g = adminGroupName" by auto
  with g(4) show False by (simp add: adminGroupName_def hasPrefix_def)
qed

end
