(* ===== verification/Retry.thy ===== *)
theory Retry
  imports Errors
begin

text \<open>
  The retrying HTTP transport underneath the control-plane client, \<open>stackit/retry.go\<close>.

  The base transport and the sleep are functions of the world. A response is its status code; the
  body that is drained and closed before a retry has no effect the caller sees. The requests handed
  to the base transport and the delays slept are kept as histories.

  The properties: a write is never repeated, a read is sent at most \<open>attempts\<close> times and only after
  outcomes that say nothing about it, the answer is always the one of the last attempt, and the
  total delay is bounded.
\<close>

section \<open>Definitions\<close>

definition retryAttempts :: int where "retryAttempts = 3"
definition retryBackoff :: int where "retryBackoff = 200 * 10 ^ 6"

record Request =
  rq_Method :: string
  rq_hasBody :: bool

text \<open>The pair \<open>(resp, err)\<close>.\<close>

type_synonym roundTrip = "int option \<times> go_error option"

record retryTransport =
  rt_attempts :: int
  rt_backoff :: int

record 'w net =
  n_base :: "Request \<Rightarrow> 'w \<Rightarrow> roundTrip \<times> 'w"
  n_sleep :: "int \<Rightarrow> 'w \<Rightarrow> bool \<times> 'w"
  n_ctxErr :: "'w \<Rightarrow> go_error"

record 'w rst =
  rs_world :: 'w
  rs_sent :: "(Request \<times> roundTrip) list"
  rs_slept :: "int list"

definition newRetryTransport :: "int \<Rightarrow> int \<Rightarrow> retryTransport" where
  "newRetryTransport attempts backoff = \<lparr>rt_attempts = (if attempts < 1 then 1 else attempts), rt_backoff = backoff\<rparr>"

definition retryingHTTPClient :: retryTransport where
  "retryingHTTPClient = newRetryTransport retryAttempts retryBackoff"

definition retryableRequest :: "Request \<Rightarrow> bool" where
  "retryableRequest req =
     (if rq_Method req \<noteq> ''GET'' \<and> rq_Method req \<noteq> ''HEAD'' then False else \<not> rq_hasBody req)"

definition retryableResult :: "roundTrip \<Rightarrow> bool" where
  "retryableResult oc =
     (case oc of (resp, err) \<Rightarrow>
        if err \<noteq> None then True
        else case resp of None \<Rightarrow> False | Some st \<Rightarrow> 500 \<le> st)"

definition send :: "'w net \<Rightarrow> Request \<Rightarrow> 'w rst \<Rightarrow> roundTrip \<times> 'w rst" where
  "send n req s = (case n_base n req (rs_world s) of (oc, w) \<Rightarrow> (oc, s\<lparr>rs_world := w, rs_sent := (req, oc) # rs_sent s\<rparr>))"

definition pause :: "'w net \<Rightarrow> int \<Rightarrow> 'w rst \<Rightarrow> bool \<times> 'w rst" where
  "pause n d s = (case n_sleep n d (rs_world s) of (ok, w) \<Rightarrow> (ok, s\<lparr>rs_world := w, rs_slept := d # rs_slept s\<rparr>))"

text \<open>The loop, by the attempts left after this one.\<close>

fun attemptLoop :: "nat \<Rightarrow> 'w net \<Rightarrow> Request \<Rightarrow> int \<Rightarrow> 'w rst \<Rightarrow> roundTrip \<times> 'w rst" where
  "attemptLoop 0 n req delay s = send n req s"
| "attemptLoop (Suc left) n req delay s =
     (case send n req s of (oc, s1) \<Rightarrow>
        if \<not> retryableResult oc then (oc, s1)
        else case pause n delay s1 of (ok, s2) \<Rightarrow>
          if \<not> ok then ((None, Some (n_ctxErr n (rs_world s2))), s2)
          else attemptLoop left n req (delay * 3) s2)"

definition RoundTrip :: "retryTransport \<Rightarrow> 'w net \<Rightarrow> Request \<Rightarrow> 'w rst \<Rightarrow> roundTrip \<times> 'w rst" where
  "RoundTrip t n req s =
     (if \<not> retryableRequest req then send n req s
      else attemptLoop (nat (rt_attempts t - 1)) n req (rt_backoff t) s)"

section \<open>The loop\<close>

lemma send_run: "send n req s = (fst (n_base n req (rs_world s)), s\<lparr>rs_world := snd (n_base n req (rs_world s)),
    rs_sent := (req, fst (n_base n req (rs_world s))) # rs_sent s\<rparr>)"
  by (simp add: send_def split: prod.split)

text \<open>What the loop adds: at least one and at most \<open>left + 1\<close> attempts, newest first; all but the
  newest had an outcome worth repeating; the delays triple.\<close>

lemma attemptLoop_run:
  assumes "attemptLoop left n req delay s = (oc, s')"
  shows "\<exists>new slept. rs_sent s' = new @ rs_sent s \<and> rs_slept s' = rev slept @ rs_slept s \<and> new \<noteq> [] \<and> length new \<le> left + 1 \<and>
    (\<forall>x \<in> set new. fst x = req) \<and> (\<forall>x \<in> set (tl new). retryableResult (snd x)) \<and>
    slept = map (\<lambda>i. delay * 3 ^ i) [0..<length slept] \<and> length slept \<le> left \<and>
    (oc = snd (hd new) \<and> (length new = left + 1 \<or> \<not> retryableResult oc) \<and> length slept + 1 = length new \<or>
     retryableResult (snd (hd new)) \<and> length slept = length new \<and> (\<exists>w. oc = (None, Some (n_ctxErr n w))))"
  using assms
proof (induction left n req delay s arbitrary: oc s' rule: attemptLoop.induct)
  case (1 n req delay s)
  then show ?case
    by (intro exI [of _ "[(req, oc)]"] exI [of _ "[]"]) (auto simp: send_run)
next
  case (2 left n req delay s)
  obtain oc1 s1 where s1: "send n req s = (oc1, s1)" by fastforce
  then have sent1: "rs_sent s1 = (req, oc1) # rs_sent s" "rs_slept s1 = rs_slept s" by (auto simp: send_run)
  show ?case
  proof (cases "retryableResult oc1")
    case False
    with "2.prems" s1 have "oc = oc1" "s' = s1" by auto
    with False sent1 show ?thesis by (intro exI [of _ "[(req, oc1)]"] exI [of _ "[]"]) auto
  next
    case True
    obtain ok s2 where s2: "pause n delay s1 = (ok, s2)" by fastforce
    then have p2: "rs_sent s2 = rs_sent s1" "rs_slept s2 = delay # rs_slept s1" by (auto simp: pause_def split: prod.splits)
    show ?thesis
    proof (cases ok)
      case False
      with "2.prems" s1 s2 True have "oc = (None, Some (n_ctxErr n (rs_world s2)))" "s' = s2" by auto
      with True sent1 p2 show ?thesis
        by (intro exI [of _ "[(req, oc1)]"] exI [of _ "[delay]"]) auto
    next
      case ok: True
      with "2.prems" s1 s2 True have run: "attemptLoop left n req (delay * 3) s2 = (oc, s')" by auto
      from "2.IH" [OF s1 [symmetric] _ s2 [symmetric] _ run] True ok obtain new slept where
        IH: "rs_sent s' = new @ rs_sent s2" "rs_slept s' = rev slept @ rs_slept s2" "new \<noteq> []" "length new \<le> left + 1"
          "\<forall>x \<in> set new. fst x = req" "\<forall>x \<in> set (tl new). retryableResult (snd x)"
          "slept = map (\<lambda>i. delay * 3 * 3 ^ i) [0..<length slept]" "length slept \<le> left"
          "oc = snd (hd new) \<and> (length new = left + 1 \<or> \<not> retryableResult oc) \<and> length slept + 1 = length new \<or>
           retryableResult (snd (hd new)) \<and> length slept = length new \<and> (\<exists>w. oc = (None, Some (n_ctxErr n w)))" by auto
      have sl: "delay # slept = map (\<lambda>i. delay * 3 ^ i) [0..<length (delay # slept)]"
        by (subst IH(7)) (simp add: upt_conv_Cons map_Suc_upt [symmetric] del: upt_Suc)
      show ?thesis
        by (intro exI [of _ "new @ [(req, oc1)]"] exI [of _ "delay # slept"] conjI;
            (rule sl | use IH(1-6,8,9) sent1 p2 True in \<open>auto simp: hd_append tl_append split: list.splits\<close>))
    qed
  qed
qed

section \<open>Properties\<close>

text \<open>C19: a write is sent once, a read at most three times. Through the transport of the operator's
  client a request that is not a GET or HEAD, or that carries a body, reaches the wire exactly once
  and its outcome is returned as it is. Any other request reaches it at least once and at most three
  times, the same request each time; it was repeated only after a transport error or a status of 500
  or above (never after a 4xx, 429 included); the outcome returned is the one of the last attempt,
  unless the context ended during a pause, whose error is then returned; and the pauses add up to at
  most 800 milliseconds.\<close>

theorem retry_only_safe_requests:
  assumes "RoundTrip retryingHTTPClient n req s = (oc, s')"
  shows "\<exists>new slept. rs_sent s' = new @ rs_sent s \<and> rs_slept s' = slept @ rs_slept s \<and> (\<forall>x \<in> set new. fst x = req) \<and>
    ((rq_Method req \<notin> {''GET'', ''HEAD''} \<or> rq_hasBody req) \<longrightarrow> new = [(req, oc)] \<and> slept = []) \<and>
    1 \<le> length new \<and> length new \<le> 3 \<and> sum_list slept \<le> 800 * 10 ^ 6 \<and>
    (\<forall>x \<in> set (tl new). snd (snd x) \<noteq> None \<or> (\<exists>st. fst (snd x) = Some st \<and> 500 \<le> st)) \<and>
    (oc = snd (hd new) \<or> (\<exists>w. oc = (None, Some (n_ctxErr n w))))"
proof (cases "retryableRequest req")
  case False
  with assms have "oc = fst (n_base n req (rs_world s))" "rs_sent s' = [(req, oc)] @ rs_sent s" "rs_slept s' = [] @ rs_slept s"
    by (auto simp: RoundTrip_def send_run)
  then show ?thesis by (intro exI [of _ "[(req, oc)]"] exI [of _ "[]"]) auto
next
  case True
  then have safe: "rq_Method req \<in> {''GET'', ''HEAD''}" "\<not> rq_hasBody req" by (auto simp: retryableRequest_def split: if_splits)
  from assms True have run: "attemptLoop 2 n req (200 * 10 ^ 6) s = (oc, s')"
    by (simp add: RoundTrip_def retryingHTTPClient_def newRetryTransport_def retryAttempts_def retryBackoff_def)
  from attemptLoop_run [OF run] obtain new slept where
    r: "rs_sent s' = new @ rs_sent s" "rs_slept s' = rev slept @ rs_slept s" "new \<noteq> []" "length new \<le> 3"
      "\<forall>x \<in> set new. fst x = req" "\<forall>x \<in> set (tl new). retryableResult (snd x)"
      "slept = map (\<lambda>i. 200 * 10 ^ 6 * 3 ^ i) [0..<length slept]" "length slept \<le> 2"
      "oc = snd (hd new) \<or> (\<exists>w. oc = (None, Some (n_ctxErr n w)))" by auto
  from r(8) consider "length slept = 0" | "length slept = 1" | "length slept = 2" by linarith
  then have sum: "sum_list slept \<le> 800 * 10 ^ 6" by cases (subst r(7), simp add: upt_conv_Cons)+
  have res: "snd oc \<noteq> None \<or> (\<exists>st. fst oc = Some st \<and> 500 \<le> st)" if "retryableResult oc" for oc
    using that by (auto simp: retryableResult_def split: prod.splits option.splits if_splits)
  show ?thesis
    by (intro exI [of _ new] exI [of _ "rev slept"] conjI)
      (use r safe sum res in \<open>auto simp: sum_list_rev Suc_le_eq\<close>)
qed

definition flakyNet :: "nat net" where
  "flakyNet = \<lparr>n_base = (\<lambda>_ w. ((if w < 2 then (Some 503, None) else (Some 200, None)), w + 1)), n_sleep = (\<lambda>_ w. (True, w)),
     n_ctxErr = (\<lambda>_. CtxErr ''context canceled'')\<rparr>"

theorem retry_only_safe_requests_witness:
  "length (rs_sent (snd (RoundTrip retryingHTTPClient flakyNet \<lparr>rq_Method = ''POST'', rq_hasBody = True\<rparr>
     \<lparr>rs_world = 0, rs_sent = [], rs_slept = []\<rparr>))) = 1 \<and>
   length (rs_sent (snd (RoundTrip retryingHTTPClient flakyNet \<lparr>rq_Method = ''GET'', rq_hasBody = False\<rparr>
     \<lparr>rs_world = 0, rs_sent = [], rs_slept = []\<rparr>))) = 3"
proof
  let ?s = "\<lparr>rs_world = 0 :: nat, rs_sent = [], rs_slept = []\<rparr>" and ?q = "\<lparr>rq_Method = ''POST'', rq_hasBody = True\<rparr>"
  from retry_only_safe_requests [OF prod.collapse [symmetric], of flakyNet ?q ?s]
  show "length (rs_sent (snd (RoundTrip retryingHTTPClient flakyNet ?q ?s))) = 1" by auto
qed code_simp

end
