(* ===== verification/Reports.thy ===== *)
theory Reports
  imports Usage KeyReload Controller
begin

text \<open>
  The running process: passes of both controllers over one shared state (breaker, admin credential,
  caches), polls of the service-account key, restarts, and a world that others change in between.
  \<open>internal/controller/bucket_controller.go\<close>, \<open>bucket_usage_controller.go\<close> and \<open>sakey_reload.go\<close>
  meet in the breaker of \<open>breaker.go\<close>; \<open>cmd/main.go\<close> creates it once.

  The first part shows what a pass does to the shared state, the second lifts it to every
  interleaving of passes.
\<close>

section \<open>Operations that leave the shared state alone\<close>

text \<open>An assertion about the breaker and the cached admin credential, which fetching that credential
  keeps.\<close>

locale untouched =
  fixes I :: "'w st \<Rightarrow> bool"
  assumes shared: "s_breaker s' = s_breaker s \<Longrightarrow> s_admin s' = s_admin s \<Longrightarrow> I s \<Longrightarrow> I s'"
    and admin [keeps_rules]: "keeps I (ensureAdmin r c)"
begin

lemma stable [keeps_rules, simp]: "ext_stable I"
  using shared by (fastforce simp: ext_stable_def)

lemma update: "(\<And>s. s_breaker (f s) = s_breaker s \<and> s_admin (f s) = s_admin s) \<Longrightarrow> keeps I (sets f)"
  by (rule keeps_sets) (use shared in blast)

lemma local_steps [keeps_rules]:
  "keeps I (raise r w x y)" "keeps I (modObj f)" "keeps I (modStatus g)" "keeps I (modClone k)"
  unfolding raise_def modStatus_def modClone_def modObj_def by (intro keeps_rules update; simp)+

lemma statusWrites [keeps_rules]: "keeps I (updateStatus r)" "keeps I (updateObj r)"
  unfolding updateStatus_def updateObj_def by (intro keeps_rules)+

lemma recording [keeps_rules]:
  "keeps I (degrade r err)" "keeps I (markFailedReason r x err)" "keeps I (markFailed r err)" "keeps I (failNoRequeue r err)"
  "keeps I (holdForProvider r wt)" "keeps I (persistResolvedName r n)" "keeps I (markProvisioning r)"
  "keeps I (recordPendingRotation r)" "keeps I (reportPass r changes)"
  unfolding degrade_def markFailedReason_def markFailed_def failNoRequeue_def holdForProvider_def persistResolvedName_def
    markProvisioning_def recordPendingRotation_def reportPass_def by (intro keeps_rules update; simp)+

lemma s3 [keeps_rules]: "keeps I (newS3Admin r c n ac)"
  unfolding newS3Admin_def by (intro keeps_rules)

lemma service [keeps_rules]: "keeps I (EnsureService c)"
  by (rule keeps_EnsureService) (use shared in fastforce)+

lemma bucket [keeps_rules]: "keeps I (ensureBucket r c b n ac)"
  unfolding ensureBucket_def adoptOrCollide_def by (intro keeps_rules)

lemma groups [keeps_rules]: "keeps I (listGroups c)" "keeps I (groupExists c g)"
  "keeps I (resolveWorkloadGroup r c b n ac gs create fresh)"
  unfolding listGroups_def resolveWorkloadGroup_def attributeGroup_def groupFromTags_def groupFromPolicy_def guardGroupCreate_def
    createWorkloadGroup_def stamp_def groupExists_def by (intro keeps_rules)+

lemma keys [keeps_rules]: "keeps I (ensureAccessKeyAndSecret r c g h u)"
  unfolding ensureAccessKeyAndSecret_def issueKey_def upsertSecret_def createOrUpdate_def getSecret_def by (intro keeps_rules)

lemma grants [keeps_rules]: "keeps I (resolveReadGrants r c b ac gs)"
proof -
  have "keeps I (resolveGrant r c b ac gs ref)" for ref
    unfolding resolveGrant_def pendingGrant_def by (intro keeps_rules)
  then have "keeps I (resolveGrants r c b ac gs refs acc)" for refs acc
    by (induction refs arbitrary: acc) (simp_all, (intro keeps_rules | assumption)+)
  then show ?thesis unfolding resolveReadGrants_def .
qed

lemma policy [keeps_rules]: "keeps I (ensureBucketPolicy r c n ac u rs)"
  unfolding ensureBucketPolicy_def by (intro keeps_rules)

lemma clone_parts [keeps_rules]:
  "keeps I (cloneSourceCreds r b)" "keeps I (measureSource r src ak sk)" "keeps I (ensureCloneStagingSecret r b ak sk)"
  "keeps I (pollCloneStats r j p)" "keeps I (updateCloneProgress r x)" "keeps I (deleteCloneArtifacts r b st)"
  unfolding cloneSourceCreds_def measureSource_def ensureCloneStagingSecret_def pollCloneStats_def updateCloneProgress_def
    deleteCloneArtifacts_def getSecret_def createOrUpdate_def by (intro keeps_rules)+

lemma release [keeps_rules]: "keeps I (teardown r c)" "keeps I (dropFinalizer r)"
proof -
  have e: "keeps I (assertBucketEmpty r c n)" for n unfolding assertBucketEmpty_def by (intro keeps_rules)
  have o: "keeps I (bucketOwnedByUs r c n)" for n unfolding bucketOwnedByUs_def by (intro keeps_rules)
  have p: "keeps I (prepareBucketForDelete r c n)" for n
    unfolding prepareBucketForDelete_def wipeBucket_def by (intro keeps_rules e o)
  have g: "keeps I (reportGroupNotAttributable r c n y)" for n y unfolding reportGroupNotAttributable_def by (intro keeps_rules)
  show "keeps I (teardown r c)"
    unfolding teardown_def releaseWorkloadGroup_def deleteBucketIfOwned_def deleteSecret_def by (intro keeps_rules p o g)
  show "keeps I (dropFinalizer r)" unfolding dropFinalizer_def by (intro keeps_rules update; simp)
qed

lemma entry [keeps_rules]: "keeps I (ensureFinalizer r)" "keeps I (reconcileSkeleton r)"
  unfolding ensureFinalizer_def reconcileSkeleton_def by (intro keeps_rules)+

lemma usage [keeps_rules]: "keeps I (ReconcileUsage ur ns n)"
  unfolding ReconcileUsage_def measureDue_def precheck_def readAdmin_def measure_def recordFailure_def warnAboutMeasurement_def
    patchUsage_def patchStatus_def patchUsageMessage_def patchUsageParked_def clearUsage_def warn_def
  by (intro keeps_rules update; simp)

end

interpretation br: untouched "\<lambda>s. s_breaker s = b" for b
proof (unfold_locales, simp)
  show "keeps (\<lambda>s. s_breaker s = b) (ensureAdmin r c)" for r :: "'a reconciler" and c
    unfolding ensureAdmin_def bootstrapAdmin_def writeAdminSecret_def getSecret_def createOrUpdate_def
    by (intro keeps_rules keeps_sets; simp add: ext_stable_def)
qed

interpretation ad: untouched "\<lambda>s. s_admin s = Some ac" for ac
proof (unfold_locales, simp)
  show "keeps (\<lambda>s. s_admin s = Some ac) (ensureAdmin r c)" for r :: "'a reconciler" and c
    by (auto simp: keeps_def valid_def ensureAdmin_def exec)
qed

section \<open>What a pass reports to the breaker\<close>

definition quiet :: "('w st, 'r) handler \<Rightarrow> bool" where
  "quiet m \<longleftrightarrow> (\<forall>b. keeps (\<lambda>s. s_breaker s = b) m)"

lemma quietI: "(\<And>b. keeps (\<lambda>s. s_breaker s = b) m) \<Longrightarrow> quiet m"
  by (simp add: quiet_def)

lemma quietD: "quiet m \<Longrightarrow> m s = (x, s') \<Longrightarrow> s_breaker s' = s_breaker s"
  using validD [of "\<lambda>t. s_breaker t = s_breaker s" m "\<lambda>_ t. s_breaker t = s_breaker s" s x s']
  by (simp add: quiet_def keeps_def)

text \<open>A failure is reported beside the status that records it, a success beside the status that
  says Ready or the update that drops the finalizer; the record is the last call of the pass.\<close>

definition recordsFailure :: "Bucket \<Rightarrow> bool" where
  "recordsFailure b \<longleftrightarrow> st_DegradedSince (b_Status b) \<noteq> None \<or>
     st_Phase (b_Status b) = PhaseFailed \<and> \<not> isConditionTrue (st_Conditions (b_Status b)) ConditionReady"

definition failureNoted :: "call list \<Rightarrow> bool" where
  "failureNoted cs = (case cs of KUpdateStatus b ok # rest \<Rightarrow> recordsFailure b | _ \<Rightarrow> False)"

definition successNoted :: "call list \<Rightarrow> bool" where
  "successNoted cs = (case cs of KUpdateStatus b ok # rest \<Rightarrow> ok \<and> st_Phase (b_Status b) = PhaseReady
     | KUpdateBucket b ok # rest \<Rightarrow> BucketFinalizer \<notin> set (b_Finalizers b) | _ \<Rightarrow> False)"

definition heard :: "'w st \<Rightarrow> outcome list \<Rightarrow> 'w st \<Rightarrow> bool" where
  "heard s rs s' \<longleftrightarrow> s_breaker s' = replay Failure Success rs (s_breaker s) \<and>
     (rs = [] \<or> (\<exists>now. rs = [Failed now]) \<and> failureNoted (s_calls s') \<or> rs = [Succeeded] \<and> successNoted (s_calls s'))"

lemma heard_simps:
  "heard s [] s' \<longleftrightarrow> s_breaker s' = s_breaker s"
  "heard s [Failed now] s' \<longleftrightarrow> s_breaker s' = snd (Failure (s_breaker s) now) \<and> failureNoted (s_calls s')"
  "heard s [Succeeded] s' \<longleftrightarrow> s_breaker s' = Success (s_breaker s) \<and> successNoted (s_calls s')"
  by (auto simp: heard_def replay_def)

text \<open>At most one report; none if the answer satisfies \<open>P\<close>, that is, if the pass goes on.\<close>

definition tells :: "('r \<Rightarrow> bool) \<Rightarrow> ('w st, 'r) handler \<Rightarrow> bool" where
  "tells P m \<longleftrightarrow> (\<forall>s x s'. m s = (x, s') \<longrightarrow> (\<exists>rs. heard s rs s' \<and> (P x \<longrightarrow> rs = [])))"

abbreviation onSuccess :: "'e + 'a \<Rightarrow> bool" where "onSuccess x \<equiv> \<not> isl x"
abbreviation never :: "'r \<Rightarrow> bool" where "never \<equiv> \<lambda>_. False"

named_theorems tells_rules \<open>what an operation reports\<close>

lemma tellsI: "(\<And>s x s'. m s = (x, s') \<Longrightarrow> \<exists>rs. heard s rs s' \<and> (P x \<longrightarrow> rs = [])) \<Longrightarrow> tells P m"
  by (simp add: tells_def)

lemma tellsE:
  assumes "tells P m" and "m s = (x, s')"
  obtains rs where "heard s rs s'" "P x \<longrightarrow> rs = []"
  using assms unfolding tells_def by blast

lemma tells_quiet: "quiet m \<Longrightarrow> tells P m"
  by (intro tellsI exI [of _ "[]"]) (simp add: heard_simps quietD)

lemma heard_trans: "s_breaker s1 = s_breaker s \<Longrightarrow> heard s1 rs s' \<Longrightarrow> heard s rs s'"
  by (simp add: heard_def)

lemma tells_after [tells_rules]:
  assumes "quiet m" and "\<And>x. tells P (k x)"
  shows "tells P (after m k)"
proof (rule tellsI)
  fix s x s'
  assume run: "after m k s = (x, s')"
  obtain y s1 where m: "m s = (y, s1)" by fastforce
  with run have "k y s1 = (x, s')" by (simp add: exec)
  with assms(2) obtain rs where "heard s1 rs s'" "P x \<longrightarrow> rs = []" by (meson tellsE)
  with heard_trans [OF quietD [OF assms(1) m]] show "\<exists>rs. heard s rs s' \<and> (P x \<longrightarrow> rs = [])" by blast
qed

lemma tells_check [tells_rules]:
  "quiet m \<Longrightarrow> (\<And>e. tells P (h e)) \<Longrightarrow> (\<And>a. tells P (k a)) \<Longrightarrow> tells P (check m h k)"
  unfolding check_as_after by (rule tells_after) (auto split: sum.splits)

lemma tells_local [tells_rules]:
  "(\<And>s. tells P (f s)) \<Longrightarrow> tells P (reads f)"
  "(b \<Longrightarrow> tells P m) \<Longrightarrow> (\<not> b \<Longrightarrow> tells P n) \<Longrightarrow> tells P (if b then m else n)"
  "(\<And>a b. tells P (g a b)) \<Longrightarrow> tells P (case y of (a, b) \<Rightarrow> g a b)"
  "tells P n \<Longrightarrow> (\<And>a. tells P (g' a)) \<Longrightarrow> tells P (case z of None \<Rightarrow> n | Some a \<Rightarrow> g' a)"
  "tells P (f' t) \<Longrightarrow> tells P (let x = t in f' x)"
  by (auto simp: tells_def reads_def split: prod.split option.split)

text \<open>A step that may end the pass: where it did, what follows hands its answer on.\<close>

lemma tells_then:
  assumes "tells R m" and "\<And>x. R x \<Longrightarrow> tells P (k x)" and "\<And>x. \<not> R x \<Longrightarrow> \<exists>y. (\<forall>s. k x s = (y, s)) \<and> \<not> P y"
  shows "tells P (after m k)"
proof (rule tellsI)
  fix s x s'
  assume run: "after m k s = (x, s')"
  obtain y s1 where m: "m s = (y, s1)" by fastforce
  with assms(1) obtain rs where rs: "heard s rs s1" "R y \<longrightarrow> rs = []" by (rule tellsE)
  from run m have k: "k y s1 = (x, s')" by (simp add: exec)
  show "\<exists>rs. heard s rs s' \<and> (P x \<longrightarrow> rs = [])"
  proof (cases "R y")
    case True
    from assms(2) [OF True] k obtain rs' where "heard s1 rs' s'" "P x \<longrightarrow> rs' = []" by (rule tellsE)
    moreover have "s_breaker s1 = s_breaker s" using rs True by (simp add: heard_simps)
    ultimately show ?thesis using heard_trans by blast
  next
    case False
    with assms(3) k rs show ?thesis by fastforce
  qed
qed

lemma tells_andThen:
  assumes "tells onSuccess m" and "\<And>a. tells P (k a)" and "\<And>e. \<not> P (Inl e)"
  shows "tells P (andThen m k)"
  unfolding check_as_after by (rule tells_then [OF assms(1)]) (use assms(2,3) in \<open>auto simp: exec split: sum.splits\<close>)

lemma tells_end:
  assumes "tells never m" and "\<And>x. \<exists>y. (\<forall>s. k x s = (y, s)) \<and> \<not> P y"
  shows "tells P (after m k)"
  by (rule tells_then [OF assms(1)]) (use assms(2) in auto)

lemma tells_fail [tells_rules]: "tells never (fail r err)"
proof (rule tellsI)
  fix s x s'
  assume run: "fail r err s = (x, s')"
  obtain b ok now where "s_calls (snd (fail r err s)) = KUpdateStatus b ok # s_calls s"
    "if fst (degrade r err s) then heldStatus err b else failedBucket err b"
    "s_breaker (snd (fail r err s)) = snd (Failure (s_breaker s) now)"
    using fail_shape [of r err s] by blast
  with run have "heard s [Failed now] s'" by (auto simp: heard_simps failureNoted_def recordsFailure_def heldStatus_def failedBucket_def split: if_splits)
  then show "\<exists>rs. heard s rs s' \<and> (False \<longrightarrow> rs = [])" by blast
qed

lemma tells_stops [tells_rules]: "tells never m \<Longrightarrow> tells P (stops m)" if "\<And>e. \<not> P (Inl e)"
  unfolding stops_def by (rule tells_end) (use that in \<open>auto simp: exec\<close>)

lemma tells_endsWith [tells_rules]: "tells never m \<Longrightarrow> tells fst (endsWith m)"
  unfolding endsWith_def by (erule tells_end) (auto simp: exec)
section \<open>The reports of each operation\<close>

text \<open>What the breaker does not hear of.\<close>

lemma quiet_steps [tells_rules]:
  "quiet (ensureAdmin r c)" "quiet (EnsureService c)" "quiet (ensureBucket r c b n ac)" "quiet (BucketConnInfo c n)"
  "quiet (BucketExists c n)" "quiet (listGroups c)" "quiet (resolveWorkloadGroup r c b n ac gs create fresh)"
  "quiet (resolveReadGrants r c b ac gs)" "quiet (ensureBucketPolicy r c n ac u rs)" "quiet (ensureAccessKeyAndSecret r c g h u)"
  "quiet (updateStatus r)" "quiet (modObj ff2)" "quiet (modStatus fs)" "quiet (raise r w x y)" "quiet (failNoRequeue r err)"
  "quiet (markFailedReason r x err)" "quiet (holdForProvider r wt)" "quiet (persistResolvedName r n)" "quiet (markProvisioning r)"
  "quiet (recordPendingRotation r)" "quiet (cloneSourceCreds r b)" "quiet (measureSource r src ak sk)"
  "quiet (ensureCloneStagingSecret r b ak sk)" "quiet (pollCloneStats r j p)" "quiet (updateCloneProgress r z)"
  "quiet (deleteCloneArtifacts r b st)" "quiet (teardown r c)" "quiet (dropFinalizer r)" "quiet (ensureFinalizer r)"
  "quiet (reconcileSkeleton r)" "quiet (ReconcileUsage ur ns n)" "quiet (callOut ff cc)" "quiet (ret a)" "quiet (fault e)" "quiet (finish t)"
  by (rule quietI, intro keeps_rules br.stable)+

lemma quiet_report [tells_rules]: "quiet (if b then reportAuthorizedRecreate r n else finish ())"
  unfolding reportAuthorizedRecreate_def by (rule quietI, intro keeps_rules br.update) simp_all

lemmas tells_plain [tells_rules] = tells_quiet [OF quiet_steps(33)] tells_quiet [OF quiet_steps(34)] tells_quiet [OF quiet_steps(35)]
  tells_quiet [OF quiet_steps(15)] tells_quiet [OF quiet_steps(17)] tells_quiet [OF quiet_steps(30)] tells_quiet [OF quiet_steps(28)]

lemma tells_guard [tells_rules]: "tells onSuccess (guardBucketPresent r c n)"
  unfolding guardBucketPresent_def by (intro tells_rules) simp_all

lemma tells_failEnsureBucket [tells_rules]: "tells never (failEnsureBucket r err)"
  unfolding failEnsureBucket_def by (intro tells_rules)

lemma tells_issue [tells_rules]: "tells onSuccess (issueCredentials r c g h u ch)" "tells onSuccess (applyPolicy r c n ac u rg ch)"
  unfolding issueCredentials_def applyPolicy_def by (intro tells_rules; simp)+
lemma tells_completeClone [tells_rules]: "tells fst (completeClone r job)"
  unfolding completeClone_def endsWith_def [symmetric] by (intro tells_rules)

lemma tells_driveJob [tells_rules]: "tells fst (driveJob r c src n u p)"
  unfolding driveJob_def Let_def by (intro tells_rules)

lemma tells_ensureClone: "tells fst (ensureClone r c n u)"
  unfolding ensureClone_def Let_def by (intro tells_rules)

lemma tells_cloneStep:
  "tells onSuccess (if b then cloneStep r c n ac g u h burl rg ch else ret ([], ch))"
proof -
  have "tells onSuccess (after (ensureClone r c n e) (\<lambda>(done, res). if \<not> done then fault res
      else andThen (applyPolicy r c n ac u rg ch) (\<lambda>ch. ret (kid, ch))))" for e ch kid
    by (rule tells_then [OF tells_ensureClone])
      (auto simp: exec intro!: tells_andThen [OF tells_issue(2)] tells_plain split: prod.splits)
  note rest = this
  have creds: "tells onSuccess (if h then ret ([], ch) else andThen (issueCredentials r c g hs burl ch)
      (\<lambda>kc. andDo (recordPendingRotation r) (ret kc)))" for h hs
    by (intro tells_local tells_plain tells_andThen [OF tells_issue(1)] tells_after quiet_steps) simp
  show ?thesis unfolding cloneStep_def
    by (intro tells_local tells_plain tells_andThen [OF creds] rest) simp
qed
lemma tells_provisionCredentialsAndClone: "tells onSuccess (provisionCredentialsAndClone r c n ac host burl fresh ch)"
  unfolding provisionCredentialsAndClone_def Let_def
  by (rule tells_andThen [OF tells_issue(2)] tells_andThen [OF tells_cloneStep] tells_andThen [OF tells_local(2)] tells_issue
      tells_rules | simp)+

lemma tells_finishPass: "tells never (finishPass r n burl creds ch)"
proof (rule tellsI)
  fix s x s'
  assume run: "finishPass r n burl creds ch s = (x, s')"
  obtain s1 where rec: "recordPendingRotation r s = ((), s1)" by (cases "recordPendingRotation r s") auto
  define s2 where "s2 = s1\<lparr>s_obj := (s_obj s1)\<lparr>b_Status := readyStatus r n burl creds (clock (r_sys r) s1) (s_obj s1)\<rparr>\<rparr>"
  have br: "s_breaker s2 = s_breaker s" using quietD [OF quiet_steps(20) rec] by (simp add: s2_def)
  have ready: "st_Phase (b_Status (s_obj s2)) = PhaseReady" by (simp add: s2_def readyStatus_def Let_def clearDegraded_def)
  have run2: "after (updateStatus r) (\<lambda>err. case err of Some e \<Rightarrow> fault (0, ignoreNotFound (Some e))
      | None \<Rightarrow> andDo breakerSuccess (andDo (reportPass r ch) (ret (r_DriftResyncInterval r, None)))) s2 = (x, s')"
    using run by (simp add: finishPass_def exec rec s2_def)
  have q: "s_breaker (snd (reportPass r ch t)) = s_breaker t \<and> s_calls (snd (reportPass r ch t)) = s_calls t" for t
    by (simp add: reportPass_def exec)
  show "\<exists>rs. heard s rs s' \<and> (False \<longrightarrow> rs = [])"
  proof (cases "statusAnswer r s2")
    case (Inl e)
    with run2 br have "heard s [] s'" by (auto simp: exec heard_simps updateStatus_run)
    then show ?thesis by blast
  next
    case (Inr b)
    with run2 br ready have "heard s [Succeeded] s'"
      by (auto simp: exec heard_simps updateStatus_run q successNoted_def)
    then show ?thesis by blast
  qed
qed

lemma tells_provisionBucket: "tells never (provisionBucket r c n ch)"
  unfolding provisionBucket_def Let_def
  by (rule tells_andThen [OF tells_guard] tells_andThen [OF tells_provisionCredentialsAndClone] tells_finishPass
      tells_rules | simp)+

lemma tells_reconcileNormal: "tells never (reconcileNormal r c)"
proof -
  have "tells never (check (provisionBucket r c n ch) finish finish)" for n ch
    unfolding check_as_after by (rule tells_end [OF tells_provisionBucket]) (auto simp: exec split: sum.splits)
  note body = this
  show ?thesis unfolding reconcileNormal_def Let_def by (rule body tells_rules)+
qed

lemma tells_releaseAndDrop: "tells never (releaseAndDrop r c)"
proof -
  have "tells never (andDo breakerSuccess (dropFinalizer r))"
  proof (rule tellsI)
    fix s x s'
    assume "andDo breakerSuccess (dropFinalizer r) s = (x, s')"
    then have run: "dropFinalizer r (s\<lparr>s_breaker := Success (s_breaker s)\<rparr>) = (x, s')" by (simp add: exec)
    then have "s_breaker s' = Success (s_breaker s)" using quietD [OF quiet_steps(28)] by fastforce
    moreover have "successNoted (s_calls s')"
      using run by (auto simp: dropFinalizer_def updateObj_def exec successNoted_def split: sum.splits)
    ultimately show "\<exists>rs. heard s rs s' \<and> (False \<longrightarrow> rs = [])" by (metis heard_simps(3))
  qed
  note release = this
  show ?thesis unfolding releaseAndDrop_def by (rule release tells_rules)+
qed

lemma tells_reconcileDelete: "tells never (reconcileDelete r)"
  unfolding reconcileDelete_def by (intro tells_rules tells_releaseAndDrop)

lemma tells_Reconcile: "tells never (Reconcile r ns n)"
  unfolding Reconcile_def gated_def by (intro tells_rules tells_reconcileDelete tells_reconcileNormal)

end
