(* ===== verification/Fleet.thy ===== *)
theory Fleet
  imports Reports
begin

text \<open>
  The running process: passes of both controllers over one shared state, polls of the
  service-account key, restarts, and a world that others change in between.
  \<open>bucket_controller.go\<close>, \<open>bucket_usage_controller.go\<close> and \<open>sakey_reload.go\<close> meet in the breaker,
  the admin credential and the caches, which \<open>cmd/main.go\<close> creates once. A pass of the
  provisioning controller runs to its end before the next one starts (one worker); the measurement
  controller and the poller only touch the shared state where the model has a step of them.
\<close>

section \<open>One whole pass\<close>

definition harmless :: "call \<Rightarrow> bool" where
  "harmless x = (case x of KGetBucket _ _ _ \<Rightarrow> True | KUpdateBucket _ _ \<Rightarrow> True | KUpdateStatus _ _ \<Rightarrow> True | _ \<Rightarrow> False)"

text \<open>The bucket's own tags name the resource \<open>ns/n\<close> of this operator.\<close>

definition ownedSeenAs :: "'w reconciler \<Rightarrow> string \<Rightarrow> string \<Rightarrow> string \<Rightarrow> call set \<Rightarrow> bool" where
  "ownedSeenAs r ns n bkt H \<longleftrightarrow> (\<exists>tags. mget tags tagOwnershipManagedBy = ownershipName r \<and>
     mget tags tagOwnershipOwner = ns @ ''/'' @ n \<and> CGetTags bkt (Inr tags) \<in> H)"

definition fleetRule :: "'w reconciler \<Rightarrow> string \<Rightarrow> string \<Rightarrow> call \<Rightarrow> call set \<Rightarrow> bool" where
  "fleetRule r ns n x H =
     (case x of
        CCreateBucket bkt y \<Rightarrow> (\<exists>p bs. CListBuckets p (Some bs) \<in> H \<and> bkt \<notin> set bs)
      | CSetPolicy bkt p y \<Rightarrow> ownedSeenAs r ns n bkt H
      | CRemoveObjects bkt y \<Rightarrow> r_EnableWipeOnDelete r \<and> ownedSeenAs r ns n bkt H
      | CDeleteBucket bkt y \<Rightarrow> ownedSeenAs r ns n bkt H \<and> cleared bkt H
      | KUpsertSecret sns sn y \<Rightarrow> operatorSecret r sns sn \<or> (\<exists>bkt. isolated bkt H)
      | _ \<Rightarrow> True)"

lemma disciplined_mono: "(\<And>x H. G x H \<Longrightarrow> G' x H) \<Longrightarrow> disciplined G h \<Longrightarrow> disciplined G' h"
  by (induction h) auto

lemma disciplined_all: "(\<And>x H. x \<in> set h \<Longrightarrow> G x H) \<Longrightarrow> disciplined G h"
  by (induction h) auto

lemma ownedSeen_as:
  "b_Namespace b = ns \<Longrightarrow> b_Name b = n \<Longrightarrow> ownedSeen r b bkt H \<Longrightarrow> ownedSeenAs r ns n bkt H"
  by (auto simp: ownedSeen_def ownedSeenAs_def isOwnedByUs_def ownerTagValue_def)

lemma pass_rule: "b_Namespace b = ns \<Longrightarrow> b_Name b = n \<Longrightarrow> passDiscipline r c b name x H \<Longrightarrow> fleetRule r ns n x H"
  by (cases x) (auto simp: passDiscipline_def fleetRule_def ownedSeen_as)

lemma teardown_rule: "b_Namespace b = ns \<Longrightarrow> b_Name b = n \<Longrightarrow> teardownDiscipline r c b name x H \<Longrightarrow> fleetRule r ns n x H"
  by (cases x) (auto simp: teardownDiscipline_def fleetRule_def ownedSeen_as operatorSecret_def)

lemma harmless_cases:
  assumes "harmless x"
  obtains ns n y where "x = KGetBucket ns n y" | b y where "x = KUpdateBucket b y" | b y where "x = KUpdateStatus b y"
  using assms by (cases x) (simp_all add: harmless_def)

lemma harmless_pass: "harmless x \<Longrightarrow> passDiscipline r c b name x H"
  by (erule harmless_cases) (simp_all add: passDiscipline_def)

lemma harmless_rule: "harmless x \<Longrightarrow> fleetRule r ns n x H"
  by (erule harmless_cases) (simp_all add: fleetRule_def)

text \<open>Before a deletion not even the object is updated.\<close>

definition statusOnly :: "call \<Rightarrow> bool" where
  "statusOnly x \<longleftrightarrow> harmless x \<and> (\<forall>b y. x \<noteq> KUpdateBucket b y)"

lemma status_teardown: "statusOnly x \<Longrightarrow> teardownDiscipline r c b name x H"
  unfolding statusOnly_def by (elim conjE harmless_cases) auto

text \<open>The object of the pass is the resource \<open>ns/n\<close>, and only calls as in \<open>A\<close> were sent.\<close>

definition begun :: "(call \<Rightarrow> bool) \<Rightarrow> string \<Rightarrow> string \<Rightarrow> 'w st \<Rightarrow> bool" where
  "begun A ns n s \<longleftrightarrow> b_Namespace (s_obj s) = ns \<and> b_Name (s_obj s) = n \<and> (\<forall>x \<in> set (s_calls s). A x)"

definition ruled :: "'w reconciler \<Rightarrow> string \<Rightarrow> string \<Rightarrow> 'w st \<Rightarrow> bool" where
  "ruled r ns n s \<longleftrightarrow> disciplined (fleetRule r ns n) (s_calls s)"

lemma begun_ruled: "begun A ns n s \<Longrightarrow> (\<And>x. A x \<Longrightarrow> harmless x) \<Longrightarrow> ruled r ns n s"
  by (auto simp: begun_def ruled_def intro: disciplined_all harmless_rule)

lemma ruled_tail:
  assumes "calls_only harmless m"
  shows "valid (ruled r ns n) m (\<lambda>_. ruled r ns n)"
proof (rule validI)
  fix s x s'
  assume s: "ruled r ns n s" and run: "m s = (x, s')"
  obtain new where "s_calls s' = new @ s_calls s" "\<forall>c \<in> set new. harmless c"
    by (rule calls_onlyD [OF assms run])
  with s show "ruled r ns n s'"
    unfolding ruled_def by (simp add: disciplined_append [where K = "\<lambda>_. True"] lasting_simple harmless_rule)
qed

lemma begun_tail: "calls_only harmless m \<Longrightarrow> (\<And>x. A x \<Longrightarrow> harmless x) \<Longrightarrow> valid (begun A ns n) m (\<lambda>_. ruled r ns n)"
  by (rule valid_weaken [OF ruled_tail]) (auto intro: begun_ruled)

lemma provision_ruled: "valid (begun harmless ns n) (provisionBucket r c name ch) (\<lambda>_. ruled r ns n)"
proof (rule validI)
  fix s x s'
  assume o: "begun harmless ns n s" and run: "provisionBucket r c name ch s = (x, s')"
  from o have "onObj (s_obj s) s \<and> disc (passDiscipline r c (s_obj s) name) (\<lambda>_. True) s"
    by (auto simp: onObj_def disc_def begun_def intro: disciplined_all harmless_pass)
  from validD [OF provisionBucket_disc this run] have "disciplined (passDiscipline r c (s_obj s) name) (s_calls s')"
    by (simp add: disc_def)
  then show "ruled r ns n s'"
    unfolding ruled_def by (rule disciplined_mono [rotated]) (use o in \<open>auto simp: begun_def intro: pass_rule\<close>)
qed
text \<open>What the passes rely on of the API server: a read yields the resource asked for, a write stores it
  under its own name.\<close>

locale cluster = apiserver r for r :: "'w reconciler" +
  assumes get_identity: "k_GetBucket (r_kube r) ns n w = (Inr b, w') \<Longrightarrow> b_Namespace b = ns \<and> b_Name b = n"
    and update_identity: "k_UpdateBucket (r_kube r) b w = (Inr b', w') \<Longrightarrow> sameBucket b' b"
begin

lemma stored:
  "fst (k_UpdateStatus (r_kube r) b w) = Inr b' \<Longrightarrow> b_Namespace b' = b_Namespace b \<and> b_Name b' = b_Name b"
  "fst (k_UpdateBucket (r_kube r) b w) = Inr b' \<Longrightarrow> b_Namespace b' = b_Namespace b \<and> b_Name b' = b_Name b"
  by (metis status_identity prod.collapse sameBucket_def, metis update_identity prod.collapse sameBucket_def)

lemma keeps_modStatus: "keeps (begun A ns n) (modStatus f)"
  by (rule keepsI) (auto simp: begun_def exec)

lemma keeps_modObj: "(\<And>b. sameBucket (g b) b) \<Longrightarrow> keeps (begun A ns n) (modObj g)"
  by (rule keepsI) (auto simp: begun_def exec sameBucket_def)

lemma keeps_updates:
  "(\<And>b y. A (KUpdateStatus b y)) \<Longrightarrow> keeps (begun A ns n) (updateStatus r)"
  "(\<And>b y. A (KUpdateBucket b y)) \<Longrightarrow> keeps (begun A ns n) (updateObj r)"
  by (rule keepsI, auto simp: begun_def updateStatus_def updateObj_def exec split: sum.splits dest: stored)+

lemma keeps_opening:
  "keeps (begun harmless ns n) (persistResolvedName r name)" "keeps (begun harmless ns n) (markProvisioning r)"
  "keeps (begun harmless ns n) (ensureFinalizer r)"
  unfolding persistResolvedName_def markProvisioning_def ensureFinalizer_def
  by (intro keeps_rules keeps_updates keeps_modStatus keeps_modObj; simp add: harmless_def sameBucket_def)+

lemma normal_ruled: "valid (begun harmless ns n) (reconcileNormal r c) (\<lambda>_. ruled r ns n)"
proof -
  have tail: "valid (begun harmless ns n) m (\<lambda>_. ruled r ns n)" if "calls_only harmless m" for m :: "('w st, Result) handler"
    using that by (rule begun_tail)
  have fin: "valid (ruled r ns n) (finish x) (\<lambda>_. ruled r ns n)" for x :: Result by (rule valid_end)
  show ?thesis unfolding reconcileNormal_def Let_def
    apply (rule valid_readsI, intro valid_option valid_prod)
     apply (rule valid_after [OF keeps_opening(1) [unfolded keeps_def]])
     apply (intro valid_option valid_readsI)
      apply (rule valid_after [OF keeps_opening(2) [unfolded keeps_def]])
      apply (rule valid_check [OF _ fin fin])
      apply (rule valid_weaken [OF provision_ruled], assumption, simp split: sum.splits)
     apply (rule tail, intro only_rules, simp add: harmless_def)+
    done
qed

lemma teardown_ruled: "valid (begun statusOnly ns n) (teardown r c) (\<lambda>_. ruled r ns n)"
proof (rule validI)
  fix s x s'
  assume o: "begun statusOnly ns n s" and run: "teardown r c s = (x, s')"
  let ?G = "teardownDiscipline r c (s_obj s) (EffectiveBucketName (s_obj s))"
  from o have "onObj (s_obj s) s \<and> disc ?G (\<lambda>_. True) s"
    by (auto simp: onObj_def disc_def begun_def intro: disciplined_all status_teardown)
  from validD [OF teardown_td this run] have "disciplined ?G (s_calls s')" by (simp add: disc_def)
  then show "ruled r ns n s'"
    unfolding ruled_def by (rule disciplined_mono [rotated]) (use o in \<open>auto simp: begun_def intro: teardown_rule\<close>)
qed

lemma release_ruled: "valid (begun statusOnly ns n) (releaseAndDrop r c) (\<lambda>_. ruled r ns n)"
proof -
  have tail: "valid (ruled r ns n) m (\<lambda>_. ruled r ns n)" if "calls_only harmless m" for m :: "('w st, Result) handler"
    using that by (rule ruled_tail)
  show ?thesis unfolding releaseAndDrop_def
    apply (rule valid_readsI, intro valid_if)
     apply (rule valid_end, rule begun_ruled, assumption, simp add: statusOnly_def)
    apply (rule valid_check [where E = "\<lambda>_. ruled r ns n" and R = "\<lambda>_. ruled r ns n"])
      apply (rule valid_weaken [OF teardown_ruled], assumption, simp split: sum.splits)
     apply (rule tail, intro only_rules only_dropFinalizer, simp add: harmless_def)+
    done
qed

lemma delete_ruled: "valid (begun statusOnly ns n) (reconcileDelete r) (\<lambda>_. ruled r ns n)"
proof -
  have tail: "valid (begun statusOnly ns n) m (\<lambda>_. ruled r ns n)" if "calls_only harmless m" for m :: "('w st, Result) handler"
    using that by (rule begun_tail) (simp add: statusOnly_def)
  have upd: "keeps (begun statusOnly ns n) (updateStatus r)"
    by (rule keeps_updates) (simp add: statusOnly_def harmless_def)
  show ?thesis unfolding reconcileDelete_def
    apply (rule valid_readsI, intro valid_if valid_option release_ruled)
       apply (rule tail, intro only_rules)
      apply (rule tail, intro only_dropFinalizer, simp add: harmless_def)
    apply (rule valid_after [OF keeps_modStatus [unfolded keeps_def]])
    apply (rule valid_after [OF upd [unfolded keeps_def]])
    apply (intro valid_option release_ruled)
    apply (rule tail, intro only_rules)
    done
qed

lemma live_ruled:
  "valid (begun harmless ns n) (after (ensureFinalizer r) (\<lambda>err. case err of Some e \<Rightarrow> finish (0, Some e)
     | None \<Rightarrow> (case r_Stackit r of None \<Rightarrow> reconcileSkeleton r | Some c \<Rightarrow> gated r c))) (\<lambda>_. ruled r ns n)"
proof -
  have tail: "valid (begun harmless ns n) m (\<lambda>_. ruled r ns n)" if "calls_only harmless m" for m :: "('w st, Result) handler"
    using that by (rule begun_tail)
  show ?thesis unfolding gated_def
    apply (rule valid_after [OF keeps_opening(3) [unfolded keeps_def]])
    apply (intro valid_option valid_readsI valid_if normal_ruled)
      apply (rule tail, intro only_rules only_reconcileSkeleton, simp add: harmless_def)+
    apply (rule tail, intro only_rules)
    done
qed

lemma Reconcile_ruled:
  assumes "s_calls s = []"
  shows "disciplined (fleetRule r ns n) (s_calls (snd (Reconcile r ns n s)))"
proof (cases "fst (k_GetBucket (r_kube r) ns n (s_world s))")
  case (Inl e)
  with assms show ?thesis by (simp add: Reconcile_def exec fleetRule_def)
next
  case (Inr b)
  let ?s1 = "s\<lparr>s_world := snd (k_GetBucket (r_kube r) ns n (s_world s)), s_calls := [KGetBucket ns n True], s_obj := b\<rparr>"
  have "b_Namespace b = ns \<and> b_Name b = n" by (metis Inr get_identity prod.collapse)
  then have b: "begun statusOnly ns n ?s1" "begun harmless ns n ?s1" by (simp_all add: begun_def statusOnly_def harmless_def)
  have run: "Reconcile r ns n s = (if b_DeletionTimestamp b \<noteq> None then reconcileDelete r ?s1
      else after (ensureFinalizer r) (\<lambda>err. case err of Some e \<Rightarrow> finish (0, Some e)
        | None \<Rightarrow> (case r_Stackit r of None \<Rightarrow> reconcileSkeleton r | Some c \<Rightarrow> gated r c)) ?s1)"
    using Inr assms by (simp add: Reconcile_def exec)
  show ?thesis
    unfolding run using validD [OF delete_ruled b(1) prod.collapse [symmetric]] validD [OF live_ruled b(2) prod.collapse [symmetric]]
    by (simp add: ruled_def)
qed

end

interpretation fakeCluster: cluster fakeReconciler
proof
  show "b_Namespace b = ns \<and> b_Name b = n" if "k_GetBucket (r_kube fakeReconciler) ns n w = (Inr b, w')" for ns n b w w'
    using that by (auto simp: fakeReconciler_def fakeKube_def find_Some_iff split: option.splits)
  show "sameBucket b' b" if "k_UpdateBucket (r_kube fakeReconciler) b w = (Inr b', w')" for b w b' w'
    using that by (auto simp: fakeReconciler_def fakeKube_def storeCR_def sameBucket_def split: option.splits)
qed
section \<open>The process\<close>

text \<open>The log of a process, newest entry first: a provisioning pass with the object it read, its result
  and its calls; a measurement with the object and the time it read; a poll of the key.\<close>

datatype logEntry =
    Reconciled string string "Bucket option" Result "call list"
  | Measured string string "Bucket option" int "call list"
  | Polled ReloadOutcome

record 'w process =
  pr_st :: "'w st"
  pr_observer :: SAKeyReloadObserver
  pr_log :: "logEntry list"

datatype 'w action =
    ReconcileNext string string
  | MeasureNext string string
  | Poll ReloadResult int
  | Meanwhile 'w
  | Restart Account int

text \<open>What a start of the operator creates; the object field is set by the first pass.\<close>

definition freshState :: "int \<Rightarrow> int \<Rightarrow> 'w \<Rightarrow> Bucket \<Rightarrow> 'w st" where
  "freshState th mc w b = \<lparr>s_world = w, s_obj = b, s_admin = None, s_breaker = Some (NewProviderBreaker th mc),
     s_serviceReady = False, s_verified = [], s_events = [], s_recreations = [], s_calls = []\<rparr>"

definition startProcess :: "int \<Rightarrow> int \<Rightarrow> Account \<Rightarrow> int \<Rightarrow> 'w \<Rightarrow> Bucket \<Rightarrow> 'w process" where
  "startProcess th mc acc now w b =
     \<lparr>pr_st = freshState th mc w b, pr_observer = NewSAKeyReloadObserver (Some (NewProviderBreaker th mc)) acc now, pr_log = []\<rparr>"

text \<open>One action. The observer holds a pointer to the shared breaker.\<close>

definition reconcileStep :: "'w reconciler \<Rightarrow> string \<Rightarrow> string \<Rightarrow> 'w process \<Rightarrow> 'w process" where
  "reconcileStep r ns n p =
     (let s = (pr_st p)\<lparr>s_calls := []\<rparr> in
      case Reconcile r ns n s of (res, s') \<Rightarrow>
        p\<lparr>pr_st := s', pr_log := Reconciled ns n (okVal (fst (k_GetBucket (r_kube r) ns n (s_world s)))) res (s_calls s') # pr_log p\<rparr>)"

definition measureStep :: "'w BucketUsageReconciler \<Rightarrow> string \<Rightarrow> string \<Rightarrow> 'w process \<Rightarrow> 'w process" where
  "measureStep ur ns n p =
     (let s = (pr_st p)\<lparr>s_calls := []\<rparr> in
      case k_GetBucket (ur_kube ur) ns n (s_world s) of (got, w) \<Rightarrow>
      case ReconcileUsage ur ns n s of (res, s') \<Rightarrow>
        p\<lparr>pr_st := s', pr_log := Measured ns n (okVal got) (sys_Now (ur_sys ur) w) (s_calls s') # pr_log p\<rparr>)"

definition pollStep :: "ReloadResult \<Rightarrow> int \<Rightarrow> 'w process \<Rightarrow> 'w process" where
  "pollStep res now p =
     (let ob = Observe (res, now) ((pr_observer p)\<lparr>ob_breaker := s_breaker (pr_st p)\<rparr>) in
      p\<lparr>pr_st := (pr_st p)\<lparr>s_breaker := ob_breaker ob\<rparr>, pr_observer := ob, pr_log := Polled (rr_Outcome res) # pr_log p\<rparr>)"

fun perform :: "'w reconciler \<Rightarrow> 'w BucketUsageReconciler \<Rightarrow> int \<Rightarrow> int \<Rightarrow> 'w action \<Rightarrow> 'w process \<Rightarrow> 'w process" where
  "perform r ur th mc (ReconcileNext ns n) p = reconcileStep r ns n p"
| "perform r ur th mc (MeasureNext ns n) p = measureStep ur ns n p"
| "perform r ur th mc (Poll res now) p = pollStep res now p"
| "perform r ur th mc (Meanwhile w) p = p\<lparr>pr_st := (pr_st p)\<lparr>s_world := w\<rparr>\<rparr>"
| "perform r ur th mc (Restart acc now) p = startProcess th mc acc now (s_world (pr_st p)) (s_obj (pr_st p))"

inductive reached :: "'w reconciler \<Rightarrow> 'w BucketUsageReconciler \<Rightarrow> int \<Rightarrow> int \<Rightarrow> 'w process \<Rightarrow> bool"
  for r ur th mc where
  start: "reached r ur th mc (startProcess th mc acc now w b)"
| step: "reached r ur th mc p \<Longrightarrow> reached r ur th mc (perform r ur th mc a p)"

lemma reached_perform: "reached r ur th mc p \<Longrightarrow> reached r ur th mc (fold (perform r ur th mc) as p)"
  by (induction "as" arbitrary: p) (auto intro: reached.step)

section \<open>The breaker refines the history of reports\<close>

fun failing :: "logEntry \<Rightarrow> bool" where
  "failing (Reconciled ns n b res cs) = failureNoted cs"
| "failing (Measured ns n b now cs) = False"
| "failing (Polled oc) = False"

text \<open>The reports an entry may stand for.\<close>

fun reportOf :: "logEntry \<Rightarrow> outcome list \<Rightarrow> bool" where
  "reportOf (Reconciled ns n b res cs) rs \<longleftrightarrow>
     rs = [] \<or> (\<exists>now. rs = [Failed now]) \<and> failureNoted cs \<or> rs = [Succeeded] \<and> successNoted cs"
| "reportOf (Measured ns n b now cs) rs \<longleftrightarrow> rs = []"
| "reportOf (Polled oc) rs \<longleftrightarrow> rs = (if oc = ReloadApplied then [Succeeded] else [])"

lemma reports_extend:
  assumes "list_all2 reportOf es rss" and "br = afterReports th mc (concat (rev rss))"
    and "reportOf x rs" and "br' = replay Failure Success rs br"
  shows "\<exists>rss. list_all2 reportOf (x # es) rss \<and> br' = afterReports th mc (concat (rev rss))"
  using assms by (intro exI [of _ "rs # rss"]) (simp add: afterReports_def replay_def)

lemma breaker_reports:
  "reached r ur th mc p \<Longrightarrow>
    \<exists>rss. list_all2 reportOf (pr_log p) rss \<and> s_breaker (pr_st p) = afterReports th mc (concat (rev rss))"
proof (induction rule: reached.induct)
  case (start acc now w b)
  show ?case by (simp add: startProcess_def freshState_def afterReports_def replay_def)
next
  case (step p a)
  then obtain rss where rss: "list_all2 reportOf (pr_log p) rss" "s_breaker (pr_st p) = afterReports th mc (concat (rev rss))"
    by blast
  note extend = reports_extend [OF rss]
  show ?case
  proof (cases a)
    case (ReconcileNext ns n)
    let ?s = "(pr_st p)\<lparr>s_calls := []\<rparr>"
    obtain res s' where run: "Reconcile r ns n ?s = (res, s')" by fastforce
    from tells_Reconcile this obtain rs where "heard ?s rs s'" by (rule tellsE)
    with extend [of "Reconciled ns n (okVal (fst (k_GetBucket (r_kube r) ns n (s_world ?s)))) res (s_calls s')" rs] run ReconcileNext
    show ?thesis by (auto simp: reconcileStep_def heard_def)
  next
    case (MeasureNext ns n)
    let ?s = "(pr_st p)\<lparr>s_calls := []\<rparr>"
    obtain got w where get: "k_GetBucket (ur_kube ur) ns n (s_world (pr_st p)) = (got, w)" by fastforce
    obtain res s' where run: "ReconcileUsage ur ns n ?s = (res, s')" by fastforce
    have "s_breaker s' = s_breaker (pr_st p)" using quietD [OF quiet_steps(31) run] by simp
    with extend [of "Measured ns n (okVal got) (sys_Now (ur_sys ur) w) (s_calls s')" "[]"] run get MeasureNext
    show ?thesis by (auto simp: measureStep_def replay_def)
  next
    case (Poll res now)
    with extend [of "Polled (rr_Outcome res)" "if rr_Outcome res = ReloadApplied then [Succeeded] else []"]
    show ?thesis
      by (cases "rr_Outcome res") (simp_all add: pollStep_def Observe_def adopt_def replay_def)
  next
    case (Meanwhile w)
    with rss show ?thesis by auto
  next
    case (Restart acc now)
    then show ?thesis by (simp add: startProcess_def freshState_def afterReports_def replay_def)
  qed
qed

lemma failures_counted:
  "list_all2 reportOf es rss \<Longrightarrow>
    length (failureRun (concat (rev rss))) \<le> length (filter failing (takeWhile (\<lambda>x. x \<noteq> Polled ReloadApplied) es))"
proof (induction rule: list_all2_induct)
  case (Cons x es rs rss)
  then show ?case by (cases x) (auto simp: failureRun_snoc)
qed simp
section \<open>What every entry of the log satisfies\<close>

fun lawful :: "'w reconciler \<Rightarrow> 'w BucketUsageReconciler \<Rightarrow> logEntry \<Rightarrow> bool" where
  "lawful r ur (Reconciled ns n got res cs) \<longleftrightarrow> disciplined (fleetRule r ns n) cs \<and>
     (case got of None \<Rightarrow> cs = [KGetBucket ns n False] | Some b \<Rightarrow> disciplined (finalizerFirst b) cs)"
| "lawful r ur (Measured ns n got now cs) \<longleftrightarrow>
     (case got of None \<Rightarrow> cs = [KGetBucket ns n False] | Some b \<Rightarrow> list_all (usageCall ur b now) cs)"
| "lawful r ur (Polled oc) \<longleftrightarrow> True"

lemma reconcile_lawful:
  assumes "cluster r" and "Reconcile r ns n s = (res, s')" and "s_calls s = []"
  shows "lawful r ur (Reconciled ns n (okVal (fst (k_GetBucket (r_kube r) ns n (s_world s)))) res (s_calls s'))"
proof -
  have c: "s_calls s' = s_calls (snd (Reconcile r ns n s))" using assms(2) by simp
  have "disciplined (fleetRule r ns n) (s_calls s')" unfolding c by (rule cluster.Reconcile_ruled [OF assms(1,3)])
  moreover have "case okVal (fst (k_GetBucket (r_kube r) ns n (s_world s))) of None \<Rightarrow> s_calls s' = [KGetBucket ns n False]
      | Some b \<Rightarrow> disciplined (finalizerFirst b) (s_calls s')"
  proof (cases "fst (k_GetBucket (r_kube r) ns n (s_world s))")
    case (Inl e)
    with assms(2,3) show ?thesis by (auto simp: Reconcile_def exec)
  next
    case (Inr b)
    then show ?thesis using Reconcile_disc [OF Inr assms(3)] by (simp add: c)
  qed
  ultimately show ?thesis by simp
qed

lemma measure_lawful:
  assumes "k_GetBucket (ur_kube ur) ns n (s_world s) = (got, w)" and "ReconcileUsage ur ns n s = (res, s')" and "s_calls s = []"
  shows "lawful r ur (Measured ns n (okVal got) (sys_Now (ur_sys ur) w) (s_calls s'))"
proof (cases got)
  case (Inl e)
  with assms show ?thesis by (auto simp: ReconcileUsage_def exec)
next
  case (Inr b)
  with assms(2,3) ReconcileUsage_calls [OF assms(1) [unfolded Inr]] show ?thesis by simp
qed

lemma log_lawful:
  assumes "cluster r"
  shows "reached r ur th mc p \<Longrightarrow> list_all (lawful r ur) (pr_log p)"
proof (induction rule: reached.induct)
  case (start acc now w b)
  show ?case by (simp add: startProcess_def)
next
  case (step p a)
  show ?case
  proof (cases a)
    case (ReconcileNext ns n)
    obtain res s' where run: "Reconcile r ns n ((pr_st p)\<lparr>s_calls := []\<rparr>) = (res, s')" by fastforce
    from reconcile_lawful [OF assms run, of ur] step ReconcileNext run show ?thesis by (simp add: reconcileStep_def Let_def)
  next
    case (MeasureNext ns n)
    obtain got w where get: "k_GetBucket (ur_kube ur) ns n (s_world (pr_st p)) = (got, w)" by fastforce
    obtain res s' where run: "ReconcileUsage ur ns n ((pr_st p)\<lparr>s_calls := []\<rparr>) = (res, s')" by fastforce
    from measure_lawful [OF _ run, of got w r] step MeasureNext get run show ?thesis by (simp add: measureStep_def)
  qed (use step in \<open>simp_all add: pollStep_def startProcess_def Let_def\<close>)
qed

text \<open>A cached admin credential stays until the process restarts.\<close>

lemma admin_kept:
  assumes "s_admin (pr_st p) = Some ac" and "\<And>acc now. a \<noteq> Restart acc now"
  shows "s_admin (pr_st (perform r ur th mc a p)) = Some ac"
proof -
  let ?I = "\<lambda>s. s_admin s = Some ac"
  have br: "keeps ?I (breakerFailure r)" "keeps ?I breakerSuccess"
    by (rule keepsI, auto simp: exec)+
  have f: "keeps ?I (fail r e)" for e unfolding fail_def by (intro keeps_rules br ad.stable)
  have cl: "keeps ?I (ensureClone r c n u)" for c n u
    unfolding ensureClone_def driveJob_def completeClone_def endsWith_def Let_def by (intro keeps_rules f ad.stable)
  have pr: "keeps ?I (provisionBucket r c n ch)" for c n ch
    unfolding provisionBucket_def guardBucketPresent_def failEnsureBucket_def provisionCredentialsAndClone_def cloneStep_def
      applyPolicy_def issueCredentials_def finishPass_def reportAuthorizedRecreate_def stops_def Let_def
    by (intro keeps_rules f cl br ad.stable ad.update) simp_all
  have rec: "keeps ?I (Reconcile r ns n)" for ns n
    unfolding Reconcile_def gated_def reconcileNormal_def reconcileDelete_def releaseAndDrop_def Let_def
    by (intro keeps_rules f pr br ad.stable)
  show ?thesis
  proof (cases a)
    case (ReconcileNext ns n)
    with keeps_snd [OF rec [of ns n], of "(pr_st p)\<lparr>s_calls := []\<rparr>"] assms(1) show ?thesis
      by (auto simp: reconcileStep_def Let_def split: prod.split)
  next
    case (MeasureNext ns n)
    with keeps_snd [OF ad.usage [of ac ur ns n], of "(pr_st p)\<lparr>s_calls := []\<rparr>"] assms(1) show ?thesis
      by (auto simp: measureStep_def split: prod.split)
  qed (use assms in \<open>simp_all add: pollStep_def Let_def\<close>)
qed
section \<open>Properties\<close>

text \<open>C24: the breaker is the history of the process. Whatever passes of both controllers, polls of the
  key, changes of the world and restarts led to a state, its breaker is the one that saw the reports of
  the log in order, where a provisioning pass reports at most once (a failure only beside the status
  that records it, a success only beside Ready or the dropped finalizer), a measurement never, and an
  applied key a success. A breaker that withholds reconciles has therefore seen at least the threshold
  of failing passes since the process started and since the last key was applied.\<close>

theorem breaker_is_history:
  assumes "reached r ur th mc p" and "1 \<le> th"
  shows "(\<exists>rss. list_all2 reportOf (pr_log p) rss \<and> s_breaker (pr_st p) = afterReports th mc (concat (rev rss))) \<and>
    (\<not> snd (Allow (s_breaker (pr_st p)) now) \<longrightarrow>
      th \<le> int (length (filter failing (takeWhile (\<lambda>x. x \<noteq> Polled ReloadApplied) (pr_log p)))))"
proof -
  obtain rss where rss: "list_all2 reportOf (pr_log p) rss" "s_breaker (pr_st p) = afterReports th mc (concat (rev rss))"
    using breaker_reports [OF assms(1)] by blast
  have "th \<le> int (length (failureRun (concat (rev rss))))" if "\<not> snd (Allow (s_breaker (pr_st p)) now)"
    using that cb.replay_shut new_breaker_ok [OF assms(2), of mc] unfolding rss(2) afterReports_def by metis
  with failures_counted [OF rss(1)] rss show ?thesis by fastforce
qed

text \<open>An operator that does not know its namespace: every pass fails before it reaches the provider.\<close>

definition strayReconciler :: "fworld reconciler" where
  "strayReconciler = fakeReconciler\<lparr>r_AdminSecretNamespace := []\<rparr>"

definition beforeOutage :: "fworld process" where
  "beforeOutage = startProcess 1 0 zeroAccount 0 (emptyWorld\<lparr>fw_crs := [sampleBucket]\<rparr>) sampleBucket"

theorem breaker_is_history_witness:
  "\<not> snd (Allow (s_breaker (pr_st (reconcileStep strayReconciler ''team'' ''data'' beforeOutage))) 0) \<and>
   1 \<le> length (filter failing (takeWhile (\<lambda>x. x \<noteq> Polled ReloadApplied)
     (pr_log (reconcileStep strayReconciler ''team'' ''data'' beforeOutage))))"
proof -
  have "reached strayReconciler usageReconciler 1 0 (perform strayReconciler usageReconciler 1 0 (ReconcileNext ''team'' ''data'') beforeOutage)"
    unfolding beforeOutage_def by (intro reached.intros)
  then have r: "reached strayReconciler usageReconciler 1 0 (reconcileStep strayReconciler ''team'' ''data'' beforeOutage)" by simp
  have "\<not> snd (Allow (s_breaker (pr_st (reconcileStep strayReconciler ''team'' ''data'' beforeOutage))) 0)" by code_simp
  with breaker_is_history [OF r, of 0] show ?thesis by simp
qed

text \<open>C3: every pass of a running process keeps the rules. In every reachable state, each provisioning
  pass of a resource \<open>ns/n\<close>, from its first read to its last write, created a bucket only after a
  listing without it; wrote a policy to, wiped or deleted only a bucket whose tags it had read as those
  of \<open>ns/n\<close> under this operator's name, deleted it only behind the data-loss guard, and wrote a Secret
  other than the operator's own only with an isolation policy in force; called nothing but the cluster
  before the finalizer was stored; and did nothing at all for a resource it could not read. Each
  measurement kept to \<open>status.usage\<close> and its own bucket. A cached admin credential is not replaced
  before a restart.\<close>

theorem every_pass_lawful:
  assumes "cluster r" and "reached r ur th mc p"
  shows "list_all (lawful r ur) (pr_log p) \<and>
    (\<forall>ac a. s_admin (pr_st p) = Some ac \<longrightarrow> (\<forall>acc now. a \<noteq> Restart acc now) \<longrightarrow>
       s_admin (pr_st (perform r ur th mc a p)) = Some ac)"
  using log_lawful [OF assms] admin_kept by blast

theorem every_pass_lawful_witness:
  "list_all (lawful fakeReconciler usageReconciler)
     (pr_log (fold (perform fakeReconciler usageReconciler 3 0) [MeasureNext ''team'' ''data'', ReconcileNext ''team'' ''data'']
       (startProcess 3 0 zeroAccount 0 (emptyWorld\<lparr>fw_crs := [sampleBucket]\<rparr>) sampleBucket)))"
  using every_pass_lawful [OF fakeCluster.cluster_axioms reached_perform [OF reached.start]] by blast

end
