(* ===== verification/FakeHTTP.thy ===== *)
theory FakeHTTP
  imports FakeCloud Policy
begin

text \<open>
  The HTTP side of the in-memory provider, \<open>internal/stackitfake/fake.go\<close>: routing of the control
  plane (\<open>controlPlane\<close>, \<open>splitCPPath\<close> and one definition per handler, JSON in and out) and of the
  data plane (\<open>dataPlane\<close>, XML out), over the server state of \<open>FakeCloud\<close>; and the functions the
  tests arrange and inspect that state with. A request is its method, decoded path, query and body; the
  XML decoder of request bodies is a parameter.

  \<open>served_as_modelled\<close> shows that a client that decodes the answers of the control plane sees exactly
  the operations of \<open>FakeCloud\<close>.
\<close>

section \<open>Requests and responses\<close>

record httpRequest =
  rq_Method :: string
  rq_Path :: string
  rq_Query :: "string gomap"
  rq_Body :: string

record httpResponse =
  hr_Status :: int
  hr_ContentType :: string
  hr_Body :: string

definition writeJSON :: "int \<Rightarrow> json \<Rightarrow> httpResponse" where
  "writeJSON status v = \<lparr>hr_Status = status, hr_ContentType = ''application/json'', hr_Body = marshal v @ [CHR 0x0A]\<rparr>"

definition apiErrorResponse :: "int \<Rightarrow> string \<Rightarrow> httpResponse" where
  "apiErrorResponse status msg = writeJSON status (JObj [(''message'', JStr msg)])"

definition writeRaw :: "int \<times> string \<times> string \<Rightarrow> httpResponse" where
  "writeRaw f = (case f of (status, contentType, body) \<Rightarrow> \<lparr>hr_Status = status, hr_ContentType = contentType, hr_Body = body\<rparr>)"

definition methodNotAllowed :: "httpRequest \<Rightarrow> Server \<Rightarrow> httpResponse \<times> Server" where
  "methodNotAllowed rq s = (apiErrorResponse 405 (rq_Method rq), s)"

definition rawFor :: "string \<Rightarrow> Server \<Rightarrow> (int \<times> string \<times> string) option \<times> Server" where
  "rawFor op s =
     (case map_of (sv_failNextRaw s) op of
        Some f \<Rightarrow> (Some f, s\<lparr>sv_failNextRaw := AList.delete op (sv_failNextRaw s)\<rparr>) | None \<Rightarrow> (None, s))"

text \<open>Serve an operation unless a failure is armed for it (\<open>cpFail\<close>).\<close>

definition unlessFailing :: "string \<Rightarrow> (Server \<Rightarrow> httpResponse \<times> Server) \<Rightarrow> Server \<Rightarrow> httpResponse \<times> Server" where
  "unlessFailing op f s =
     (case rawFor op s of (Some raw, s') \<Rightarrow> (writeRaw raw, countCall op s')
      | (None, s') \<Rightarrow>
          (case failFor op s' of (Some st, s'') \<Rightarrow> (apiErrorResponse st (''injected '' @ op @ '' failure''), s'')
           | (None, s'') \<Rightarrow> f s''))"

section \<open>Control plane\<close>

definition bucketJSON :: "Server \<Rightarrow> string \<Rightarrow> json" where
  "bucketJSON s name = JObj [(''name'', JStr name), (''region'', JStr (sv_Region s)), (''urlPathStyle'', JStr (bucketURL s name)),
     (''urlVirtualHostedStyle'', JStr (bucketURL s name)), (''objectLockEnabled'', JBool False)]"

definition groupJSON :: "string \<Rightarrow> string \<Rightarrow> string \<Rightarrow> json" where
  "groupJSON gid displayName urn = JObj [(''credentialsGroupId'', JStr gid), (''displayName'', JStr displayName), (''urn'', JStr urn)]"

definition ok200 :: "Server \<Rightarrow> (string \<times> json) list \<Rightarrow> httpResponse" where
  "ok200 s kvs = writeJSON 200 (JObj ((''project'', JStr (sv_ProjectID s)) # kvs))"

definition serveService :: "httpRequest \<Rightarrow> Server \<Rightarrow> httpResponse \<times> Server" where
  "serveService rq s =
     (if rq_Method rq = ''GET'' then unlessFailing ''ServiceStatus'' (\<lambda>s.
        if \<not> sv_enabled s then (apiErrorResponse 404 ''object storage not enabled'', s)
        else (ok200 s [(''scope'', JStr ''PUBLIC'')], s)) s
      else if rq_Method rq = ''POST'' then unlessFailing ''EnableService'' (\<lambda>s.
        let s' = s\<lparr>sv_enabled := True\<rparr> in (ok200 s' [(''scope'', JStr ''PUBLIC'')], s')) s
      else methodNotAllowed rq s)"

definition serveListBuckets :: "httpRequest \<Rightarrow> Server \<Rightarrow> httpResponse \<times> Server" where
  "serveListBuckets rq s =
     (if rq_Method rq \<noteq> ''GET'' then methodNotAllowed rq s
      else unlessFailing ''ListBuckets'' (\<lambda>s.
        (ok200 s [(''buckets'', JArr (map (bucketJSON s) (sort (map fst (sv_buckets s)))))], s)) s)"

definition serveBucket :: "httpRequest \<Rightarrow> string \<Rightarrow> Server \<Rightarrow> httpResponse \<times> Server" where
  "serveBucket rq name s =
     (let b = map_of (sv_buckets s) name in
      if rq_Method rq = ''POST'' then unlessFailing ''CreateBucket'' (\<lambda>s.
        if b \<noteq> None then (apiErrorResponse 409 ''bucket already exists'', s)
        else (ok200 s [(''bucket'', JStr name)],
          s\<lparr>sv_buckets := mput name \<lparr>fb_Objects = [], fb_Tags = [], fb_Policy = []\<rparr> (sv_buckets s)\<rparr>)) s
      else if rq_Method rq = ''GET'' then unlessFailing ''GetBucket'' (\<lambda>s.
        if b = None then (apiErrorResponse 404 ''bucket not found'', s)
        else (ok200 s [(''bucket'', bucketJSON s name)], s)) s
      else if rq_Method rq = ''DELETE'' then unlessFailing ''DeleteBucket'' (\<lambda>s.
        case b of None \<Rightarrow> (apiErrorResponse 404 ''bucket not found'', s)
        | Some b \<Rightarrow>
            if fb_Objects b \<noteq> [] then (apiErrorResponse 409 ''bucket is not empty'', s)
            else (ok200 s [(''bucket'', JStr name)], s\<lparr>sv_buckets := AList.delete name (sv_buckets s)\<rparr>)) s
      else methodNotAllowed rq s)"

text \<open>\<open>json.Unmarshal\<close> into a struct with the field \<open>DisplayName\<close>: \<^const>\<open>None\<close> is an error.\<close>

definition displayNameOf :: "string \<Rightarrow> string option" where
  "displayNameOf body =
     (case unmarshal body of None \<Rightarrow> None
      | Some v \<Rightarrow> (case v of JObj kvs \<Rightarrow> decodeString [] (members ''displayName'' kvs) | JNull \<Rightarrow> Some [] | _ \<Rightarrow> None))"

definition serveCreateGroup :: "httpRequest \<Rightarrow> Server \<Rightarrow> httpResponse \<times> Server" where
  "serveCreateGroup rq s =
     (if rq_Method rq \<noteq> ''POST'' then methodNotAllowed rq s
      else unlessFailing ''CreateGroup'' (\<lambda>s.
        case displayNameOf (rq_Body rq) of None \<Rightarrow> (apiErrorResponse 400 ''missing displayName'', s)
        | Some dn \<Rightarrow>
            if dn = [] then (apiErrorResponse 400 ''missing displayName'', s)
            else (case nextID ''cg'' s of (gid, s') \<Rightarrow>
              let urn = ''urn:sgws:identity::'' @ sv_ProjectID s' @ '':group/'' @ gid in
              (ok200 s' [(''credentialsGroup'', groupJSON gid dn urn)],
               s'\<lparr>sv_groups := mput gid \<lparr>fg_URN = urn, fg_DisplayName = dn, fg_Keys = []\<rparr> (sv_groups s')\<rparr>))) s)"

definition serveDeleteGroup :: "httpRequest \<Rightarrow> string \<Rightarrow> Server \<Rightarrow> httpResponse \<times> Server" where
  "serveDeleteGroup rq gid s =
     (if rq_Method rq \<noteq> ''DELETE'' then methodNotAllowed rq s
      else unlessFailing ''DeleteGroup'' (\<lambda>s.
        case map_of (sv_groups s) gid of None \<Rightarrow> (apiErrorResponse 404 ''credentials group not found'', s)
        | Some g \<Rightarrow>
            if fg_Keys g \<noteq> [] then (apiErrorResponse 422 ''credentials group still has access keys'', s)
            else (ok200 s [(''credentialsGroupId'', JStr gid)], s\<lparr>sv_groups := AList.delete gid (sv_groups s)\<rparr>)) s)"

definition serveListGroups :: "httpRequest \<Rightarrow> Server \<Rightarrow> httpResponse \<times> Server" where
  "serveListGroups rq s =
     (if rq_Method rq \<noteq> ''GET'' then methodNotAllowed rq s
      else unlessFailing ''ListGroups'' (\<lambda>s.
        let ids = sort (filter (\<lambda>gid. gid \<notin> set (sv_omitNext s)) (map fst (sv_groups s)));
            list = map (\<lambda>gid. case map_of (sv_groups s) gid of Some g \<Rightarrow> groupJSON gid (fg_DisplayName g) (fg_URN g)
              | None \<Rightarrow> groupJSON gid [] []) ids
        in (ok200 s [(''credentialsGroups'', JArr list)], s\<lparr>sv_omitNext := []\<rparr>)) s)"

definition serveCreateKey :: "httpRequest \<Rightarrow> Server \<Rightarrow> httpResponse \<times> Server" where
  "serveCreateKey rq s =
     (if rq_Method rq \<noteq> ''POST'' then methodNotAllowed rq s
      else unlessFailing ''CreateKey'' (\<lambda>s. let gid = mget (rq_Query rq) ''credentials-group'' in
        case map_of (sv_groups s) gid of None \<Rightarrow> (apiErrorResponse 404 ''credentials group not found'', s)
        | Some g \<Rightarrow> (case nextID ''key'' s of (kid, s') \<Rightarrow>
            let ak = \<lparr>ak_AccessKeyID = ''AK'' @ kid, ak_SecretAccessKey = ''SK'' @ kid, ak_KeyID = kid\<rparr> in
            (ok200 s' [(''keyId'', JStr kid), (''accessKey'', JStr (''AK'' @ kid)), (''secretAccessKey'', JStr (''SK'' @ kid)),
               (''displayName'', JStr (''AK'' @ kid)), (''expires'', JStr [])],
             s'\<lparr>sv_groups := mput gid (g\<lparr>fg_Keys := fg_Keys g @ [ak]\<rparr>) (sv_groups s')\<rparr>))) s)"

definition serveDeleteKey :: "httpRequest \<Rightarrow> string \<Rightarrow> Server \<Rightarrow> httpResponse \<times> Server" where
  "serveDeleteKey rq kid s =
     (if rq_Method rq \<noteq> ''DELETE'' then methodNotAllowed rq s
      else unlessFailing ''DeleteKey'' (\<lambda>s. let gid = mget (rq_Query rq) ''credentials-group'' in
        case map_of (sv_groups s) gid of
          None \<Rightarrow> (apiErrorResponse 500 ''credentials-group query parameter required'', s)
        | Some g \<Rightarrow>
            (case removeKey kid (fg_Keys g) of
               Some ks \<Rightarrow> (ok200 s [(''keyId'', JStr kid)], s\<lparr>sv_groups := mput gid (g\<lparr>fg_Keys := ks\<rparr>) (sv_groups s)\<rparr>)
             | None \<Rightarrow> (apiErrorResponse 404 ''access key not found'', s))) s)"

definition serveListKeys :: "httpRequest \<Rightarrow> Server \<Rightarrow> httpResponse \<times> Server" where
  "serveListKeys rq s =
     (if rq_Method rq \<noteq> ''GET'' then methodNotAllowed rq s
      else unlessFailing ''ListKeys'' (\<lambda>s.
        case map_of (sv_groups s) (mget (rq_Query rq) ''credentials-group'') of
          None \<Rightarrow> (apiErrorResponse 404 ''credentials group not found'', s)
        | Some g \<Rightarrow> (ok200 s [(''accessKeys'', JArr (map (\<lambda>k. JObj [(''keyId'', JStr (ak_KeyID k)),
              (''displayName'', JStr (ak_AccessKeyID k)), (''expires'', JStr [])]) (fg_Keys g)))], s)) s)"

text \<open>\<open>strings.SplitN(s, "/", n)\<close>.\<close>

fun splitN :: "nat \<Rightarrow> char \<Rightarrow> string \<Rightarrow> string list" where
  "splitN 0 c s = []"
| "splitN (Suc 0) c s = [s]"
| "splitN (Suc n) c s = (if c \<in> set s then takeWhile (\<lambda>x. x \<noteq> c) s # splitN n c (tl (dropWhile (\<lambda>x. x \<noteq> c) s)) else [s])"

definition splitCPPath :: "Server \<Rightarrow> string \<Rightarrow> httpResponse + string" where
  "splitCPPath s path =
     (let trimmed = trimPrefix path ''/v2/project/''; parts = splitN 4 (CHR ''/'') trimmed in
      if trimmed = path \<or> length parts < 3 \<or> parts ! 1 \<noteq> ''regions'' then Inl (apiErrorResponse 404 (''unknown path '' @ path))
      else if parts ! 0 \<noteq> sv_ProjectID s then Inl (apiErrorResponse 403 (''no permission on project '' @ parts ! 0))
      else if parts ! 2 \<noteq> sv_Region s then Inl (apiErrorResponse 404 (''unknown region '' @ parts ! 2))
      else if length parts = 4 then Inr (parts ! 3) else Inr [])"

definition controlPlane :: "httpRequest \<Rightarrow> Server \<Rightarrow> httpResponse \<times> Server" where
  "controlPlane rq s =
     (case splitCPPath s (rq_Path rq) of Inl resp \<Rightarrow> (resp, s)
      | Inr rest \<Rightarrow>
          if rest = [] then serveService rq s
          else if rest = ''buckets'' then serveListBuckets rq s
          else if hasPrefix rest ''bucket/'' then serveBucket rq (trimPrefix rest ''bucket/'') s
          else if rest = ''credentials-group'' then serveCreateGroup rq s
          else if hasPrefix rest ''credentials-group/'' then serveDeleteGroup rq (trimPrefix rest ''credentials-group/'') s
          else if rest = ''credentials-groups'' then serveListGroups rq s
          else if rest = ''access-key'' then serveCreateKey rq s
          else if hasPrefix rest ''access-key/'' then serveDeleteKey rq (trimPrefix rest ''access-key/'') s
          else if rest = ''access-keys'' then serveListKeys rq s
          else (apiErrorResponse 404 (''unknown path '' @ rq_Path rq), s))"
section \<open>The client's view\<close>

text \<open>The operations a client asks for and what it decodes of an answer: status 200 with the named
  fields, anything else as an error with status and body.\<close>

datatype cpOp =
    GetStatus
  | EnableS
  | CreateB string
  | GetB string
  | DeleteB string
  | ListB string
  | CreateG string
  | DeleteG string
  | ListG
  | CreateK string
  | DeleteK string string
  | ListK string

datatype cpAnswer =
    Done
  | BucketAt string
  | Buckets "string list"
  | GroupMade string string
  | Groups "CredentialsGroupInfo list"
  | KeyMade AccessKey
  | KeyIDs "string list"

definition basePath :: "string \<Rightarrow> string \<Rightarrow> string" where
  "basePath pid region = ''/v2/project/'' @ pid @ ''/regions/'' @ region"

fun requestFor :: "string \<Rightarrow> string \<Rightarrow> cpOp \<Rightarrow> httpRequest" where
  "requestFor pid rg GetStatus = \<lparr>rq_Method = ''GET'', rq_Path = basePath pid rg, rq_Query = [], rq_Body = []\<rparr>"
| "requestFor pid rg EnableS = \<lparr>rq_Method = ''POST'', rq_Path = basePath pid rg, rq_Query = [], rq_Body = []\<rparr>"
| "requestFor pid rg (CreateB n) = \<lparr>rq_Method = ''POST'', rq_Path = basePath pid rg @ ''/bucket/'' @ n, rq_Query = [], rq_Body = []\<rparr>"
| "requestFor pid rg (GetB n) = \<lparr>rq_Method = ''GET'', rq_Path = basePath pid rg @ ''/bucket/'' @ n, rq_Query = [], rq_Body = []\<rparr>"
| "requestFor pid rg (DeleteB n) = \<lparr>rq_Method = ''DELETE'', rq_Path = basePath pid rg @ ''/bucket/'' @ n, rq_Query = [], rq_Body = []\<rparr>"
| "requestFor pid rg (ListB p) = \<lparr>rq_Method = ''GET'', rq_Path = basePath p rg @ ''/buckets'', rq_Query = [], rq_Body = []\<rparr>"
| "requestFor pid rg (CreateG dn) = \<lparr>rq_Method = ''POST'', rq_Path = basePath pid rg @ ''/credentials-group'', rq_Query = [],
     rq_Body = marshal (JObj [(''displayName'', JStr dn)])\<rparr>"
| "requestFor pid rg (DeleteG g) = \<lparr>rq_Method = ''DELETE'', rq_Path = basePath pid rg @ ''/credentials-group/'' @ g, rq_Query = [], rq_Body = []\<rparr>"
| "requestFor pid rg ListG = \<lparr>rq_Method = ''GET'', rq_Path = basePath pid rg @ ''/credentials-groups'', rq_Query = [], rq_Body = []\<rparr>"
| "requestFor pid rg (CreateK g) = \<lparr>rq_Method = ''POST'', rq_Path = basePath pid rg @ ''/access-key'',
     rq_Query = [(''credentials-group'', g)], rq_Body = []\<rparr>"
| "requestFor pid rg (DeleteK g k) = \<lparr>rq_Method = ''DELETE'', rq_Path = basePath pid rg @ ''/access-key/'' @ k,
     rq_Query = [(''credentials-group'', g)], rq_Body = []\<rparr>"
| "requestFor pid rg (ListK g) = \<lparr>rq_Method = ''GET'', rq_Path = basePath pid rg @ ''/access-keys'',
     rq_Query = [(''credentials-group'', g)], rq_Body = []\<rparr>"

definition textField :: "string \<Rightarrow> json \<Rightarrow> string" where
  "textField k v = (case member v k of Some (JStr x) \<Rightarrow> x | _ \<Rightarrow> [])"

definition objField :: "string \<Rightarrow> json \<Rightarrow> json" where
  "objField k v = (case member v k of Some x \<Rightarrow> x | None \<Rightarrow> JNull)"

definition listField :: "string \<Rightarrow> json \<Rightarrow> json list" where
  "listField k v = (case member v k of Some (JArr xs) \<Rightarrow> xs | _ \<Rightarrow> [])"

fun decoded :: "cpOp \<Rightarrow> json \<Rightarrow> cpAnswer" where
  "decoded (GetB n) v = BucketAt (textField ''urlPathStyle'' (objField ''bucket'' v))"
| "decoded (ListB p) v = Buckets (map (textField ''name'') (listField ''buckets'' v))"
| "decoded (CreateG dn) v = (let g = objField ''credentialsGroup'' v in GroupMade (textField ''credentialsGroupId'' g) (textField ''urn'' g))"
| "decoded ListG v = Groups (map (\<lambda>g. \<lparr>g_ID = textField ''credentialsGroupId'' g, g_URN = textField ''urn'' g,
     g_DisplayName = textField ''displayName'' g\<rparr>) (listField ''credentialsGroups'' v))"
| "decoded (CreateK g) v = KeyMade \<lparr>ak_AccessKeyID = textField ''accessKey'' v, ak_SecretAccessKey = textField ''secretAccessKey'' v,
     ak_KeyID = textField ''keyId'' v\<rparr>"
| "decoded (ListK g) v = KeyIDs (map (textField ''keyId'') (listField ''accessKeys'' v))"
| "decoded oper v = Done"

text \<open>Of an error, only status and body are compared.\<close>

definition seenBy :: "cpOp \<Rightarrow> httpResponse \<Rightarrow> (int \<times> string) + cpAnswer" where
  "seenBy oper resp =
     (if hr_Status resp = 200
      then (case unmarshal (hr_Body resp) of Some v \<Rightarrow> Inr (decoded oper v) | None \<Rightarrow> Inl (200, hr_Body resp))
      else Inl (hr_Status resp, hr_Body resp))"

definition told :: "('a \<Rightarrow> cpAnswer) \<Rightarrow> (go_error + 'a) \<times> Server \<Rightarrow> ((int \<times> string) + cpAnswer) \<times> Server" where
  "told f res = (case res of (Inl e, s) \<Rightarrow> (Inl (the (as_api e)), s) | (Inr a, s) \<Rightarrow> (Inr (f a), s))"

text \<open>The operations of \<open>FakeCloud\<close>.\<close>

fun operation :: "cpOp \<Rightarrow> Server \<Rightarrow> ((int \<times> string) + cpAnswer) \<times> Server" where
  "operation GetStatus s = told (\<lambda>_. Done) (serviceStatus s)"
| "operation EnableS s = told (\<lambda>_. Done) (enableService s)"
| "operation (CreateB n) s = told (\<lambda>_. Done) (createBucket n s)"
| "operation (GetB n) s = told BucketAt (getBucket n s)"
| "operation (DeleteB n) s = told (\<lambda>_. Done) (deleteBucket n s)"
| "operation (ListB p) s = told Buckets (handleListBuckets p s)"
| "operation (CreateG dn) s = told (\<lambda>(g, u). GroupMade g u) (handleCreateGroup dn s)"
| "operation (DeleteG g) s = told (\<lambda>_. Done) (handleDeleteGroup g s)"
| "operation ListG s = told Groups (handleListGroups s)"
| "operation (CreateK g) s = told KeyMade (handleCreateKey g s)"
| "operation (DeleteK g k) s = told (\<lambda>_. Done) (handleDeleteKey g k s)"
| "operation (ListK g) s = told KeyIDs (handleListKeys g s)"

section \<open>Routing\<close>

lemma splitN_3: "CHR ''/'' \<notin> set a \<Longrightarrow> CHR ''/'' \<notin> set b \<Longrightarrow> CHR ''/'' \<notin> set c \<Longrightarrow>
    splitN 4 (CHR ''/'') (a @ CHR ''/'' # b @ CHR ''/'' # c) = [a, b, c]"
  and splitN_4: "CHR ''/'' \<notin> set a \<Longrightarrow> CHR ''/'' \<notin> set b \<Longrightarrow> CHR ''/'' \<notin> set c \<Longrightarrow>
    splitN 4 (CHR ''/'') (a @ CHR ''/'' # b @ CHR ''/'' # c @ CHR ''/'' # d) = [a, b, c, d]"
proof -
  have tw: "takeWhile (\<lambda>x. x \<noteq> CHR ''/'') (a @ CHR ''/'' # r) = a \<and> tl (dropWhile (\<lambda>x. x \<noteq> CHR ''/'') (a @ CHR ''/'' # r)) = r"
    if "CHR ''/'' \<notin> set a" for a r
    using that by (induction a) auto
  show "splitN 4 (CHR ''/'') (a @ CHR ''/'' # b @ CHR ''/'' # c) = [a, b, c]"
    if "CHR ''/'' \<notin> set a" "CHR ''/'' \<notin> set b" "CHR ''/'' \<notin> set c"
    using that by (simp add: eval_nat_numeral tw)
  show "splitN 4 (CHR ''/'') (a @ CHR ''/'' # b @ CHR ''/'' # c @ CHR ''/'' # d) = [a, b, c, d]"
    if "CHR ''/'' \<notin> set a" "CHR ''/'' \<notin> set b" "CHR ''/'' \<notin> set c"
    using that by (simp add: eval_nat_numeral tw)
qed

lemma splitCPPath_parts:
  assumes "splitN 4 (CHR ''/'') (trimPrefix p ''/v2/project/'') = [pid, ''regions'', rg] @ tail"
    and "trimPrefix p ''/v2/project/'' \<noteq> p" and "tail = [] \<or> tail = [rest]"
  shows "splitCPPath s p = (if pid \<noteq> sv_ProjectID s then Inl (apiErrorResponse 403 (''no permission on project '' @ pid))
      else if rg \<noteq> sv_Region s then Inl (apiErrorResponse 404 (''unknown region '' @ rg)) else Inr (concat tail))"
  using assms(2,3) unfolding splitCPPath_def Let_def assms(1) by (elim disjE) (simp_all add: numeral_2_eq_2)

lemma splitCPPath_base:
  assumes "CHR ''/'' \<notin> set pid" and "CHR ''/'' \<notin> set rg"
  shows "splitCPPath s (basePath pid rg) = (if pid \<noteq> sv_ProjectID s then Inl (apiErrorResponse 403 (''no permission on project '' @ pid))
      else if rg \<noteq> sv_Region s then Inl (apiErrorResponse 404 (''unknown region '' @ rg)) else Inr [])"
    and "splitCPPath s (basePath pid rg @ CHR ''/'' # rest) = (if pid \<noteq> sv_ProjectID s then Inl (apiErrorResponse 403 (''no permission on project '' @ pid))
      else if rg \<noteq> sv_Region s then Inl (apiErrorResponse 404 (''unknown region '' @ rg)) else Inr rest)"
proof -
  have t: "trimPrefix (basePath pid rg @ x) ''/v2/project/'' = pid @ CHR ''/'' # ''regions'' @ CHR ''/'' # rg @ x" for x
    unfolding basePath_def append_assoc trimPrefix_append by simp
  have n: "trimPrefix (basePath pid rg @ x) ''/v2/project/'' \<noteq> basePath pid rg @ x" for x
    unfolding t by (rule notI, drule arg_cong [where f = length]) (simp add: basePath_def)
  have r: "CHR ''/'' \<notin> set ''regions''" by simp
  from splitCPPath_parts [of "basePath pid rg" pid rg "[]"] splitN_3 [OF assms(1) r assms(2)] t [of "[]"] n [of "[]"]
  show "splitCPPath s (basePath pid rg) = (if pid \<noteq> sv_ProjectID s then Inl (apiErrorResponse 403 (''no permission on project '' @ pid))
      else if rg \<noteq> sv_Region s then Inl (apiErrorResponse 404 (''unknown region '' @ rg)) else Inr [])"
    by simp
  from splitCPPath_parts [of "basePath pid rg @ CHR ''/'' # rest" pid rg "[rest]" rest] splitN_4 [OF assms(1) r assms(2), of rest]
    t [of "CHR ''/'' # rest"] n [of "CHR ''/'' # rest"]
  show "splitCPPath s (basePath pid rg @ CHR ''/'' # rest) = (if pid \<noteq> sv_ProjectID s then Inl (apiErrorResponse 403 (''no permission on project '' @ pid))
      else if rg \<noteq> sv_Region s then Inl (apiErrorResponse 404 (''unknown region '' @ rg)) else Inr rest)"
    by simp
qed

section \<open>Serving\<close>

lemma seen_fault: "hr_Status r \<noteq> 200 \<Longrightarrow> seenBy oper r = Inl (hr_Status r, hr_Body r)"
  by (simp add: seenBy_def)

lemma seen_apiError: "st \<noteq> 200 \<Longrightarrow> seenBy oper (apiErrorResponse st msg) = Inl (the (as_api (apiError st msg)))"
  by (simp add: seen_fault apiErrorResponse_def writeJSON_def apiError_def as_api_def)

text \<open>Armed failures other than success are seen as the operation reports them.\<close>

definition armedFaults :: "Server \<Rightarrow> bool" where
  "armedFaults s \<longleftrightarrow> (\<forall>op st. map_of (sv_failNext s) op = Some st \<longrightarrow> st \<noteq> 200) \<and>
     (\<forall>op st ct body. map_of (sv_failNextRaw s) op = Some (st, ct, body) \<longrightarrow> st \<noteq> 200)"

definition agrees :: "cpOp \<Rightarrow> httpResponse \<times> Server \<Rightarrow> ((int \<times> string) + cpAnswer) \<times> Server \<Rightarrow> bool" where
  "agrees oper res want \<longleftrightarrow> (seenBy oper (fst res), snd res) = want"

lemma serve_agrees:
  assumes "armedFaults s" and "agrees oper (f (countCall name s)) (told d (g (countCall name s)))"
  shows "agrees oper (unlessFailing name f s) (told d (serve name g s))"
proof (cases "map_of (sv_failNextRaw s) name")
  case (Some raw)
  obtain st ct body where raw: "raw = (st, ct, body)" by (cases raw) auto
  with Some assms(1) have "st \<noteq> 200" unfolding armedFaults_def by blast
  with Some raw show ?thesis
    by (simp add: agrees_def unlessFailing_def rawFor_def serve_def cpFail_def told_def writeRaw_def seen_fault as_api_def countCall_def)
next
  case raw: None
  show ?thesis
  proof (cases "map_of (sv_failNext s) name")
    case (Some st)
    with assms(1) have "st \<noteq> 200" by (auto simp: armedFaults_def)
    with raw Some show ?thesis
      by (simp add: agrees_def unlessFailing_def rawFor_def serve_def cpFail_def told_def failFor_def seen_apiError)
  next
    case None
    with raw assms(2) show ?thesis
      by (simp add: agrees_def unlessFailing_def rawFor_def serve_def cpFail_def failFor_def)
  qed
qed
lemma fields_canon [simp]:
  "textField k (canon v) = textField k v" "objField k (canon v) = canon (objField k v)"
  "listField k (canon v) = map canon (listField k v)"
proof -
  show "textField k (canon v) = textField k v"
    by (auto simp: textField_def member_canon split: option.splits json.splits)
  show "objField k (canon v) = canon (objField k v)"
    by (simp add: objField_def member_canon split: option.splits)
  have "(case canon x of JArr xs \<Rightarrow> xs | _ \<Rightarrow> []) = map canon (case x of JArr xs \<Rightarrow> xs | _ \<Rightarrow> [])" for x
    by (cases x) simp_all
  then show "listField k (canon v) = map canon (listField k v)"
    by (auto simp: listField_def member_canon split: option.splits)
qed

lemma decoded_canon [simp]: "decoded oper (canon v) = decoded oper v"
  by (cases oper) (simp_all add: comp_def Let_def)

lemma seen_ok: "list_all (noNum \<circ> snd) kvs \<Longrightarrow>
    seenBy oper (ok200 s kvs) = Inr (decoded oper (JObj ((''project'', JStr (sv_ProjectID s)) # kvs)))"
  unfolding seenBy_def ok200_def writeJSON_def
  by (simp add: unmarshal_encoded list_all_iff comp_def del: canon.simps)

lemma field_simps_obj:
  "textField k (JObj kvs) = (case map_of (rev kvs) k of Some (JStr x) \<Rightarrow> x | _ \<Rightarrow> [])"
  "objField k (JObj kvs) = (case map_of (rev kvs) k of Some x \<Rightarrow> x | None \<Rightarrow> JNull)"
  "listField k (JObj kvs) = (case map_of (rev kvs) k of Some (JArr xs) \<Rightarrow> xs | _ \<Rightarrow> [])"
  by (simp_all add: textField_def objField_def listField_def member_def)

lemmas agrees_simps = agrees_def told_def seen_apiError seen_ok field_simps_obj bucketJSON_def groupJSON_def list_all_iff comp_def Let_def bucketURL_def

lemma displayNameOf_request: "displayNameOf (marshal (JObj [(''displayName'', JStr dn)])) = Some dn"
  by (simp add: displayNameOf_def unmarshal_marshal asMap_def mput_def members_def)

lemma countCall_simps [simp]: "sv_buckets (countCall op s) = sv_buckets s" "sv_groups (countCall op s) = sv_groups s"
  by (simp_all add: countCall_def)

lemma service_agrees:
  assumes "armedFaults s"
  shows "rq_Method rq = ''GET'' \<Longrightarrow> agrees GetStatus (serveService rq s) (operation GetStatus s)"
    and "rq_Method rq = ''POST'' \<Longrightarrow> agrees EnableS (serveService rq s) (operation EnableS s)"
  unfolding serveService_def operation.simps serviceStatus_def enableService_def
  by (simp, rule serve_agrees [OF assms], simp add: agrees_simps)+

lemma buckets_agree:
  assumes "armedFaults s"
  shows "rq_Method rq = ''POST'' \<Longrightarrow> agrees (CreateB n) (serveBucket rq n s) (operation (CreateB n) s)"
    and "rq_Method rq = ''GET'' \<Longrightarrow> agrees (GetB n) (serveBucket rq n s) (operation (GetB n) s)"
    and "rq_Method rq = ''DELETE'' \<Longrightarrow> agrees (DeleteB n) (serveBucket rq n s) (operation (DeleteB n) s)"
    and "rq_Method rq = ''GET'' \<Longrightarrow> agrees (ListB (sv_ProjectID s)) (serveListBuckets rq s) (operation (ListB (sv_ProjectID s)) s)"
  unfolding serveBucket_def serveListBuckets_def operation.simps createBucket_def getBucket_def deleteBucket_def handleListBuckets_def Let_def
  by (simp, rule serve_agrees [OF assms], simp add: agrees_simps split: option.splits)+

lemma groups_agree:
  assumes "armedFaults s"
  shows "rq_Method rq = ''POST'' \<Longrightarrow> rq_Body rq = marshal (JObj [(''displayName'', JStr dn)]) \<Longrightarrow>
      agrees (CreateG dn) (serveCreateGroup rq s) (operation (CreateG dn) s)"
    and "rq_Method rq = ''DELETE'' \<Longrightarrow> agrees (DeleteG g) (serveDeleteGroup rq g s) (operation (DeleteG g) s)"
    and "rq_Method rq = ''GET'' \<Longrightarrow> agrees ListG (serveListGroups rq s) (operation ListG s)"
  unfolding serveCreateGroup_def serveDeleteGroup_def serveListGroups_def operation.simps handleCreateGroup_def handleDeleteGroup_def
    handleListGroups_def nextID_def
  by (simp add: displayNameOf_request, rule serve_agrees [OF assms], simp add: agrees_simps split: option.splits)+

lemma keys_agree:
  assumes "armedFaults s" and "mget (rq_Query rq) ''credentials-group'' = g"
  shows "rq_Method rq = ''POST'' \<Longrightarrow> agrees (CreateK g) (serveCreateKey rq s) (operation (CreateK g) s)"
    and "rq_Method rq = ''DELETE'' \<Longrightarrow> agrees (DeleteK g k) (serveDeleteKey rq k s) (operation (DeleteK g k) s)"
    and "rq_Method rq = ''GET'' \<Longrightarrow> agrees (ListK g) (serveListKeys rq s) (operation (ListK g) s)"
  unfolding serveCreateKey_def serveDeleteKey_def serveListKeys_def operation.simps handleCreateKey_def handleDeleteKey_def
    handleListKeys_def nextID_def Let_def
  by (simp add: assms(2), rule serve_agrees [OF assms(1)], simp add: agrees_simps assms(2) split: option.splits)+
section \<open>Data plane\<close>

definition dq :: "string \<Rightarrow> string" where
  "dq x = CHR 0x22 # x @ [CHR 0x22]"

definition el :: "string \<Rightarrow> string \<Rightarrow> string" where
  "el tag content = ''<'' @ tag @ ''>'' @ content @ ''</'' @ tag @ ''>''"

definition xmlDocument :: "string \<Rightarrow> string" where
  "xmlDocument body = ''<?xml version='' @ dq ''1.0'' @ '' encoding='' @ dq ''UTF-8'' @ ''?>'' @ body"

definition s3FixedTime :: string where "s3FixedTime = ''2024-01-01T00:00:00.000Z''"

definition s3ErrorResponse :: "int \<Rightarrow> string \<Rightarrow> string \<Rightarrow> httpResponse" where
  "s3ErrorResponse status code msg = \<lparr>hr_Status = status, hr_ContentType = ''application/xml'',
     hr_Body = xmlDocument (el ''Error'' (el ''Code'' code @ el ''Message'' msg))\<rparr>"

definition writeXML :: "string \<Rightarrow> httpResponse" where
  "writeXML body = \<lparr>hr_Status = 200, hr_ContentType = ''application/xml'', hr_Body = xmlDocument body\<rparr>"

definition emptyResponse :: "int \<Rightarrow> httpResponse" where
  "emptyResponse status = \<lparr>hr_Status = status, hr_ContentType = [], hr_Body = []\<rparr>"

definition s3MethodNotAllowed :: "httpRequest \<Rightarrow> Server \<Rightarrow> httpResponse \<times> Server" where
  "s3MethodNotAllowed rq s = (s3ErrorResponse 405 ''MethodNotAllowed'' (rq_Method rq), s)"

definition unlessArmed :: "string \<Rightarrow> (Server \<Rightarrow> httpResponse \<times> Server) \<Rightarrow> Server \<Rightarrow> httpResponse \<times> Server" where
  "unlessArmed op f s =
     (case failFor op s of (Some st, s') \<Rightarrow> (s3ErrorResponse st ''AccessDenied'' (''injected '' @ op @ '' failure''), s')
      | (None, s') \<Rightarrow> f s')"

definition setBucket :: "string \<Rightarrow> fakeBucket \<Rightarrow> Server \<Rightarrow> Server" where
  "setBucket name b s = s\<lparr>sv_buckets := mput name b (sv_buckets s)\<rparr>"

definition handlePolicy :: "httpRequest \<Rightarrow> string \<Rightarrow> fakeBucket \<Rightarrow> Server \<Rightarrow> httpResponse \<times> Server" where
  "handlePolicy rq name b s =
     (if rq_Method rq = ''GET'' then unlessArmed ''S3GetPolicy'' (\<lambda>s.
        if fb_Policy b = [] then (s3ErrorResponse 404 ''NoSuchBucketPolicy'' (''no policy on '' @ name), s)
        else (\<lparr>hr_Status = 200, hr_ContentType = ''application/json'', hr_Body = fb_Policy b\<rparr>, s)) s
      else if rq_Method rq = ''PUT'' then unlessArmed ''S3PutPolicy'' (\<lambda>s.
        (emptyResponse 204, setBucket name (b\<lparr>fb_Policy := rq_Body rq\<rparr>) s)) s
      else s3MethodNotAllowed rq s)"

definition tagXML :: "string \<times> string \<Rightarrow> string" where
  "tagXML kv = el ''Tag'' (el ''Key'' (fst kv) @ el ''Value'' (snd kv))"

text \<open>\<open>xmlTags\<close> decodes a tagging document.\<close>

definition handleTagging :: "(string \<Rightarrow> go_error + (string \<times> string) list) \<Rightarrow> httpRequest \<Rightarrow> string \<Rightarrow> fakeBucket \<Rightarrow> Server
    \<Rightarrow> httpResponse \<times> Server" where
  "handleTagging xmlTags rq name b s =
     (if rq_Method rq = ''GET'' then unlessArmed ''S3GetTagging'' (\<lambda>s.
        if fb_Tags b = [] then (s3ErrorResponse 404 ''NoSuchTagSet'' (''no tags on '' @ name), s)
        else (writeXML (el ''Tagging'' (el ''TagSet'' (concat (map tagXML (sort_key fst (fb_Tags b)))))), s)) s
      else if rq_Method rq = ''PUT'' then unlessArmed ''S3PutTagging'' (\<lambda>s.
        case xmlTags (rq_Body rq) of
          Inl err \<Rightarrow> (s3ErrorResponse 400 ''MalformedXML'' (errText err), s)
        | Inr kvs \<Rightarrow> (emptyResponse 200, setBucket name (b\<lparr>fb_Tags := fold (\<lambda>kv. mput (fst kv) (snd kv)) kvs []\<rparr>) s)) s
      else s3MethodNotAllowed rq s)"

definition boolText :: "bool \<Rightarrow> string" where
  "boolText b = (if b then ''true'' else ''false'')"

definition versionXML :: "ObjectInfo \<Rightarrow> string" where
  "versionXML obj =
     (let common = el ''Key'' (o_Key obj) @ el ''VersionId'' (o_VersionID obj) @ el ''IsLatest'' (boolText (o_IsLatest obj)) @
            el ''LastModified'' s3FixedTime in
      if o_IsDeleteMarker obj then el ''DeleteMarker'' common
      else el ''Version'' (common @ el ''ETag'' (dq ''0'') @ el ''Size'' (showInt (o_Size obj))))"

definition versionsXML :: "string \<Rightarrow> ObjectInfo list \<Rightarrow> httpResponse" where
  "versionsXML name objs = writeXML (el ''ListVersionsResult''
     (el ''Name'' name @ el ''IsTruncated'' ''false'' @ concat (map versionXML objs)))"

definition serveListVersions :: "httpRequest \<Rightarrow> string \<Rightarrow> fakeBucket \<Rightarrow> Server \<Rightarrow> httpResponse \<times> Server" where
  "serveListVersions rq name b s =
     (if rq_Method rq \<noteq> ''GET'' then s3MethodNotAllowed rq s
      else unlessArmed ''S3ListObjects'' (\<lambda>s. (versionsXML name (fb_Objects b), s)) s)"

definition contentXML :: "ObjectInfo \<Rightarrow> string" where
  "contentXML obj = el ''Contents'' (el ''Key'' (o_Key obj) @ el ''LastModified'' s3FixedTime @ el ''ETag'' (dq ''0'') @
     el ''Size'' (showInt (o_Size obj)))"

definition contentsXML :: "string \<Rightarrow> ObjectInfo list \<Rightarrow> httpResponse" where
  "contentsXML name objs = writeXML (el ''ListBucketResult''
     (el ''Name'' name @ el ''IsTruncated'' ''false'' @ concat (map contentXML objs)))"

text \<open>The loop over the objects, which stops counting at \<open>maxKeys\<close>.\<close>

fun currentUpTo :: "int \<Rightarrow> int \<Rightarrow> ObjectInfo list \<Rightarrow> ObjectInfo list" where
  "currentUpTo maxKeys count [] = []"
| "currentUpTo maxKeys count (obj # objs) =
     (if o_IsDeleteMarker obj \<or> \<not> o_IsLatest obj \<or> count = maxKeys then currentUpTo maxKeys count objs
      else obj # currentUpTo maxKeys (count + 1) objs)"

definition maxKeysOf :: "httpRequest \<Rightarrow> fakeBucket \<Rightarrow> int" where
  "maxKeysOf rq b =
     (let len = int (length (fb_Objects b)); mk = mget (rq_Query rq) ''max-keys'' in
      if mk = [] then len else (case ParseInt mk of Some n \<Rightarrow> if n < len then n else len | None \<Rightarrow> len))"

definition serveListObjectsV2 :: "httpRequest \<Rightarrow> string \<Rightarrow> fakeBucket \<Rightarrow> Server \<Rightarrow> httpResponse \<times> Server" where
  "serveListObjectsV2 rq name b s =
     (if rq_Method rq \<noteq> ''GET'' then s3MethodNotAllowed rq s
      else unlessArmed ''S3ListObjects'' (\<lambda>s. (contentsXML name (currentUpTo (maxKeysOf rq b) 0 (fb_Objects b)), s)) s)"

definition deletedXML :: "ObjectInfo \<Rightarrow> string" where
  "deletedXML target = el ''Deleted'' (el ''Key'' (o_Key target) @ el ''VersionId'' (o_VersionID target))"

text \<open>\<open>xmlTargets\<close> decodes a multi-object delete; of a target only key and version are read.\<close>

definition serveMultiDelete :: "(string \<Rightarrow> go_error + ObjectInfo list) \<Rightarrow> httpRequest \<Rightarrow> string \<Rightarrow> fakeBucket \<Rightarrow> Server
    \<Rightarrow> httpResponse \<times> Server" where
  "serveMultiDelete xmlTargets rq name b s =
     (if rq_Method rq \<noteq> ''POST'' then s3MethodNotAllowed rq s
      else unlessArmed ''S3Delete'' (\<lambda>s.
        case xmlTargets (rq_Body rq) of
          Inl err \<Rightarrow> (s3ErrorResponse 400 ''MalformedXML'' (errText err), s)
        | Inr targets \<Rightarrow> (writeXML (el ''DeleteResult'' (concat (map deletedXML targets))),
            setBucket name (b\<lparr>fb_Objects := fold removeVersion targets (fb_Objects b)\<rparr>) s)) s)"

definition bucketOfPath :: "string \<Rightarrow> string" where
  "bucketOfPath path = takeWhile (\<lambda>c. c \<noteq> CHR ''/'') (trimPrefix path ''/'')"

definition dataPlaneHTTP :: "(string \<Rightarrow> go_error + (string \<times> string) list) \<Rightarrow> (string \<Rightarrow> go_error + ObjectInfo list) \<Rightarrow> (httpRequest \<Rightarrow> string)
    \<Rightarrow> httpRequest \<Rightarrow> Server \<Rightarrow> httpResponse \<times> Server" where
  "dataPlaneHTTP xmlTags xmlTargets urlText rq s =
     (let name = bucketOfPath (rq_Path rq); has = (\<lambda>k. map_of (rq_Query rq) k \<noteq> None) in
      case map_of (sv_buckets s) name of
        None \<Rightarrow> (s3ErrorResponse 404 ''NoSuchBucket'' (''bucket '' @ name @ '' does not exist''), s)
      | Some b \<Rightarrow>
          if has ''location'' then (writeXML (el ''LocationConstraint'' (sv_Region s)), s)
          else if has ''policy'' then handlePolicy rq name b s
          else if has ''tagging'' then handleTagging xmlTags rq name b s
          else if has ''versions'' then serveListVersions rq name b s
          else if has ''delete'' then serveMultiDelete xmlTargets rq name b s
          else if has ''list-type'' then serveListObjectsV2 rq name b s
          else (s3ErrorResponse 501 ''NotImplemented'' (rq_Method rq @ '' '' @ urlText rq), s))"

text \<open>The response a result of \<open>FakeCloud\<close> is rendered to.\<close>

definition rendered :: "('a \<Rightarrow> httpResponse) \<Rightarrow> (go_error + 'a) \<times> Server \<Rightarrow> httpResponse \<times> Server" where
  "rendered f res = (case res of (Inl (S3Error code st msg), s) \<Rightarrow> (s3ErrorResponse st code msg, s)
     | (Inl e, s) \<Rightarrow> (s3ErrorResponse 500 [] (errText e), s) | (Inr a, s) \<Rightarrow> (f a, s))"

lemma dataPlane_rendered:
  assumes "\<And>b. map_of (sv_buckets s) name = Some b \<Longrightarrow> h b s = unlessArmed op (g b) s"
    and "\<And>b. map_of (sv_buckets s) name = Some b \<Longrightarrow> g b (countCall op s) = rendered f (k b (countCall op s))"
  shows "(case map_of (sv_buckets s) name of
        None \<Rightarrow> (s3ErrorResponse 404 ''NoSuchBucket'' (''bucket '' @ name @ '' does not exist''), s)
      | Some b \<Rightarrow> h b s) = rendered f (dataPlane op name k s)"
  using assms by (auto simp: dataPlane_def unlessArmed_def failFor_def rendered_def s3Error_def split: option.splits)

text \<open>A listing without \<open>max-keys\<close> yields all current objects; with it, the first so many (a negative
  number counts as none given).\<close>

lemma currentUpTo_take:
  "count \<le> maxKeys \<Longrightarrow>
    currentUpTo maxKeys count objs = take (nat (maxKeys - count)) (filter (\<lambda>obj. \<not> o_IsDeleteMarker obj \<and> o_IsLatest obj) objs)"
proof (induction objs arbitrary: count)
  case (Cons obj objs)
  have "nat (maxKeys - count) = Suc (nat (maxKeys - (count + 1)))" if "count \<noteq> maxKeys" using Cons.prems that by simp
  with Cons show ?case by auto
qed simp

lemma listing_complete: "mget (rq_Query rq) ''max-keys'' = [] \<Longrightarrow>
    currentUpTo (maxKeysOf rq b) 0 (fb_Objects b) = filter (\<lambda>obj. \<not> o_IsDeleteMarker obj \<and> o_IsLatest obj) (fb_Objects b)"
  using length_filter_le [of "\<lambda>obj. \<not> o_IsDeleteMarker obj \<and> o_IsLatest obj" "fb_Objects b"]
  by (simp add: maxKeysOf_def currentUpTo_take Let_def)

text \<open>The data plane serves the operations of \<open>FakeCloud\<close>.\<close>

lemma data_plane_served:
  fixes name :: string
  assumes "bucketOfPath (rq_Path rq) = name"
  shows "rq_Query rq = [(''policy'', [])] \<Longrightarrow> rq_Method rq = ''GET'' \<Longrightarrow>
      dataPlaneHTTP xt xd u rq s = rendered (\<lambda>p. \<lparr>hr_Status = 200, hr_ContentType = ''application/json'', hr_Body = p\<rparr>) (getPolicy name s)"
    and "rq_Query rq = [(''policy'', [])] \<Longrightarrow> rq_Method rq = ''PUT'' \<Longrightarrow>
      dataPlaneHTTP xt xd u rq s = rendered (\<lambda>_. emptyResponse 204) (putPolicy name (rq_Body rq) s)"
    and "rq_Query rq = [(''tagging'', [])] \<Longrightarrow> rq_Method rq = ''GET'' \<Longrightarrow>
      dataPlaneHTTP xt xd u rq s = rendered (\<lambda>kvs. writeXML (el ''Tagging'' (el ''TagSet'' (concat (map tagXML kvs))))) (getTagging name s)"
    and "rq_Query rq = [(''tagging'', [])] \<Longrightarrow> rq_Method rq = ''PUT'' \<Longrightarrow> xt (rq_Body rq) = Inr kvs \<Longrightarrow>
      dataPlaneHTTP xt xd u rq s = rendered (\<lambda>_. emptyResponse 200) (putTagging name (fold (\<lambda>kv. mput (fst kv) (snd kv)) kvs []) s)"
    and "rq_Query rq = [(''versions'', [])] \<Longrightarrow> rq_Method rq = ''GET'' \<Longrightarrow>
      dataPlaneHTTP xt xd u rq s = rendered (versionsXML name) (handleListVersions name s)"
    and "rq_Query rq = [(''list-type'', ''2'')] \<Longrightarrow> rq_Method rq = ''GET'' \<Longrightarrow>
      dataPlaneHTTP xt xd u rq s = rendered (contentsXML name) (handleListObjectsV2 name s)"
    and "rq_Query rq = [(''delete'', [])] \<Longrightarrow> rq_Method rq = ''POST'' \<Longrightarrow> xd (rq_Body rq) = Inr targets \<Longrightarrow>
      dataPlaneHTTP xt xd u rq s = rendered (\<lambda>_. writeXML (el ''DeleteResult'' (concat (map deletedXML targets))))
        (handleMultiDelete name targets s)"
  unfolding dataPlaneHTTP_def assms Let_def getPolicy_def putPolicy_def getTagging_def putTagging_def handleListVersions_def
    handleListObjectsV2_def handleMultiDelete_def
  by (rule dataPlane_rendered, simp add: handlePolicy_def handleTagging_def serveListVersions_def serveListObjectsV2_def
      serveMultiDelete_def, simp add: rendered_def s3Error_def setBucket_def listing_complete mget_def)+

section \<open>What the tests arrange and inspect\<close>

text \<open>The seeders panic (\<^const>\<open>None\<close>) on an unknown bucket.\<close>

definition SeedObjectVersion :: "string \<Rightarrow> string \<Rightarrow> string \<Rightarrow> bool \<Rightarrow> bool \<Rightarrow> int \<Rightarrow> Server \<Rightarrow> Server option" where
  "SeedObjectVersion bucketName key versionID deleteMarker isLatest sz s =
     map_option (\<lambda>b. setBucket bucketName (b\<lparr>fb_Objects := fb_Objects b @ [\<lparr>o_Key = key, o_VersionID = versionID,
        o_IsDeleteMarker = deleteMarker, o_IsLatest = isLatest, o_Size = sz\<rparr>]\<rparr>) s) (map_of (sv_buckets s) bucketName)"

definition SeedObject :: "string \<Rightarrow> string \<Rightarrow> string \<Rightarrow> bool \<Rightarrow> Server \<Rightarrow> Server option" where
  "SeedObject bucketName key versionID deleteMarker = SeedObjectVersion bucketName key versionID deleteMarker (\<not> deleteMarker) 1"

definition SetTags :: "string \<Rightarrow> string gomap \<Rightarrow> Server \<Rightarrow> Server option" where
  "SetTags name tags s = map_option (\<lambda>b. setBucket name (b\<lparr>fb_Tags := tags\<rparr>) s) (map_of (sv_buckets s) name)"

definition SetPolicy :: "string \<Rightarrow> string \<Rightarrow> Server \<Rightarrow> Server option" where
  "SetPolicy name policy s = map_option (\<lambda>b. setBucket name (b\<lparr>fb_Policy := policy\<rparr>) s) (map_of (sv_buckets s) name)"

definition Calls :: "string \<Rightarrow> Server \<Rightarrow> nat" where
  "Calls op s = (case map_of (sv_calls s) op of None \<Rightarrow> 0 | Some n \<Rightarrow> n)"

definition BucketNames :: "Server \<Rightarrow> string list" where
  "BucketNames s = sort (map fst (sv_buckets s))"

definition ObjectCount :: "string \<Rightarrow> Server \<Rightarrow> nat" where
  "ObjectCount name s = (case map_of (sv_buckets s) name of Some b \<Rightarrow> length (fb_Objects b) | None \<Rightarrow> 0)"

definition Tags :: "string \<Rightarrow> Server \<Rightarrow> string gomap option" where
  "Tags name s = map_option fb_Tags (map_of (sv_buckets s) name)"

definition PolicyOf :: "string \<Rightarrow> Server \<Rightarrow> string" where
  "PolicyOf name s = (case map_of (sv_buckets s) name of Some b \<Rightarrow> fb_Policy b | None \<Rightarrow> [])"

definition GroupNames :: "Server \<Rightarrow> string list" where
  "GroupNames s = sort (map (fg_DisplayName \<circ> snd) (sv_groups s))"

definition GroupIDs :: "Server \<Rightarrow> string list" where
  "GroupIDs s = sort (map fst (sv_groups s))"

text \<open>The range over the groups visits them in the given order.\<close>

definition KeyCount :: "(string \<times> fakeGroup) list \<Rightarrow> string \<Rightarrow> int" where
  "KeyCount visited displayName =
     (case List.find (\<lambda>g. fg_DisplayName (snd g) = displayName) visited of Some g \<Rightarrow> int (length (fg_Keys (snd g))) | None \<Rightarrow> - 1)"

definition KeyCountByID :: "string \<Rightarrow> Server \<Rightarrow> int" where
  "KeyCountByID gid s = (case map_of (sv_groups s) gid of Some g \<Rightarrow> int (length (fg_Keys g)) | None \<Rightarrow> - 1)"

text \<open>Every operation of the control plane is counted once, whatever its answer.\<close>

lemma serve_counts:
  assumes "\<And>t. sv_calls (snd (f t)) = sv_calls t"
  shows "Calls name (snd (serve op f s)) = Calls name s + (if name = op then 1 else 0)"
  by (auto simp: serve_def cpFail_def failFor_def countCall_def Calls_def assms split: option.splits prod.splits)

text \<open>What was arranged is what a request sees.\<close>

lemma arranged_is_served:
  assumes "SetPolicy name policy s = Some s'" and "policy \<noteq> []" and "map_of (sv_failNext s) ''S3GetPolicy'' = None"
  shows "fst (getPolicy name s') = Inr policy \<and> PolicyOf name s' = policy \<and> BucketNames s' = BucketNames s"
proof -
  have "map fst (mput name b m) = map fst m" if "map_of m name \<noteq> None" for b and m :: "fakeBucket gomap"
    using that by (induction m) (auto simp: mput_def)
  with assms show ?thesis
    by (auto simp: SetPolicy_def setBucket_def getPolicy_def dataPlane_def failFor_def PolicyOf_def BucketNames_def)
qed

section \<open>Properties\<close>

lemma controlPlane_routes:
  assumes "splitCPPath s (rq_Path rq) = Inr rest"
  shows "rest = [] \<Longrightarrow> controlPlane rq s = serveService rq s"
    and "rest = ''buckets'' \<Longrightarrow> controlPlane rq s = serveListBuckets rq s"
    and "rest = ''bucket/'' @ n \<Longrightarrow> controlPlane rq s = serveBucket rq n s"
    and "rest = ''credentials-group'' \<Longrightarrow> controlPlane rq s = serveCreateGroup rq s"
    and "rest = ''credentials-group/'' @ g \<Longrightarrow> controlPlane rq s = serveDeleteGroup rq g s"
    and "rest = ''credentials-groups'' \<Longrightarrow> controlPlane rq s = serveListGroups rq s"
    and "rest = ''access-key'' \<Longrightarrow> controlPlane rq s = serveCreateKey rq s"
    and "rest = ''access-key/'' @ k \<Longrightarrow> controlPlane rq s = serveDeleteKey rq k s"
    and "rest = ''access-keys'' \<Longrightarrow> controlPlane rq s = serveListKeys rq s"
  using assms by (simp_all add: controlPlane_def hasPrefix_def trimPrefix_def)

text \<open>C35: the provider of the tests answers over HTTP what the model of its operations says. For a
  project and a region without a slash and failures armed with an error status, every operation a client
  sends to the control plane, by method, path, query and JSON body, is routed to its handler; what the
  client decodes of the answer (fields, or status and body of an error) and the state the server is left
  in are exactly those of the operation in \<open>FakeCloud\<close>, a listing of another project included.\<close>

theorem served_as_modelled:
  assumes "CHR ''/'' \<notin> set (sv_ProjectID s)" and "CHR ''/'' \<notin> set (sv_Region s)" and "armedFaults s"
    and "\<forall>p. oper = ListB p \<longrightarrow> CHR ''/'' \<notin> set p"
  shows "(seenBy oper (fst (controlPlane (requestFor (sv_ProjectID s) (sv_Region s) oper) s)),
      snd (controlPlane (requestFor (sv_ProjectID s) (sv_Region s) oper) s)) = operation oper s"
proof -
  let ?pid = "sv_ProjectID s" and ?rg = "sv_Region s"
  have base: "splitCPPath s (basePath ?pid ?rg) = Inr []" "splitCPPath s (basePath ?pid ?rg @ CHR ''/'' # rest) = Inr rest" for rest
    using splitCPPath_base [OF assms(1,2)] by simp_all
  note routes = controlPlane_routes [where s = s]
  have "agrees oper (controlPlane (requestFor ?pid ?rg oper) s) (operation oper s)"
  proof (cases oper)
    case (ListB p)
    show ?thesis
    proof (cases "p = ?pid")
      case True
      with ListB base buckets_agree(4) [OF assms(3)] show ?thesis
        by (simp add: routes(2) [where rest = "''buckets''"] del: operation.simps)
    next
      case False
      with ListB assms(2,4) splitCPPath_base(2) [of p ?rg s "''buckets''"] show ?thesis
        by (simp add: controlPlane_def handleListBuckets_def agrees_simps)
    qed
  qed (use base in \<open>simp_all add: routes service_agrees buckets_agree groups_agree keys_agree assms(3) mget_def del: operation.simps\<close>)
  then show ?thesis by (simp add: agrees_def)
qed
text \<open>A server with one bucket, an intermediary in front of the next listing, and a failing key creation.\<close>

definition armedServer :: Server where
  "armedServer = FailNext ''CreateKey'' 503 (FailNextRaw ''ListBuckets'' 502 ''text/html'' ''<html>bad gateway</html>''
     (SeedBucket ''data'' [] (NewServer ''proj'' ''eu01'' ''https://s3.local'')))"

theorem served_as_modelled_witness:
  "seenBy (GetB ''data'') (fst (controlPlane (requestFor ''proj'' ''eu01'' (GetB ''data'')) armedServer)) =
     Inr (BucketAt ''https://s3.local/data'') \<and>
   seenBy (ListB ''proj'') (fst (controlPlane (requestFor ''proj'' ''eu01'' (ListB ''proj'')) armedServer)) =
     Inl (502, ''<html>bad gateway</html>'')"
proof -
  have s: "CHR ''/'' \<notin> set (sv_ProjectID armedServer)" "CHR ''/'' \<notin> set (sv_Region armedServer)" "armedFaults armedServer"
    by (auto simp: armedServer_def FailNext_def FailNextRaw_def SeedBucket_def NewServer_def armedFaults_def mput_def)
  have p: "sv_ProjectID armedServer = ''proj''" "sv_Region armedServer = ''eu01''"
    by (simp_all add: armedServer_def FailNext_def FailNextRaw_def SeedBucket_def NewServer_def)
  have g: "fst (operation (GetB ''data'') armedServer) = Inr (BucketAt ''https://s3.local/data'')"
    and l: "fst (operation (ListB ''proj'') armedServer) = Inl (502, ''<html>bad gateway</html>'')"
    by code_simp+
  show ?thesis
    using served_as_modelled [OF s, of "GetB ''data''"] served_as_modelled [OF s, of "ListB ''proj''"]
    unfolding p g [symmetric] l [symmetric] prod_eq_iff by (simp del: operation.simps requestFor.simps)
qed

end
