(* ===== verification/Drift.thy ===== *)
theory Drift
  imports Teardown
begin

text \<open>
  A pass over \<open>internal/controller/bucket_controller.go\<close> only repairs: every write to the provider or
  to a Secret answers a deviation the pass itself has read. \<open>driftRule\<close> names, per call, the
  deviation it needs; \<open>no_write_without_drift\<close> shows that every history of a provisioning pass
  follows it.
\<close>

section \<open>Deviations\<close>

text \<open>The admin Secret is absent, unreadable or incomplete.\<close>

definition adminUnusable :: "'w reconciler \<Rightarrow> call set \<Rightarrow> bool" where
  "adminUnusable r H \<longleftrightarrow> (\<exists>x. (\<forall>sec. x = Some sec \<longrightarrow> adminFromSecret sec = None) \<and>
     KGetSecret (r_AdminSecretNamespace r) (r_AdminSecretName r) x \<in> H)"

definition unlistedGroup :: "string \<Rightarrow> call set \<Rightarrow> bool" where
  "unlistedGroup d H \<longleftrightarrow> (\<exists>gs. d \<notin> g_DisplayName ` set gs \<and> CListGroups (Some gs) \<in> H)"

definition unlistedBucket :: "'w client \<Rightarrow> string \<Rightarrow> call set \<Rightarrow> bool" where
  "unlistedBucket c name H \<longleftrightarrow> (\<exists>ns. name \<notin> set ns \<and> CListBuckets (cl_ProjectID c) (Some ns) \<in> H)"

text \<open>The tags name no group, or one the provider does not know; or they lack its URN.\<close>

definition groupless :: "string gomap \<Rightarrow> call set \<Rightarrow> bool" where
  "groupless tags H \<longleftrightarrow> mget tags tagCredentialsGroupID = [] \<or>
     (\<exists>e. StatusCode e = 404 \<and> CListKeys (mget tags tagCredentialsGroupID) (Inl e) \<in> H)"

definition unstamped :: "string \<Rightarrow> string gomap \<Rightarrow> call set \<Rightarrow> bool" where
  "unstamped n kv H \<longleftrightarrow> (\<exists>tags. (mget tags tagCredentialsGroupURN = [] \<or> groupless tags H) \<and>
     (\<exists>g u. kv = mput tagCredentialsGroupURN u (mput tagCredentialsGroupID g tags)) \<and> CGetTags n (Inr tags) \<in> H)"

definition unclaimed :: "'w reconciler \<Rightarrow> Bucket \<Rightarrow> string \<Rightarrow> string \<Rightarrow> string gomap \<Rightarrow> call set \<Rightarrow> bool" where
  "unclaimed r b name n kv H \<longleftrightarrow> n = name \<and> kv = ownershipTags r b \<and> (CCreateBucket name True \<in> H \<or> untaggedSeen name H)"

text \<open>Neither the tags nor the policy of the bucket name a group of the project.\<close>

definition unattributed :: "'w reconciler \<Rightarrow> Bucket \<Rightarrow> string \<Rightarrow> call set \<Rightarrow> bool" where
  "unattributed r b name H \<longleftrightarrow>
     (\<exists>tags. isOwnedByUs r tags b \<and> groupless tags H \<and> CGetTags name (Inr tags) \<in> H) \<and>
     (\<exists>policy gs. (\<forall>u. WorkloadPrincipalFromPolicy policy = Some u \<longrightarrow> u \<notin> g_URN ` set gs) \<and>
        CGetPolicy name (Some policy) \<in> H \<and> CListGroups (Some gs) \<in> H)"

definition policyDiffers :: "string \<Rightarrow> string \<Rightarrow> call set \<Rightarrow> bool" where
  "policyDiffers name p H \<longleftrightarrow> (\<exists>x. (\<forall>cur. x = Some cur \<longrightarrow> \<not> PoliciesEquivalent cur p) \<and> CGetPolicy name x \<in> H)"

definition workloadGroup :: "'w reconciler \<Rightarrow> Bucket \<Rightarrow> string \<Rightarrow> string \<Rightarrow> call set \<Rightarrow> bool" where
  "workloadGroup r b name g H \<longleftrightarrow> attributedTo r b name g H \<or>
     (ownedSeen r b name H \<and> (\<exists>u. CCreateGroup (workloadGroupName b) (Some (g, u)) \<in> H))"

definition secretLacks :: "Bucket \<Rightarrow> call set \<Rightarrow> bool" where
  "secretLacks b H \<longleftrightarrow> (\<exists>x. (\<forall>sec. x = Some sec \<longrightarrow> \<not> secretHasCreds sec b) \<and>
     KGetSecret (b_Namespace b) (sr_Name (sp_SecretRef (b_Spec b))) x \<in> H)"

text \<open>Why a key of a group is replaced: the admin Secret is unusable, or the workload has no working
  key, is to be rotated or is being cloned.\<close>

definition keyNeeded :: "'w reconciler \<Rightarrow> Bucket \<Rightarrow> string \<Rightarrow> string \<Rightarrow> call set \<Rightarrow> bool" where
  "keyNeeded r b name g H \<longleftrightarrow> (adminUnusable r H \<and> adminGroup g H) \<or>
     (workloadGroup r b name g H \<and>
       (PendingRotationTrigger b \<noteq> [] \<or> ClonePending b \<or> CListKeys g (Inr []) \<in> H \<or> secretLacks b H))"

definition minted :: "call set \<Rightarrow> bool" where
  "minted H \<longleftrightarrow> (\<exists>g ak. CCreateKey g (Some ak) \<in> H)"

definition driftRule :: "'w reconciler \<Rightarrow> 'w client \<Rightarrow> Bucket \<Rightarrow> string \<Rightarrow> call \<Rightarrow> call set \<Rightarrow> bool" where
  "driftRule r c b name x H =
     (case x of
        CEnableService y \<Rightarrow> CGetServiceStatus False \<in> H
      | CCreateBucket n y \<Rightarrow> n = name \<and> unlistedBucket c name H
      | CSetTags n kv y \<Rightarrow> unclaimed r b name n kv H \<or> unstamped n kv H
      | CSetPolicy n p y \<Rightarrow> n = name \<and> policyDiffers name p H
      | CCreateGroup d y \<Rightarrow> (d = adminGroupName \<and> adminUnusable r H \<and> unlistedGroup d H) \<or>
          (d = workloadGroupName b \<and> unattributed r b name H)
      | CDeleteGroup g y \<Rightarrow> (\<exists>u. CCreateGroup (workloadGroupName b) (Some (g, u)) \<in> H)
      | CCreateKey g y \<Rightarrow> keyNeeded r b name g H
      | CDeleteKey g k y \<Rightarrow> keyNeeded r b name g H
      | KUpsertSecret ns n y \<Rightarrow> minted H \<or> (ClonePending b \<and> operatorSecret r ns n)
      | KDeleteSecret ns n y \<Rightarrow> ClonePending b \<and> operatorSecret r ns n
      | KCreateJob j y \<Rightarrow> ClonePending b
      | KDeleteJob ns n y \<Rightarrow> ClonePending b
      | KUpdateStatus b' y \<Rightarrow> True
      | _ \<Rightarrow> isRead x)"

lemma driftRule_read [simp]: "isRead x \<Longrightarrow> driftRule r c b name x H" "driftRule r c b name (KUpdateStatus b' y) H"
  by (cases x) (simp_all add: driftRule_def)

lemma driftRule_clone:
  assumes "ClonePending b"
  shows "driftRule r c b name (KCreateJob j y) H" "driftRule r c b name (KDeleteJob ns n y) H"
    "operatorSecret r ns n \<Longrightarrow> driftRule r c b name (KDeleteSecret ns n y) H"
    "operatorSecret r ns n \<Longrightarrow> driftRule r c b name (KUpsertSecret ns n y) H"
  using assms by (simp_all add: driftRule_def)

lemma lasting_drift [lasting_rules]:
  "lasting (adminUnusable r)" "lasting (unlistedGroup d)" "lasting (unlistedBucket c name)" "lasting (groupless tags)"
  "lasting (adminGroup g)" "lasting (attributedTo r b name g)" "lasting (workloadGroup r b name g)" "lasting (secretLacks b)"
  "lasting (keyNeeded r b name g)" "lasting minted" "lasting (policyDiffers name p)" "lasting (unattributed r b name)"
  unfolding keyNeeded_def workloadGroup_def unattributed_def adminUnusable_def unlistedGroup_def unlistedBucket_def groupless_def
    adminGroup_def attributedTo_def secretLacks_def minted_def policyDiffers_def
  by (intro lasting_rules lasting_ex)+

lemma adminUnusableI:
  "KGetSecret (r_AdminSecretNamespace r) (r_AdminSecretName r) x \<in> H \<Longrightarrow>
    (\<And>sec. x = Some sec \<Longrightarrow> adminFromSecret sec = None) \<Longrightarrow> adminUnusable r H"
  unfolding adminUnusable_def by blast

lemma secretLacksI:
  "KGetSecret (b_Namespace b) (sr_Name (sp_SecretRef (b_Spec b))) x \<in> H \<Longrightarrow>
    (\<And>sec. x = Some sec \<Longrightarrow> \<not> secretHasCreds sec b) \<Longrightarrow> secretLacks b H"
  unfolding secretLacks_def by blast

lemma policyDiffersI:
  "CGetPolicy name x \<in> H \<Longrightarrow> (\<And>cur. x = Some cur \<Longrightarrow> \<not> PoliciesEquivalent cur p) \<Longrightarrow> policyDiffers name p H"
  unfolding policyDiffers_def by blast

lemma getSecret_seen: "getSecret r ns n s = (x, s') \<Longrightarrow> KGetSecret ns n (okVal x) \<in> set (s_calls s')"
  by (auto simp: getSecret_def exec)

section \<open>The admin credential and the service\<close>

lemma clear_drift: "calls_only (\<lambda>x. \<forall>H. keyNeeded r b name g H \<longrightarrow> driftRule r c b name x H) (DeleteAllAccessKeys c g)"
  by (intro only_rules) (simp_all add: driftRule_def)

lemma CreateAccessKey_seen:
  "CreateAccessKey c g s = (x, s') \<Longrightarrow> (case x of Inl e \<Rightarrow> True | Inr ak \<Rightarrow> minted (set (s_calls s')))"
  by (auto simp: CreateAccessKey_def minted_def exec split: sum.splits) blast

lemma ListGroups_seen:
  "ListCredentialsGroups c s = (x, s') \<Longrightarrow> (case x of Inl e \<Rightarrow> True | Inr gs \<Rightarrow> CListGroups (Some gs) \<in> set (s_calls s'))"
  by (auto simp: ListCredentialsGroups_def exec split: sum.splits)

lemma FindGroup_None:
  assumes "FindCredentialsGroupByName c d s = (Inr None, s')"
  shows "unlistedGroup d (set (s_calls s'))"
proof -
  obtain y s1 where l: "ListCredentialsGroups c s = (y, s1)" by fastforce
  with assms obtain gs where "y = Inr gs" "s' = s1" "List.find (\<lambda>g. g_DisplayName g = d) gs = None"
    by (cases y) (auto simp: FindCredentialsGroupByName_def exec)
  with ListGroups_seen [OF l] show ?thesis
    unfolding unlistedGroup_def by (intro exI [of _ gs]) (auto simp: find_None_iff)
qed

text \<open>Adding the evidence of an answer to a discipline that is known already.\<close>

lemma disc_evidence:
  assumes "valid (disc G K) m (\<lambda>_. disc G (\<lambda>_. True))" and "lasting K" and "calls_only anyCall m"
    and "\<And>s x s'. m s = (x, s') \<Longrightarrow> E x (set (s_calls s'))"
  shows "valid (disc G K) m (\<lambda>x. disc G (\<lambda>H. K H \<and> E x H))"
proof (rule validI)
  fix s x s'
  assume P: "disc G K s" and run: "m s = (x, s')"
  with lastingD [OF assms(2) _ calls_grow [OF assms(3) run]] have "K (set (s_calls s'))" by (simp add: disc_def)
  with validD [OF assms(1) P run] assms(4) [OF run] show "disc G (\<lambda>H. K H \<and> E x H) s'" by (simp add: disc_def)
qed

lemma disc_kept:
  "valid (disc G K) m (\<lambda>_. disc G (\<lambda>_. True)) \<Longrightarrow> lasting K \<Longrightarrow> calls_only anyCall m \<Longrightarrow> valid (disc G K) m (\<lambda>_. disc G K)"
  using disc_evidence [where E = "\<lambda>_ _. True"] by fastforce

lemma ensureGroup_drift:
  "valid (disc (driftRule r c b name) (adminUnusable r)) (EnsureCredentialsGroup c adminGroupName)
     (\<lambda>x. disc (driftRule r c b name) (\<lambda>H. adminUnusable r H \<and> (case x of Inl e \<Rightarrow> True | Inr gu \<Rightarrow> adminGroup (fst gu) H)))"
  (is "valid (disc ?G ?A) _ _")
proof -
  have only: "valid (disc ?G ?A) (EnsureCredentialsGroup c adminGroupName) (\<lambda>_. disc ?G ?A)"
    unfolding EnsureCredentialsGroup_def
    apply (rule disc_check [where E = "\<lambda>x H. case x of Inl e \<Rightarrow> True | Inr f \<Rightarrow> (f = None \<longrightarrow> unlistedGroup adminGroupName H)"])
        apply (intro lasting_rules)
       apply (unfold FindCredentialsGroupByName_def, intro only_rules, simp)[1]
      apply (auto dest: FindGroup_None split: sum.split)[1]
     apply (rule disc_end, simp)
    apply (intro valid_option)
     apply (rule disc_only, (intro lasting_rules)[1], (intro only_rules, simp add: driftRule_def)[1], simp)
    apply (rule disc_end, simp)
    done
  show ?thesis
    by (rule disc_evidence) (use EnsureCredentialsGroup_seen in
      \<open>auto intro!: valid_weaken [OF only] lasting_rules only_rules simp: disc_def\<close>)
qed

lemma ensureAdmin_drift:
  "valid (disc (driftRule r c b name) (\<lambda>_. True)) (ensureAdmin r c) (\<lambda>_. disc (driftRule r c b name) (\<lambda>_. True))"
proof -
  let ?G = "driftRule r c b name"
  have upd: "calls_only A (sets (\<lambda>s. s\<lparr>s_admin := Some ac\<rparr>))" for A ac by (rule only_sets) simp
  have wr: "calls_only A (writeAdminSecret r ac)" if "\<And>ns n x. A (KUpsertSecret ns n x)" for A ac
    unfolding writeAdminSecret_def by (intro only_rules that)
  have key: "keyNeeded r b name g H" if "adminUnusable r H \<and> adminGroup g H" for g H
    using that by (simp add: keyNeeded_def)
  have boot: "valid (disc ?G (adminUnusable r)) (bootstrapAdmin r c) (\<lambda>_. disc ?G (\<lambda>_. True))"
    unfolding bootstrapAdmin_def
    apply (rule valid_check [where E = "\<lambda>_. disc ?G (\<lambda>_. True)" and
        R = "\<lambda>gu. disc ?G (\<lambda>H. adminUnusable r H \<and> adminGroup (fst gu) H)"])
      apply (rule valid_weaken [OF ensureGroup_drift], simp, (auto simp: disc_def split: sum.splits)[1])
     apply (rule disc_end, simp)
    apply (intro valid_prod, simp only: fst_conv)
    subgoal for gu g u
      apply (rule disc_then, (intro lasting_rules)[1], rule only_weaken [OF clear_drift], blast intro: key)
       apply (rule disc_end, simp)
      apply (rule disc_check [where E = "\<lambda>x H. case x of Inl e \<Rightarrow> True | Inr ak \<Rightarrow> minted H"])
          apply (intro lasting_rules)
         apply (intro only_rules, simp add: driftRule_def key)
        apply (erule CreateAccessKey_seen)
       apply (rule disc_end, simp)
      apply (rule disc_only, (intro lasting_rules)[1])
       apply (intro only_rules wr upd)
        apply (simp_all add: driftRule_def key)
      done
    done
  show ?thesis unfolding ensureAdmin_def
    apply (rule valid_readsI, intro valid_option valid_if)
       apply (rule disc_end, simp)
      apply (rule disc_check [where E = "\<lambda>x H. case x of Inl e \<Rightarrow> adminUnusable r H
          | Inr sec \<Rightarrow> adminFromSecret sec = None \<longrightarrow> adminUnusable r H"])
          apply (intro lasting_rules)
         apply (intro only_rules, simp)
        apply (drule getSecret_seen, auto intro: adminUnusableI split: sum.split)[1]
       apply (intro valid_if)
        apply (rule disc_weaken [OF boot], simp)
       apply (rule disc_end, simp)
      apply (intro valid_option)
       apply (rule disc_weaken [OF boot], simp)
      apply (rule disc_only, (intro lasting_rules)[1], (intro only_rules upd)[1], simp)
     apply (rule disc_end, simp)+
    done
qed

lemma EnsureService_drift:
  "valid (disc (driftRule r c b name) (\<lambda>_. True)) (EnsureService c) (\<lambda>_. disc (driftRule r c b name) (\<lambda>_. True))"
proof -
  let ?G = "driftRule r c b name"
  have upd: "calls_only A (sets (\<lambda>s. s\<lparr>s_serviceReady := True\<rparr>))" for A by (rule only_sets) simp
  have wait: "calls_only A (awaitService n c d)" if "\<And>x. A (CGetServiceStatus x)" for A n d
    by (induction n) (simp_all, (intro only_rules only_callOut that upd | assumption)+)
  show ?thesis unfolding EnsureService_def
    apply (rule valid_readsI, intro valid_if)
     apply (rule disc_end, simp)
    apply (rule disc_check [where E = "\<lambda>x H. case x of Inl e \<Rightarrow> CGetServiceStatus False \<in> H | Inr u \<Rightarrow> True"])
        apply (intro lasting_rules)
       apply (intro only_callOut, simp)
      apply (auto simp: exec split: sum.splits)[1]
     apply (intro valid_if)
      apply (rule disc_end, simp)
     apply (rule disc_only, (intro lasting_rules)[1])
      apply (intro only_rules only_callOut wait, simp_all add: driftRule_def)[1]
     apply simp
    apply (rule disc_only, (intro lasting_rules)[1], (intro only_rules upd)[1], simp)
    done
qed

section \<open>The bucket\<close>

lemma adopt_drift:
  "valid (disc (driftRule r c b name) (\<lambda>_. True)) (adoptOrCollide r c b name admin) (\<lambda>_. disc (driftRule r c b name) (\<lambda>_. True))"
  unfolding adoptOrCollide_def
  apply (rule disc_then, (intro lasting_rules)[1], (intro only_rules, simp)[1])
   apply (rule disc_end, simp)
  apply (rule disc_check [where E = "\<lambda>x H. case x of Inl e \<Rightarrow> True | Inr tags \<Rightarrow> (tags = [] \<longrightarrow> untaggedSeen name H) \<and>
        (isOwnedByUs r tags b \<longrightarrow> ownedSeen r b name H)"])
      apply (intro lasting_rules)
     apply (intro only_rules, simp)
    apply (rule BucketTags_answer, assumption)
   apply (rule disc_end, simp)
  apply (intro valid_if)
    apply (rule disc_only, (intro lasting_rules)[1])
     apply (intro only_rules, simp_all add: driftRule_def unclaimed_def)[1]
    apply simp
   apply (rule disc_end, simp)+
  done

lemma ensureBucket_drift:
  "valid (disc (driftRule r c b name) (\<lambda>_. True)) (ensureBucket r c b name admin) (\<lambda>_. disc (driftRule r c b name) (\<lambda>_. True))"
proof -
  let ?G = "driftRule r c b name"
  have adopt: "valid (disc ?G K) (andThen (adoptOrCollide r c b name admin) (\<lambda>_. ret False)) (\<lambda>_. disc ?G (\<lambda>_. True))" for K
    by (rule disc_weaken [where K = "\<lambda>_. True"], rule valid_check [OF adopt_drift [THEN valid_weaken]])
      (auto intro: valid_end)
  show ?thesis unfolding ensureBucket_def
    apply (rule disc_check [where E = "\<lambda>x H. case x of Inl e \<Rightarrow> True
        | Inr ok \<Rightarrow> \<exists>ns. CListBuckets (cl_ProjectID c) (Some ns) \<in> H \<and> ok = (name \<in> set ns)"])
        apply (intro lasting_rules)
       apply (intro only_rules, simp)
      apply (rule HasBucket_seen, assumption)
     apply (rule disc_end, simp)
    apply (intro valid_if adopt)
    apply (rule disc_check [where E = "\<lambda>x H. case x of Inl e \<Rightarrow> True | Inr u \<Rightarrow> CCreateBucket name True \<in> H"])
        apply (intro lasting_rules)
       apply (intro only_rules, auto simp: driftRule_def unlistedBucket_def)[1]
      apply (rule CreateBucket_seen, assumption)
     apply (intro valid_if)
      apply (rule disc_end, simp)
     apply (rule disc_then, (intro lasting_rules)[1], (intro only_rules, simp)[1])
      apply (rule disc_end, simp)
     apply (rule adopt)
    apply (rule disc_only, (intro lasting_rules)[1])
     apply (intro only_rules, simp_all add: driftRule_def unclaimed_def)[1]
    apply simp
    done
qed

section \<open>The workload group\<close>

text \<open>A group that tags do not settle is missing there, so a write of the tags is a repair.\<close>

lemma groupExists_unknown:
  "groupExists c (mget tags tagCredentialsGroupID) s = (x, s') \<Longrightarrow>
    (case x of Inl e \<Rightarrow> True | Inr known \<Rightarrow> \<not> known \<longrightarrow> groupless tags (set (s_calls s')))"
  by (auto simp: groupless_def dest: groupExists_seen split: sum.split)

lemma stamp_drift:
  assumes "mget tags tagCredentialsGroupURN = [] \<or> K = groupless tags"
  shows "calls_only (\<lambda>x. \<forall>H. CGetTags n (Inr tags) \<in> H \<and> K H \<longrightarrow> driftRule r c b name x H) (stamp r s3 n tags ref)"
  by (rule only_stamp) (use assms in \<open>auto simp: driftRule_def unstamped_def\<close>)

lemma groupFromTags_drift:
  assumes T: "\<And>H. K H \<Longrightarrow> CGetTags n (Inr tags) \<in> H" and K: "lasting K"
  shows "valid (disc (driftRule r c b name) K) (groupFromTags c tags groups (stamp r s3 n tags))
    (\<lambda>x. disc (driftRule r c b name) (\<lambda>H. K H \<and> (x = Inr None \<longrightarrow> groupless tags H)))"
  unfolding groupFromTags_def
  apply (intro valid_let valid_if)
   apply (rule disc_end, simp add: groupless_def)
  apply (rule disc_check [where E = "\<lambda>x H. case x of Inl e \<Rightarrow> True | Inr known \<Rightarrow> \<not> known \<longrightarrow> groupless tags H"])
      apply (rule K)
     apply (intro only_rules, simp)
    apply (erule groupExists_unknown)
   apply (rule disc_end, simp)
  apply (intro valid_let valid_if valid_option)
     apply (rule disc_end, simp)+
  apply (rule disc_then, (intro lasting_rules K)[1])
    apply (rule only_weaken [OF stamp_drift [where K = "\<lambda>_. True"]], simp, use T in blast)
   apply (rule disc_end, simp)+
  done

definition policyNamesNone :: "string \<Rightarrow> groupIndex \<Rightarrow> call set \<Rightarrow> bool" where
  "policyNamesNone n groups H \<longleftrightarrow> (\<exists>policy. (\<forall>u. WorkloadPrincipalFromPolicy policy = Some u \<longrightarrow> u \<notin> g_URN ` set groups) \<and>
     CGetPolicy n (Some policy) \<in> H)"

lemma lasting_policyNames [lasting_rules]: "lasting (policyNamesNone n groups)"
  unfolding policyNamesNone_def by (intro lasting_rules)

lemma policyNamesNoneI:
  "CGetPolicy n (Some policy) \<in> H \<Longrightarrow> (\<And>u. WorkloadPrincipalFromPolicy policy = Some u \<Longrightarrow> u \<notin> g_URN ` set groups) \<Longrightarrow>
    policyNamesNone n groups H"
  unfolding policyNamesNone_def by blast

lemma byURN_None: "byURN groups urn = None \<longleftrightarrow> urn \<notin> g_URN ` set groups"
  by (auto simp: byURN_def find_None_iff)

lemma groupFromPolicy_drift:
  assumes T: "\<And>H. K H \<Longrightarrow> CGetTags n (Inr tags) \<in> H \<and> groupless tags H" and K: "lasting K"
  shows "valid (disc (driftRule r c b name) K) (groupFromPolicy r s3 n groups (stamp r s3 n tags))
    (\<lambda>x. disc (driftRule r c b name) (\<lambda>H. K H \<and> (x = Inr None \<longrightarrow> policyNamesNone n groups H)))"
  unfolding groupFromPolicy_def
  apply (rule disc_check [where E = "\<lambda>x H. case x of Inl e \<Rightarrow> True | Inr policy \<Rightarrow> CGetPolicy n (Some policy) \<in> H"])
      apply (rule K)
     apply (intro only_rules, simp)
    apply (auto simp: GetBucketPolicy_def exec split: sum.splits)[1]
   apply (rule disc_end, simp)
  apply (intro valid_option)
    apply (rule disc_end, clarsimp, erule policyNamesNoneI, simp)
   apply (rule disc_end, clarsimp simp: byURN_None, erule policyNamesNoneI, simp)
  apply (intro valid_let)
  apply (rule disc_then, (intro lasting_rules K)[1])
    apply (rule only_weaken [OF stamp_drift [where K = "groupless tags"]], simp, use T in blast)
   apply (rule disc_end, simp)
  apply (rule disc_after, (intro lasting_rules K)[1], (intro only_rules)[1])
  apply (rule disc_end, simp)
  done

lemma createWorkloadGroup_drift:
  assumes T: "\<And>H. K H \<Longrightarrow> CGetTags name (Inr tags) \<in> H \<and> groupless tags H" and U: "\<And>H. K H \<Longrightarrow> unattributed r b name H"
    and K: "lasting K"
  shows "valid (disc (driftRule r c b name) K) (createWorkloadGroup c b (stamp r s3 name tags)) (\<lambda>_. disc (driftRule r c b name) (\<lambda>_. True))"
  unfolding createWorkloadGroup_def
  apply (rule disc_check [where E = "\<lambda>x H. case x of Inl e \<Rightarrow> True | Inr (g, u) \<Rightarrow> CCreateGroup (workloadGroupName b) (Some (g, u)) \<in> H"])
      apply (rule K)
     apply (intro only_rules, simp add: driftRule_def U)
    apply (auto simp: CreateCredentialsGroup_def exec split: sum.splits)[1]
   apply (rule disc_end, simp)
  apply (intro valid_prod valid_let)
  apply (rule disc_then, (intro lasting_rules K)[1])
    apply (rule only_weaken [OF stamp_drift [where K = "groupless tags"]], simp, use T in blast)
   apply (rule disc_after, (intro lasting_rules K)[1])
    apply (intro only_rules, auto simp: driftRule_def)[1]
   apply (rule disc_end, simp)+
  done

lemma attributeGroup_drift:
  assumes own: "create \<Longrightarrow> b' = b \<and> n = name \<and> isOwnedByUs r tags b"
  shows "valid (disc (driftRule r c b name) (\<lambda>H. CGetTags n (Inr tags) \<in> H \<and> CListGroups (Some groups) \<in> H))
    (attributeGroup r c b' n s3 tags groups create fresh) (\<lambda>_. disc (driftRule r c b name) (\<lambda>_. True))"
  (is "valid (disc ?G ?K) _ _")
proof -
  have K: "lasting ?K" by (intro lasting_rules)
  have create: "valid (disc ?G (\<lambda>H. (?K H \<and> groupless tags H) \<and> policyNamesNone n groups H))
      (andThen (guardGroupCreate c b' n fresh) (\<lambda>_. andThen (createWorkloadGroup c b' (stamp r s3 n tags)) (\<lambda>ref. ret (ref, True))))
      (\<lambda>_. disc ?G (\<lambda>_. True))" if create
  proof -
    from own [OF that] have "b' = b" "n = name" and o: "isOwnedByUs r tags b" by simp_all
    let ?L = "\<lambda>H. ((CGetTags name (Inr tags) \<in> H \<and> CListGroups (Some groups) \<in> H) \<and> groupless tags H) \<and> policyNamesNone name groups H"
    have U: "unattributed r b name H" if "?L H" for H
      using that o unfolding unattributed_def policyNamesNone_def by blast
    have make: "valid (disc ?G ?L) (createWorkloadGroup c b (stamp r s3 name tags)) (\<lambda>_. disc ?G (\<lambda>_. True))"
      by (rule createWorkloadGroup_drift [OF _ U]) (assumption | simp | intro lasting_rules)+
    show ?thesis unfolding \<open>b' = b\<close> \<open>n = name\<close>
      apply (rule disc_then, (intro lasting_rules)[1], (intro only_rules, simp)[1])
       apply (rule disc_end, simp)
      apply (rule valid_check [where E = "\<lambda>_. disc ?G (\<lambda>_. True)" and R = "\<lambda>_. disc ?G (\<lambda>_. True)"])
        apply (rule valid_weaken [OF make], assumption, simp split: sum.split)
       apply (rule disc_end, simp)+
      done
  qed
  show ?thesis unfolding attributeGroup_def
    apply (intro valid_let)
    apply (rule valid_check [where E = "\<lambda>_. disc ?G (\<lambda>_. True)" and R = "\<lambda>f. disc ?G (\<lambda>H. ?K H \<and> (f = None \<longrightarrow> groupless tags H))"])
      apply (rule valid_weaken [OF groupFromTags_drift [OF _ K]], simp, assumption, (auto simp: disc_def split: sum.splits)[1])
     apply (rule disc_end, simp)
    apply (intro valid_option)
     apply (rule valid_check [where E = "\<lambda>_. disc ?G (\<lambda>_. True)" and
         R = "\<lambda>f. disc ?G (\<lambda>H. (?K H \<and> groupless tags H) \<and> (f = None \<longrightarrow> policyNamesNone n groups H))"])
       apply (rule valid_weaken [OF groupFromPolicy_drift [where K = "\<lambda>H. ?K H \<and> groupless tags H"]], simp, (intro lasting_rules)[1], simp,
         (auto simp: disc_def split: sum.splits)[1])
      apply (rule disc_end, simp)
     apply (intro valid_option valid_if)
       apply (rule disc_end, simp)
      apply (rule disc_weaken [OF create], simp, simp)
     apply (rule disc_end, simp)+
    done
qed

lemma resolve_drift:
  assumes "create \<Longrightarrow> b' = b \<and> n = name"
  shows "valid (disc (driftRule r c b name) (\<lambda>H. CListGroups (Some groups) \<in> H))
    (resolveWorkloadGroup r c b' n admin groups create fresh) (\<lambda>_. disc (driftRule r c b name) (\<lambda>_. True))"
  (is "valid (disc ?G ?K) _ _")
  unfolding resolveWorkloadGroup_def
  apply (rule disc_then, (intro lasting_rules)[1], (intro only_rules, simp)[1])
   apply (rule disc_end, simp)
  apply (rule disc_check [where E = "\<lambda>x H. case x of Inl e \<Rightarrow> True | Inr tags \<Rightarrow> tags \<noteq> [] \<longrightarrow> CGetTags n (Inr tags) \<in> H"])
      apply (intro lasting_rules)
     apply (intro only_rules, simp)
    apply (auto dest: BucketTags_seen split: sum.split)[1]
   apply (rule disc_end, simp)
  apply (intro valid_if)
   apply (rule disc_end, simp)
  apply (rule disc_weaken [OF attributeGroup_drift])
   apply (use assms in simp, use isOwned_nonempty in auto)
  done

text \<open>The group a pass resolves is the one the bucket attributes to it, or was created for it.\<close>

lemma resolve_evidence:
  "resolveWorkloadGroup r c b name admin groups create fresh s = (x, s') \<Longrightarrow>
    (case x of Inl e \<Rightarrow> True | Inr res \<Rightarrow> CListGroups (Some groups) \<in> set (s_calls s') \<longrightarrow>
       workloadGroup r b name (wg_id (fst res)) (set (s_calls s')))"
proof (cases x)
  case (Inr res)
  assume "resolveWorkloadGroup r c b name admin groups create fresh s = (x, s')"
  with Inr have "attributedBy r b name groups (fst res) (s_calls s')" by (cases res) (simp add: resolve_sound)
  with Inr show ?thesis
    unfolding attributedBy_def sourceOf_def workloadGroup_def attributedTo_def ownedSeen_def by (simp del: split_paired_Ex) blast
qed simp

section \<open>Read grants and the policy\<close>

lemma resolveGrants_drift:
  "valid (disc (driftRule r c b name) (\<lambda>H. CListGroups (Some groups) \<in> H)) (resolveReadGrants r c b' admin groups)
     (\<lambda>_. disc (driftRule r c b name) (\<lambda>_. True))"
proof -
  let ?G = "driftRule r c b name" and ?K = "\<lambda>H. CListGroups (Some groups) \<in> H"
  have K: "lasting ?K" by (intro lasting_rules)
  have res: "valid (disc ?G ?K) (resolveWorkloadGroup r c g n admin groups False False)
      (\<lambda>x. case x of Inl e \<Rightarrow> disc ?G ?K | Inr y \<Rightarrow> disc ?G ?K)" for g n
    by (rule valid_weaken [OF disc_kept [OF resolve_drift K]])
      (simp_all add: only_weaken [OF only_resolveWorkloadGroup] split: sum.split)
  have one: "valid (disc ?G ?K) (resolveGrant r c b' admin groups ref) (\<lambda>x. case x of Inl e \<Rightarrow> disc ?G (\<lambda>_. True) | Inr y \<Rightarrow> disc ?G ?K)" for ref
  proof -
    have "valid (disc ?G ?K) (resolveGrant r c b' admin groups ref) (\<lambda>_. disc ?G ?K)"
      unfolding resolveGrant_def pendingGrant_def
      apply (intro valid_if)
       apply (rule disc_after [OF K], (intro only_rules)[1], rule disc_end, simp)
      apply (rule disc_then [OF K], (intro only_callOut, simp)[1])
       apply (intro valid_if)
        apply (rule disc_after [OF K], (intro only_rules)[1], rule disc_end, simp)
       apply (rule disc_end, simp)
      apply (intro valid_if valid_let)
       apply (rule disc_after [OF K], (intro only_rules)[1], rule disc_end, simp)
      apply (rule disc_then [OF K], (intro only_rules, simp)[1])
       apply (rule disc_end, simp)
      apply (intro valid_if)
       apply (rule disc_after [OF K], (intro only_rules)[1], rule disc_end, simp)
      apply (rule valid_check [OF res])
       apply (intro valid_if)
         apply (rule disc_after [OF K], (intro only_rules)[1], rule disc_end, simp)+
       apply (rule disc_end, simp)
      apply (intro valid_prod, rule disc_end, simp)
      done
    then show ?thesis by (rule valid_weaken) (auto simp: disc_def split: sum.split)
  qed
  have "valid (disc ?G ?K) (resolveGrants r c b' admin groups refs acc) (\<lambda>_. disc ?G (\<lambda>_. True))" for refs acc
  proof (induction refs arbitrary: acc)
    case (Cons ref refs)
    show ?case unfolding resolveGrants.simps
      by (rule valid_check [OF one]) (rule disc_end, simp, auto intro!: Cons.IH split: option.split)
  qed (simp, rule disc_end, simp)
  then show ?thesis by (simp add: resolveReadGrants_def)
qed

lemma ensureBucketPolicy_drift:
  "valid (disc (driftRule r c b name) (\<lambda>_. True)) (ensureBucketPolicy r c name admin u rs) (\<lambda>_. disc (driftRule r c b name) (\<lambda>_. True))"
proof -
  let ?G = "driftRule r c b name"
  have seen: "CGetPolicy name (okVal x) \<in> set (s_calls s')" if "GetBucketPolicy mc s3 name s = (x, s')" for mc s3 s x s'
    using that by (auto simp: GetBucketPolicy_def exec split: sum.splits)
  show ?thesis unfolding ensureBucketPolicy_def
    apply (rule disc_then, (intro lasting_rules)[1], (intro only_rules, simp)[1])
     apply (rule disc_end, simp)
    apply (intro valid_let)
    apply (rule valid_after [OF disc_step [where E = "\<lambda>x H. CGetPolicy name (okVal x) \<in> H" and A = isRead]])
        apply (intro lasting_rules)
       apply (intro only_rules, simp)
      apply simp
     apply (erule seen)
    apply (intro valid_if)
     apply (rule disc_end, simp)
    apply (rule disc_only, (intro lasting_rules)[1])
     apply (intro only_rules, auto simp: driftRule_def okVal_def intro!: policyDiffersI split: sum.splits)[1]
    apply simp
    done
qed

lemma stops_drift:
  "lasting K \<Longrightarrow> (\<And>A. (\<And>b y. A (KUpdateStatus b y)) \<Longrightarrow> calls_only A m) \<Longrightarrow>
    valid (disc (driftRule r c b name) K) (stops m) (\<lambda>_. disc (driftRule r c b name) (\<lambda>_. True))"
  by (rule stops_disc) simp_all

lemma fail_drift: "valid (disc (driftRule r c b name) (\<lambda>_. True)) (stops (fail r e)) (\<lambda>_. disc (driftRule r c b name) (\<lambda>_. True))"
  by (rule stops_drift, intro lasting_rules, intro only_rules, assumption)

lemma applyPolicy_drift:
  "valid (disc (driftRule r c b name) (\<lambda>_. True)) (applyPolicy r c name admin u rg ch) (\<lambda>_. disc (driftRule r c b name) (\<lambda>_. True))"
  unfolding applyPolicy_def
  apply (rule disc_after, (intro lasting_rules)[1], (intro only_rules)[1])
  apply (rule valid_check [where E = "\<lambda>_. disc (driftRule r c b name) (\<lambda>_. True)" and R = "\<lambda>_. disc (driftRule r c b name) (\<lambda>_. True)"])
    apply (rule valid_weaken [OF ensureBucketPolicy_drift], assumption, simp split: sum.split)
   apply (rule fail_drift)
  apply (rule disc_end, simp)
  done

section \<open>The workload key\<close>

lemma issueKey_drift:
  "valid (disc (driftRule r c b name) (keyNeeded r b name g)) (issueKey r c b' g h u) (\<lambda>_. disc (driftRule r c b name) (\<lambda>_. True))"
  unfolding issueKey_def
  apply (rule disc_then, (intro lasting_rules)[1], rule clear_drift)
   apply (rule disc_end, simp)
  apply (rule disc_check [where E = "\<lambda>x H. case x of Inl e \<Rightarrow> True | Inr ak \<Rightarrow> minted H"])
      apply (intro lasting_rules)
     apply (intro only_rules, simp add: driftRule_def)
    apply (erule CreateAccessKey_seen)
   apply (rule disc_end, simp)
  apply (rule disc_only, (intro lasting_rules)[1])
   apply (intro only_rules, simp_all add: driftRule_def)
  done

text \<open>The object in hand asks for the same as the one the pass began with, unless a clone runs.\<close>

definition sameNeeds :: "Bucket \<Rightarrow> 'w st \<Rightarrow> bool" where
  "sameNeeds b s \<longleftrightarrow> ClonePending b \<or> (b_Namespace (s_obj s) = b_Namespace b \<and> b_Spec (s_obj s) = b_Spec b \<and>
     PendingRotationTrigger (s_obj s) = PendingRotationTrigger b \<and> ClonePending (s_obj s) = ClonePending b)"

lemma aboutObj_sameNeeds [simp]: "aboutObj (sameNeeds b)"
  by (simp add: aboutObj_def sameNeeds_def)

lemma ensureKey_drift:
  "valid (\<lambda>s. sameNeeds b s \<and> disc (driftRule r c b name) (workloadGroup r b name g) s) (ensureAccessKeyAndSecret r c g h u)
     (\<lambda>_. disc (driftRule r c b name) (\<lambda>_. True))"
proof (cases "ClonePending b")
  case True
  then have key: "workloadGroup r b name g H \<Longrightarrow> keyNeeded r b name g H" for H by (simp add: keyNeeded_def)
  have issue: "valid (disc (driftRule r c b name) (workloadGroup r b name g)) (issueKey r c b' g h u) (\<lambda>_. disc (driftRule r c b name) (\<lambda>_. True))" for b'
    by (rule disc_weaken [OF issueKey_drift key])
  show ?thesis unfolding ensureAccessKeyAndSecret_def
    apply (rule inv_drop, rule valid_readsI, intro valid_let)
    apply (rule disc_after, (intro lasting_rules)[1], (intro only_rules, simp)[1])
    apply (intro valid_sum valid_if)
      apply (rule disc_end, simp)
     apply (rule disc_then, (intro lasting_rules)[1], (intro only_rules, simp)[1], rule disc_end, simp, rule issue)
    apply (rule disc_then, (intro lasting_rules)[1], (intro only_rules, simp)[1], rule disc_end, simp)
    apply (intro valid_if, rule disc_end, simp, rule issue)
    done
next
  case False
  show ?thesis unfolding ensureAccessKeyAndSecret_def
    apply (rule valid_reads_inv)
    subgoal for s
    apply (rule inv_drop, intro valid_let)
    apply (rule valid_after [OF disc_step [where A = isRead and E = "\<lambda>x H. KGetSecret (b_Namespace (s_obj s)) (sr_Name (sp_SecretRef (b_Spec (s_obj s)))) (okVal x) \<in> H"]])
        apply (intro lasting_rules)
       apply (intro only_rules, simp)
      apply simp
     apply (erule getSecret_seen)
    apply (intro valid_sum valid_if)
      apply (rule disc_end, simp)
     apply (rule disc_then, (intro lasting_rules)[1], (intro only_rules, simp)[1], rule disc_end, simp)
     apply (rule disc_weaken [OF issueKey_drift], use False in \<open>auto simp: sameNeeds_def keyNeeded_def intro: secretLacksI\<close>)[1]
    apply (rule disc_check [where E = "\<lambda>x H. case x of Inl e \<Rightarrow> True | Inr ks \<Rightarrow> CListKeys g (Inr ks) \<in> H"])
        apply (intro lasting_rules)
       apply (intro only_rules, simp)
      apply (auto simp: ListAccessKeyIDs_def exec split: sum.splits)[1]
     apply (rule disc_end, simp)
    apply (intro valid_if, rule disc_end, simp)
    apply (rule disc_weaken [OF issueKey_drift], use False in \<open>auto simp: sameNeeds_def keyNeeded_def secretHasCreds_def intro: secretLacksI\<close>)
    done
    done
qed

lemma issueCredentials_drift:
  "valid (\<lambda>s. sameNeeds b s \<and> disc (driftRule r c b name) (workloadGroup r b name g) s) (issueCredentials r c g h u ch)
     (\<lambda>_. disc (driftRule r c b name) (\<lambda>_. True))"
  unfolding issueCredentials_def
  apply (rule valid_check [where E = "\<lambda>_. disc (driftRule r c b name) (\<lambda>_. True)" and R = "\<lambda>_. disc (driftRule r c b name) (\<lambda>_. True)"])
    apply (rule valid_weaken [OF ensureKey_drift], assumption, simp split: sum.split)
   apply (rule fail_drift)
  apply (intro valid_prod, rule disc_end, simp)
  done

text \<open>Issuing keeps what a pending clone needs of the history.\<close>

lemma issueCredentials_cloning:
  assumes "ClonePending b"
  shows "valid (disc (driftRule r c b name) (workloadGroup r b name g)) (issueCredentials r c g h u ch)
     (\<lambda>_. disc (driftRule r c b name) (workloadGroup r b name g))"
proof -
  have "valid (disc (driftRule r c b name) (workloadGroup r b name g)) (issueCredentials r c g h u ch) (\<lambda>_. disc (driftRule r c b name) (\<lambda>_. True))"
    by (rule valid_weaken [OF issueCredentials_drift]) (use assms in \<open>auto simp: sameNeeds_def\<close>)
  then show ?thesis
    by (rule disc_kept) ((intro lasting_rules)[1], unfold issueCredentials_def stops_def, intro only_rules, simp_all)
qed

lemma cloneStep_drift:
  assumes "ClonePending b"
  shows "valid (disc (driftRule r c b name) (workloadGroup r b name g)) (cloneStep r c name admin g urn h u rg ch)
     (\<lambda>_. disc (driftRule r c b name) (workloadGroup r b name g))"
proof -
  let ?G = "driftRule r c b name" and ?K = "workloadGroup r b name g"
  have K: "lasting ?K" by (intro lasting_rules)
  have issue: "valid (disc ?G ?K) (if hold then ret ([], ch)
      else andThen (issueCredentials r c g h u ch) (\<lambda>kc. andDo (recordPendingRotation r) (ret kc))) (\<lambda>_. disc ?G ?K)" for hold
    apply (intro valid_if)
     apply (rule disc_end, simp)
    apply (rule valid_andThen [where R = "\<lambda>_. disc ?G ?K"])
     apply (rule valid_weaken [OF issueCredentials_cloning [OF assms]], assumption, simp split: sum.split)
    apply (rule disc_after [OF K], (intro only_rules)[1], rule disc_end, simp)
    done
  have policy: "valid (disc ?G ?K) (applyPolicy r c name admin urn rg ch') (\<lambda>_. disc ?G ?K)" for ch'
    by (rule disc_kept [OF disc_weaken [OF applyPolicy_drift] K])
      (simp, unfold applyPolicy_def stops_def, intro only_rules, simp_all)
  show ?thesis unfolding cloneStep_def
    apply (rule valid_readsI)
    apply (rule valid_andThen [where R = "\<lambda>_. disc ?G ?K"])
     apply (rule valid_weaken [OF issue], assumption, simp split: sum.split)
    apply (intro valid_prod)
    apply (rule disc_after [OF K])
     apply (rule only_ensureClone; simp add: driftRule_clone assms)
    apply (intro valid_prod valid_if)
     apply (rule disc_end, simp)
    apply (rule valid_andThen [where R = "\<lambda>_. disc ?G ?K"])
     apply (rule valid_weaken [OF policy], assumption, simp split: sum.split)
    apply (rule disc_end, simp)
    done
qed

section \<open>The pass\<close>

lemma keeps_grants:
  assumes "aboutObj I"
  shows "keeps I (resolveReadGrants r c b admin groups)"
proof -
  note I = assms aboutObj_stable [OF assms]
  have "keeps I (resolveGrant r c b admin groups ref)" for ref
    unfolding resolveGrant_def pendingGrant_def by (intro keeps_rules keeps_resolve I)
  then have "keeps I (resolveGrants r c b admin groups refs acc)" for refs acc
    by (induction refs arbitrary: acc) (auto intro!: keeps_rules split: option.split)
  then show ?thesis by (simp add: resolveReadGrants_def)
qed

lemma keeps_policy: "aboutObj I \<Longrightarrow> keeps I (ensureBucketPolicy r c n admin u rs)"
  unfolding ensureBucketPolicy_def by (intro keeps_rules aboutObj_stable)

text \<open>What the pass notes in the status on its way leaves its needs alone.\<close>

lemma needs_kept:
  "keeps (sameNeeds b) (modStatus (\<lambda>t. t\<lparr>st_GrantedReadTo := x\<rparr>))"
  "keeps (sameNeeds b) (modStatus (\<lambda>t. t\<lparr>st_CredentialsGroupID := g, st_CredentialsGroupURN := u\<rparr>))"
  unfolding modStatus_def modObj_def
  by (rule keeps_sets, simp add: sameNeeds_def PendingRotationTrigger_def ClonePending_def CloneCompleted_def)+

lemma stops_inl: "valid P (stops m) Q \<Longrightarrow> valid P (stops m) (\<lambda>x s. Q x s \<and> (\<exists>res. x = Inl res))"
  by (auto simp: valid_def stops_def after_def fault_def split: prod.splits)

lemma applyPolicy_needs:
  assumes K: "lasting K"
  shows "valid (\<lambda>s. sameNeeds b s \<and> disc (driftRule r c b name) K s) (applyPolicy r c name admin u rg ch)
     (\<lambda>x. case x of Inl res \<Rightarrow> disc (driftRule r c b name) (\<lambda>_. True) | Inr y \<Rightarrow> (\<lambda>s. sameNeeds b s \<and> disc (driftRule r c b name) K s))"
  (is "valid ?P _ ?Q")
proof -
  let ?G = "driftRule r c b name"
  have "valid ?P (ensureBucketPolicy r c name admin u rs) (\<lambda>x. ?P)" for rs
    by (rule valid_weaken [OF valid_conj [OF disc_kept [OF disc_weaken [OF ensureBucketPolicy_drift] K] keeps_policy [OF aboutObj_sameNeeds]]])
      (simp, intro only_rules, simp_all)
  then have pol: "valid ?P (ensureBucketPolicy r c name admin u rs) (\<lambda>x. case x of Inl e \<Rightarrow> ?P | Inr y \<Rightarrow> ?P)" for rs
    by (rule valid_weaken) (auto split: sum.split)
  have stop: "valid ?P (stops (fail r e)) (\<lambda>_. disc ?G (\<lambda>_. True))" for e
    by (rule inv_drop, rule disc_weaken [OF fail_drift]) simp
  show ?thesis unfolding applyPolicy_def
    apply (rule inv_after [OF needs_kept(1) K], (intro only_rules)[1])
    apply (rule valid_check [OF pol])
     apply (rule valid_weaken [OF stops_inl [OF stop]], assumption, auto split: sum.splits)[1]
    apply (rule valid_end, simp)
    done
qed

lemma provision_drift:
  "valid (\<lambda>s. onObj b s \<and> disc (driftRule r c b name) (\<lambda>_. True) s)
    (provisionCredentialsAndClone r c name admin host burl fresh changes) (\<lambda>_. disc (driftRule r c b name) (\<lambda>_. True))"
  (is "valid _ _ ?Q")
proof -
  let ?G = "driftRule r c b name"
  have stop: "valid (disc ?G K) (stops (fail r e)) ?Q" "valid (disc ?G K) (stops (failNoRequeue r e)) ?Q" for K e
    by (rule disc_weaken [where K = "\<lambda>_. True"], rule stops_drift, intro lasting_rules, intro only_rules, assumption, simp)+
  have tail: "valid (\<lambda>s. sameNeeds b s \<and> disc ?G (workloadGroup r b name g) s)
      (andThen (if cloning then cloneStep r c name admin g urn host burl rg ch else ret ([], ch)) (\<lambda>(kid, ch).
      andThen (if kid = [] then issueCredentials r c g host burl ch else ret (kid, ch)) (\<lambda>(kid, ch). ret (f kid, ch)))) ?Q"
    if "cloning \<longrightarrow> ClonePending b" for cloning g urn rg ch and f :: "string \<Rightarrow> workloadCreds"
  proof -
    let ?R = "\<lambda>s. sameNeeds b s \<and> disc ?G (workloadGroup r b name g) s"
    have copy: "valid ?R (cloneStep r c name admin g urn host burl rg ch) (\<lambda>_. ?R)" if c: "ClonePending b"
      by (rule valid_weaken [OF cloneStep_drift [OF c]]) (use c in \<open>auto simp: sameNeeds_def\<close>)
    have issue: "valid ?R (issueCredentials r c g host burl ch) (\<lambda>x. case x of Inl e \<Rightarrow> disc ?G (\<lambda>_. True) | Inr y \<Rightarrow> disc ?G (\<lambda>_. True))" for ch
      by (rule valid_weaken [OF issueCredentials_drift]) (auto split: sum.split)
    show ?thesis
      apply (rule valid_andThen [where R = "\<lambda>_. ?R"])
       apply (intro valid_if)
        apply (rule valid_weaken [OF copy], use that in simp, assumption, auto simp: disc_def split: sum.split)[1]
       apply (rule valid_end, simp)
      apply (intro valid_prod)
      apply (rule valid_check [where E = "\<lambda>_. disc ?G (\<lambda>_. True)" and R = "\<lambda>_. disc ?G (\<lambda>_. True)"])
        apply (intro valid_if issue)
        apply (rule valid_end, simp add: disc_def)
       apply (rule disc_end, simp)
      apply (intro valid_prod, rule disc_end, simp)
      done
  qed
  have rest: "valid (\<lambda>s. sameNeeds b s \<and> disc ?G (\<lambda>H. CListGroups (Some groups) \<in> H \<and> workloadGroup r b name g H) s)
      (reads (\<lambda>s. check (resolveReadGrants r c (s_obj s) admin groups)
       (\<lambda>err. stops (fail r (wrapf ''resolve read grants: '' err))) (\<lambda>rg. reads (\<lambda>s.
     let cloning = ClonePending (s_obj s) in
     andThen (applyPolicy r c name admin urn (if cloning then ([], []) else rg) ch) (\<lambda>ch. reads (\<lambda>s.
     case validateCloneSource (s_obj s) name host of
       Some verr \<Rightarrow> stops (failNoRequeue r verr)
     | None \<Rightarrow>
         andThen (if cloning then cloneStep r c name admin g urn host burl rg ch else ret ([], ch)) (\<lambda>(kid, ch).
         andThen (if kid = [] then issueCredentials r c g host burl ch else ret (kid, ch)) (\<lambda>(kid, ch).
           ret (\<lparr>wc_gid = g, wc_urn = urn, wc_accessKeyID = kid, wc_grantedTo = snd rg\<rparr>, ch))))))))) ?Q" for groups g urn ch
  proof -
    let ?K = "\<lambda>H. CListGroups (Some groups) \<in> H \<and> workloadGroup r b name g H"
    let ?R = "\<lambda>s. sameNeeds b s \<and> disc ?G ?K s"
    have K: "lasting ?K" by (intro lasting_rules)
    have grants: "valid ?R (resolveReadGrants r c b' admin groups) (\<lambda>x. case x of Inl e \<Rightarrow> ?R | Inr y \<Rightarrow> ?R)" for b'
      by (rule valid_weaken [OF valid_conj [OF disc_kept [OF disc_weaken [OF resolveGrants_drift [where groups = groups]] K] keeps_grants [OF aboutObj_sameNeeds]]])
        (simp, rule only_resolveGrants, simp_all split: sum.split)
    show ?thesis
      apply (rule valid_readsI)
      apply (rule valid_check [OF grants])
       apply (rule inv_drop, rule stop)
      apply (rule valid_reads_inv, intro valid_let)
      apply (rule valid_andThen [where R = "\<lambda>_. ?R"])
       apply (rule valid_weaken [OF applyPolicy_needs [OF K]], assumption, auto split: sum.split)[1]
      apply (rule valid_readsI, intro valid_option)
       apply (rule valid_weaken [OF tail], (simp add: sameNeeds_def, blast)[1], simp add: disc_def, assumption)
      apply (rule inv_drop, rule stop)
      done
  qed
  have resolve: "valid (\<lambda>s. onObj b s \<and> disc ?G (\<lambda>H. CListGroups (Some groups) \<in> H) s)
      (resolveWorkloadGroup r c b name admin groups True fresh)
      (\<lambda>x. case x of Inl e \<Rightarrow> disc ?G (\<lambda>_. True) | Inr res \<Rightarrow> (\<lambda>s. sameNeeds b s \<and>
         disc ?G (\<lambda>H. CListGroups (Some groups) \<in> H \<and> workloadGroup r b name (wg_id (fst res)) H) s))" for groups
  proof -
    let ?L = "\<lambda>H. CListGroups (Some groups) \<in> H"
    have "valid (disc ?G ?L) (resolveWorkloadGroup r c b name admin groups True fresh) (\<lambda>x. disc ?G (\<lambda>H. ?L H \<and>
        (case x of Inl e \<Rightarrow> True | Inr res \<Rightarrow> ?L H \<longrightarrow> workloadGroup r b name (wg_id (fst res)) H)))"
      by (rule disc_evidence [OF resolve_drift]) (simp, intro lasting_rules, rule only_weaken [OF only_resolveWorkloadGroup], simp,
        erule resolve_evidence)
    from valid_conj [OF this keeps_resolve [OF aboutObj_onObj]] show ?thesis
      by (rule valid_weaken) (auto simp: disc_def onObj_def sameNeeds_def split: sum.splits)
  qed
  show ?thesis unfolding provisionCredentialsAndClone_def listGroups_def
    apply (rule inv_check [where E = "\<lambda>x H. case x of Inl e \<Rightarrow> True | Inr gs \<Rightarrow> CListGroups (Some gs) \<in> H"])
         apply (intro keeps_rules ext_stable_onObj)
        apply (intro lasting_rules)
       apply (intro only_rules, simp)
      apply (erule ListGroups_seen)
     apply (rule inv_drop, rule stop)
    apply (rule valid_reads_inv, drule onObjD, simp only: sum.case simp_thms)
    apply (rule valid_check [OF resolve])
     apply (rule disc_weaken [OF stop(1)], assumption)
    apply (intro valid_prod valid_let, simp only: fst_conv)
    apply (rule inv_after [OF needs_kept(2)], (intro lasting_rules)[1], (intro only_rules)[1])
    apply (rule rest)
    done
qed

lemma provisionBucket_drift:
  "valid (\<lambda>s. onObj b s \<and> disc (driftRule r c b name) (\<lambda>_. True) s) (provisionBucket r c name changes)
     (\<lambda>_. disc (driftRule r c b name) (\<lambda>_. True))"
proof -
  let ?G = "driftRule r c b name" and ?P = "\<lambda>s. onObj b s \<and> disc (driftRule r c b name) (\<lambda>_. True) s"
  have stop: "valid ?P (stops m) (\<lambda>_. disc ?G (\<lambda>_. True))" if "\<And>A. (\<And>b y. A (KUpdateStatus b y)) \<Longrightarrow> calls_only A m" for m
    by (rule inv_drop, rule stops_drift, intro lasting_rules, rule that)
  have step: "valid ?P (check m (\<lambda>e. stops (h e)) k) (\<lambda>_. disc ?G (\<lambda>_. True))"
    if "valid (disc ?G (\<lambda>_. True)) m (\<lambda>_. disc ?G (\<lambda>_. True))" and "keeps (onObj b) m"
      and "\<And>e A. (\<And>b y. A (KUpdateStatus b y)) \<Longrightarrow> calls_only A (h e)" and "\<And>a. valid ?P (k a) (\<lambda>_. disc ?G (\<lambda>_. True))"
    for m :: "('a st, go_error + 'x) handler" and h and k :: "'x \<Rightarrow> ('a st, Result + Result) handler"
    unfolding check_as_after
    by (rule valid_after [OF valid_conj [OF that(1,2)]]) (auto split: sum.split intro: that(4) stop that(3))
  have guard: "valid ?P (guardBucketPresent r c name) (\<lambda>x. case x of Inl res \<Rightarrow> disc ?G (\<lambda>_. True) | Inr y \<Rightarrow> ?P)"
  proof -
    have only: "calls_only (\<lambda>ca. \<forall>H. True \<longrightarrow> ?G ca H) (guardBucketPresent r c name)"
      unfolding guardBucketPresent_def stops_def by (intro only_rules) simp_all
    have "valid (disc ?G (\<lambda>_. True)) (guardBucketPresent r c name) (\<lambda>_. disc ?G (\<lambda>_. True))"
      by (rule disc_only [OF _ only]) (intro lasting_rules, simp)
    moreover have "s_obj s' = s_obj s" if "guardBucketPresent r c name s = (Inr y, s')" for s s' y
      using that by (auto simp: guardBucketPresent_def stops_def BucketExists_def Let_def exec split: sum.splits if_splits)
    ultimately show ?thesis by (fastforce simp: valid_def onObj_def split: sum.splits)
  qed
  show ?thesis unfolding provisionBucket_def
    apply (rule step [OF ensureAdmin_drift keeps_ensureAdmin [OF aboutObj_onObj]], (intro only_rules; assumption)[1])
    apply (rule step [OF EnsureService_drift], rule keeps_EnsureService, simp, simp add: onObj_def, (intro only_rules; assumption)[1])
    apply (rule valid_andThen [where R = "\<lambda>_. ?P"])
     apply (rule valid_weaken [OF guard], assumption, auto split: sum.splits)[1]
    apply (rule valid_reads_inv, drule onObjD, simp only:)
    apply (rule step [OF ensureBucket_drift keeps_ensureBucket [OF aboutObj_onObj]], (intro only_rules; assumption)[1])
    apply (intro valid_let)
    apply (rule inv_after [OF keeps_reportRecreate [OF aboutObj_onObj]], (intro lasting_rules)[1])
     apply (unfold reportAuthorizedRecreate_def, (intro only_rules only_sets; simp)[1])
    apply (rule step, rule disc_only, (intro lasting_rules)[1], (intro only_rules, simp)[1], simp, (intro keeps_rules ext_stable_onObj)[1],
        (intro only_rules; assumption)[1])
    apply (intro valid_prod)
    apply (rule valid_andThen [where R = "\<lambda>_. disc ?G (\<lambda>_. True)"])
     apply (rule valid_weaken [OF provision_drift], assumption, simp split: sum.split)
    apply (intro valid_prod)
    apply (rule disc_only, (intro lasting_rules)[1], rule only_finishPass, simp, simp)
    done
qed

section \<open>Property\<close>


text \<open>A pass over a project that has the bucket, untagged and empty, while the groups cannot be listed.\<close>

definition untaggedState :: "fworld st" where
  "untaggedState = (fakeState (emptyWorld\<lparr>fw_crs := [sampleBucket],
     fw_cloud := FailNext ''ListGroups'' 503 (SeedBucket ''c1-team-data'' [] (fw_cloud emptyWorld))\<rparr>) sampleBucket)\<lparr>s_admin := Some fakeAdmin\<rparr>"


end
