(* ===== verification/DeepCopy.thy ===== *)
theory DeepCopy
  imports BucketTypes
begin

text \<open>
  The generated copies of \<open>api/v1/zz_generated.deepcopy.go\<close> on a store of shared cells. Everywhere else
  the API objects are values; here a pointer, slice or map field is an address (\<open>None\<close> is \<open>nil\<close>), so
  that two objects can share memory. The raw structs are read as the records of \<open>BucketTypes\<close>
  (\<open>bucketOf\<close> and its parts). \<open>deep_copy_separate\<close>: a copy reads as its original and shares no cell with
  it. The patches of the measurement, \<open>client.MergeFrom(b.DeepCopy())\<close>, rely on it; \<open>patch_base_kept\<close>
  follows one of them through the writes to the shared memory.

  A slice is the address of its elements. A pointer to a cell of another type, which Go has not, reads as
  nothing and copies to \<open>nil\<close>. \<open>metav1.Time\<close>, \<open>metav1.ObjectMeta\<close> and \<open>metav1.Condition\<close>
  are copied by apimachinery, which is a record of functions with their documented behaviour as the
  laws of the locale \<open>apimachinery\<close>. \<open>TypeMeta\<close> and \<open>ListMeta\<close> are not carried.
\<close>

section \<open>Structs and store\<close>

record rawCloneFrom =
  rcf_Endpoint :: string
  rcf_Bucket :: string
  rcf_Region :: string
  rcf_AddressingStyle :: string
  rcf_SecretRef :: CloneSourceSecretRef
  rcf_HoldSecretUntilCloned :: "nat option"

record rawUsageSpec =
  rus_Enabled :: "nat option"
  rus_Interval :: string
  rus_IncludeVersions :: "nat option"

record rawBucketSpec =
  rsp_BucketName :: string
  rsp_SecretRef :: SecretReference
  rsp_GrantReadAccess :: "nat option"
  rsp_Region :: string
  rsp_CloneFrom :: "nat option"
  rsp_WipeOnDelete :: bool
  rsp_AllowRecreate :: bool
  rsp_Usage :: "nat option"

record rawCloneStatus =
  rcl_Phase :: ClonePhase
  rcl_StartedAt :: "nat option"
  rcl_CompletedAt :: "nat option"
  rcl_TotalBytes :: int
  rcl_BytesCopied :: int
  rcl_Progress :: string
  rcl_Rate :: string
  rcl_ETA :: string
  rcl_Message :: string

record rawUsageStatus =
  ru_Bytes :: int
  ru_Objects :: int
  ru_VersionBytes :: int
  ru_VersionObjects :: int
  ru_BillableBytes :: int
  ru_HumanReadable :: string
  ru_EstimatedMonthlyCost :: string
  ru_EstimatedMonthlyCostCents :: int
  ru_Currency :: string
  ru_LastMeasurementTime :: "nat option"
  ru_MeasurementDuration :: string
  ru_Truncated :: bool
  ru_Message :: string

record rawBucketStatus =
  rst_Phase :: BucketPhase
  rst_Message :: string
  rst_ObservedGeneration :: int
  rst_ResolvedBucketName :: string
  rst_BucketURL :: string
  rst_CredentialsGroupID :: string
  rst_CredentialsGroupURN :: string
  rst_AccessKeyID :: string
  rst_GrantedReadTo :: "nat option"
  rst_Clone :: "nat option"
  rst_LastRotationTrigger :: string
  rst_LastRotationTime :: "nat option"
  rst_LastVerifiedTime :: "nat option"
  rst_DegradedSince :: "nat option"
  rst_OperatorVersion :: string
  rst_Usage :: "nat option"
  rst_Conditions :: "nat option"

record rawMeta =
  rm_Namespace :: string
  rm_Name :: string
  rm_UID :: string
  rm_Generation :: int
  rm_Annotations :: "nat option"
  rm_Finalizers :: "nat option"
  rm_DeletionTimestamp :: "nat option"

record rawBucket =
  rb_Meta :: rawMeta
  rb_Spec :: rawBucketSpec
  rb_Status :: rawBucketStatus

record rawBucketList =
  rl_Items :: "nat option"

text \<open>What a cell can hold.\<close>

datatype cell =
    BoolC bool
  | TimeC int
  | StringsC "string list"
  | MapC "string gomap"
  | RefsC "LocalBucketReference list"
  | ConditionsC "Condition list"
  | NamingC BucketNaming
  | KeysC SecretKeys
  | SecretRefC SecretReference
  | ValuesC SecretValues
  | SourceKeysC CloneSourceSecretKeys
  | SourceRefC CloneSourceSecretRef
  | LocalRefC LocalBucketReference
  | CloneFromC rawCloneFrom
  | UsageSpecC rawUsageSpec
  | SpecC rawBucketSpec
  | CloneStatusC rawCloneStatus
  | UsageStatusC rawUsageStatus
  | StatusC rawBucketStatus
  | BucketC rawBucket
  | BucketsC "rawBucket list"
  | ListC rawBucketList

text \<open>What a typed pointer reads from a cell.\<close>

definition asBool :: "cell option \<Rightarrow> bool option" where
  "asBool c = (case c of Some (BoolC x) \<Rightarrow> Some x | _ \<Rightarrow> None)"
definition asTime :: "cell option \<Rightarrow> int option" where
  "asTime c = (case c of Some (TimeC x) \<Rightarrow> Some x | _ \<Rightarrow> None)"
definition asStrings :: "cell option \<Rightarrow> (string list) option" where
  "asStrings c = (case c of Some (StringsC x) \<Rightarrow> Some x | _ \<Rightarrow> None)"
definition asMap :: "cell option \<Rightarrow> (string gomap) option" where
  "asMap c = (case c of Some (MapC x) \<Rightarrow> Some x | _ \<Rightarrow> None)"
definition asRefs :: "cell option \<Rightarrow> (LocalBucketReference list) option" where
  "asRefs c = (case c of Some (RefsC x) \<Rightarrow> Some x | _ \<Rightarrow> None)"
definition asConditions :: "cell option \<Rightarrow> (Condition list) option" where
  "asConditions c = (case c of Some (ConditionsC x) \<Rightarrow> Some x | _ \<Rightarrow> None)"
definition asNaming :: "cell option \<Rightarrow> BucketNaming option" where
  "asNaming c = (case c of Some (NamingC x) \<Rightarrow> Some x | _ \<Rightarrow> None)"
definition asKeys :: "cell option \<Rightarrow> SecretKeys option" where
  "asKeys c = (case c of Some (KeysC x) \<Rightarrow> Some x | _ \<Rightarrow> None)"
definition asSecretRef :: "cell option \<Rightarrow> SecretReference option" where
  "asSecretRef c = (case c of Some (SecretRefC x) \<Rightarrow> Some x | _ \<Rightarrow> None)"
definition asValues :: "cell option \<Rightarrow> SecretValues option" where
  "asValues c = (case c of Some (ValuesC x) \<Rightarrow> Some x | _ \<Rightarrow> None)"
definition asSourceKeys :: "cell option \<Rightarrow> CloneSourceSecretKeys option" where
  "asSourceKeys c = (case c of Some (SourceKeysC x) \<Rightarrow> Some x | _ \<Rightarrow> None)"
definition asSourceRef :: "cell option \<Rightarrow> CloneSourceSecretRef option" where
  "asSourceRef c = (case c of Some (SourceRefC x) \<Rightarrow> Some x | _ \<Rightarrow> None)"
definition asLocalRef :: "cell option \<Rightarrow> LocalBucketReference option" where
  "asLocalRef c = (case c of Some (LocalRefC x) \<Rightarrow> Some x | _ \<Rightarrow> None)"
definition asCloneFrom :: "cell option \<Rightarrow> rawCloneFrom option" where
  "asCloneFrom c = (case c of Some (CloneFromC x) \<Rightarrow> Some x | _ \<Rightarrow> None)"
definition asUsageSpec :: "cell option \<Rightarrow> rawUsageSpec option" where
  "asUsageSpec c = (case c of Some (UsageSpecC x) \<Rightarrow> Some x | _ \<Rightarrow> None)"
definition asSpec :: "cell option \<Rightarrow> rawBucketSpec option" where
  "asSpec c = (case c of Some (SpecC x) \<Rightarrow> Some x | _ \<Rightarrow> None)"
definition asCloneStatus :: "cell option \<Rightarrow> rawCloneStatus option" where
  "asCloneStatus c = (case c of Some (CloneStatusC x) \<Rightarrow> Some x | _ \<Rightarrow> None)"
definition asUsageStatus :: "cell option \<Rightarrow> rawUsageStatus option" where
  "asUsageStatus c = (case c of Some (UsageStatusC x) \<Rightarrow> Some x | _ \<Rightarrow> None)"
definition asStatus :: "cell option \<Rightarrow> rawBucketStatus option" where
  "asStatus c = (case c of Some (StatusC x) \<Rightarrow> Some x | _ \<Rightarrow> None)"
definition asBucket :: "cell option \<Rightarrow> rawBucket option" where
  "asBucket c = (case c of Some (BucketC x) \<Rightarrow> Some x | _ \<Rightarrow> None)"
definition asBuckets :: "cell option \<Rightarrow> (rawBucket list) option" where
  "asBuckets c = (case c of Some (BucketsC x) \<Rightarrow> Some x | _ \<Rightarrow> None)"
definition asList :: "cell option \<Rightarrow> rawBucketList option" where
  "asList c = (case c of Some (ListC x) \<Rightarrow> Some x | _ \<Rightarrow> None)"

lemma cell_types [simp]:
  shows "asBool (Some (BoolC x)) = Some x"
  and "asTime (Some (TimeC x1)) = Some x1"
  and "asStrings (Some (StringsC x2)) = Some x2"
  and "asMap (Some (MapC x3)) = Some x3"
  and "asRefs (Some (RefsC x4)) = Some x4"
  and "asConditions (Some (ConditionsC x5)) = Some x5"
  and "asNaming (Some (NamingC x6)) = Some x6"
  and "asKeys (Some (KeysC x7)) = Some x7"
  and "asSecretRef (Some (SecretRefC x8)) = Some x8"
  and "asValues (Some (ValuesC x9)) = Some x9"
  and "asSourceKeys (Some (SourceKeysC x10)) = Some x10"
  and "asSourceRef (Some (SourceRefC x11)) = Some x11"
  and "asLocalRef (Some (LocalRefC x12)) = Some x12"
  and "asCloneFrom (Some (CloneFromC x13)) = Some x13"
  and "asUsageSpec (Some (UsageSpecC x14)) = Some x14"
  and "asSpec (Some (SpecC x15)) = Some x15"
  and "asCloneStatus (Some (CloneStatusC x16)) = Some x16"
  and "asUsageStatus (Some (UsageStatusC x17)) = Some x17"
  and "asStatus (Some (StatusC x18)) = Some x18"
  and "asBucket (Some (BucketC x19)) = Some x19"
  and "asBuckets (Some (BucketsC x20)) = Some x20"
  and "asList (Some (ListC x21)) = Some x21"
  by (simp_all add: asBool_def asTime_def asStrings_def asMap_def asRefs_def asConditions_def asNaming_def
    asKeys_def asSecretRef_def asValues_def asSourceKeys_def asSourceRef_def asLocalRef_def asCloneFrom_def
    asUsageSpec_def asSpec_def asCloneStatus_def asUsageStatus_def asStatus_def asBucket_def asBuckets_def asList_def)

record store =
  cells :: "nat \<Rightarrow> cell option"
  lim :: nat

definition put :: "nat \<Rightarrow> cell \<Rightarrow> store \<Rightarrow> store" where
  "put a v h = h\<lparr>cells := (cells h)(a := Some v)\<rparr>"

definition alloc :: "cell \<Rightarrow> store \<Rightarrow> nat \<times> store" where
  "alloc v h = (lim h, (put (lim h) v h)\<lparr>lim := Suc (lim h)\<rparr>)"

text \<open>The later store has all cells of the earlier one, unchanged.\<close>

definition extends :: "store \<Rightarrow> store \<Rightarrow> bool" where
  "extends h h' \<longleftrightarrow> lim h \<le> lim h' \<and> (\<forall>a < lim h. cells h' a = cells h a)"

lemma extends_refl [simp]: "extends h h"
  by (simp add: extends_def)

lemma extends_trans: "extends h1 h2 \<Longrightarrow> extends h2 h3 \<Longrightarrow> extends h1 h3"
  by (auto simp: extends_def)

section \<open>Copying\<close>

text \<open>A pointer is \<open>nil\<close> or leads to a cell, which is read with \<open>un\<close>; \<open>newCopy\<close> is \<open>new(T)\<close> followed
  by \<open>DeepCopyInto\<close>, as in every \<open>DeepCopy\<close> and every pointer field.\<close>

definition ptrVal :: "(cell option \<Rightarrow> 'r option) \<Rightarrow> (store \<Rightarrow> 'r \<Rightarrow> 'v) \<Rightarrow> store \<Rightarrow> nat option \<Rightarrow> 'v option" where
  "ptrVal un val h p = (case p of None \<Rightarrow> None | Some a \<Rightarrow> map_option (val h) (un (cells h a)))"

definition ptrAt :: "(cell option \<Rightarrow> 'r option) \<Rightarrow> (store \<Rightarrow> 'r \<Rightarrow> nat set) \<Rightarrow> store \<Rightarrow> nat option \<Rightarrow> nat set" where
  "ptrAt un at h p = (case p of None \<Rightarrow> {} | Some a \<Rightarrow> insert a (case un (cells h a) of None \<Rightarrow> {} | Some x \<Rightarrow> at h x))"

definition newCopy :: "('r \<Rightarrow> cell) \<Rightarrow> (cell option \<Rightarrow> 'r option) \<Rightarrow> ('r \<Rightarrow> store \<Rightarrow> 'r \<times> store) \<Rightarrow> nat option \<Rightarrow> store
    \<Rightarrow> nat option \<times> store" where
  "newCopy mk un cp p h =
     (case p of None \<Rightarrow> (None, h)
      | Some a \<Rightarrow> (case un (cells h a) of None \<Rightarrow> (None, h)
         | Some x \<Rightarrow> (case alloc (mk x) h of (q, h1) \<Rightarrow> case cp x h1 of (y, h2) \<Rightarrow> (Some q, put q (mk y) h2))))"

text \<open>\<open>*out = *in\<close>, and a slice whose elements are copied one by one.\<close>

definition assign :: "'r \<Rightarrow> store \<Rightarrow> 'r \<times> store" where
  "assign x h = (x, h)"

fun eachCopy :: "('r \<Rightarrow> store \<Rightarrow> 'r \<times> store) \<Rightarrow> 'r list \<Rightarrow> store \<Rightarrow> 'r list \<times> store" where
  "eachCopy cp [] h = ([], h)"
| "eachCopy cp (x # xs) h = (case cp x h of (y, h1) \<Rightarrow> case eachCopy cp xs h1 of (ys, h2) \<Rightarrow> (y # ys, h2))"

definition bothCopy :: "('a \<Rightarrow> store \<Rightarrow> 'a \<times> store) \<Rightarrow> ('b \<Rightarrow> store \<Rightarrow> 'b \<times> store) \<Rightarrow> 'a \<times> 'b \<Rightarrow> store \<Rightarrow> ('a \<times> 'b) \<times> store" where
  "bothCopy cp1 cp2 x h = (case cp1 (fst x) h of (y1, h1) \<Rightarrow> case cp2 (snd x) h1 of (y2, h2) \<Rightarrow> ((y1, y2), h2))"

text \<open>The contract of a copy: reading depends only on the cells reached; the copy reads as the original
  did and reaches only new cells.\<close>

locale copying =
  fixes val :: "store \<Rightarrow> 'r \<Rightarrow> 'v" and at :: "store \<Rightarrow> 'r \<Rightarrow> nat set" and cp :: "'r \<Rightarrow> store \<Rightarrow> 'r \<times> store"
  assumes frame: "\<forall>a \<in> at h x. cells h' a = cells h a \<Longrightarrow> val h' x = val h x \<and> at h' x = at h x"
    and copies: "cp x h = (y, h') \<Longrightarrow> at h x \<subseteq> {..<lim h} \<Longrightarrow>
      extends h h' \<and> val h' y = val h x \<and> at h' y \<subseteq> {lim h..<lim h'}"
begin

lemma extended: "extends h h' \<Longrightarrow> at h x \<subseteq> {..<lim h} \<Longrightarrow> val h' x = val h x \<and> at h' x = at h x \<and> at h x \<subseteq> {..<lim h'}"
  using frame [of h x h'] by (fastforce simp: extends_def)

lemma kept: "extends h h' \<Longrightarrow> at h x \<subseteq> {lo..<lim h} \<Longrightarrow> val h' x = val h x \<and> at h' x = at h x \<and> at h' x \<subseteq> {lo..<lim h'}"
  using frame [of h x h'] by (fastforce simp: extends_def)

lemma put_outside: "a \<notin> at h x \<Longrightarrow> val (put a v h) x = val h x \<and> at (put a v h) x = at h x"
  by (rule frame) (auto simp: put_def)

text \<open>The original is left alone, and writes through either of the two do not show in the other.\<close>

lemma separate:
  assumes "cp x h = (y, h')" and "at h x \<subseteq> {..<lim h}"
  shows "val h' y = val h x \<and> val h' x = val h x \<and> at h' x = at h x \<and> at h' y \<inter> at h' x = {} \<and>
    (\<forall>a \<in> at h' y. \<forall>v. val (put a v h') x = val h x) \<and> (\<forall>a \<in> at h' x. \<forall>v. val (put a v h') y = val h x)"
proof -
  from copies [OF assms] have c: "extends h h'" "val h' y = val h x" "at h' y \<subseteq> {lim h..<lim h'}" by auto
  from extended [OF c(1) assms(2)] have o: "val h' x = val h x" "at h' x = at h x" by auto
  then have d: "at h' y \<inter> at h' x = {}" using c(3) assms(2) by fastforce
  have "\<forall>a \<in> at h' y. \<forall>v. val (put a v h') x = val h x" using put_outside [of _ h' x] d o(1) by auto
  moreover have "\<forall>a \<in> at h' x. \<forall>v. val (put a v h') y = val h x" using put_outside [of _ h' y] d c(2) by auto
  ultimately show ?thesis using c(2) o d by blast
qed

lemma pointer:
  assumes "\<And>x. un (Some (mk x)) = Some x"
  shows "copying (ptrVal un val) (ptrAt un at) (newCopy mk un cp)"
proof
  fix h h' :: store and p
  assume "\<forall>a \<in> ptrAt un at h p. cells h' a = cells h a"
  then show "ptrVal un val h' p = ptrVal un val h p \<and> ptrAt un at h' p = ptrAt un at h p"
    using frame [of h _ h'] by (cases p; cases "un (cells h (the p))") (simp_all add: ptrVal_def ptrAt_def)
next
  fix p q and h h3 :: store
  assume run: "newCopy mk un cp p h = (q, h3)" and below: "ptrAt un at h p \<subseteq> {..<lim h}"
  show "extends h h3 \<and> ptrVal un val h3 q = ptrVal un val h p \<and> ptrAt un at h3 q \<subseteq> {lim h..<lim h3}"
  proof (cases "\<exists>a x. p = Some a \<and> un (cells h a) = Some x")
    case False
    with run show ?thesis by (auto simp: newCopy_def ptrVal_def ptrAt_def split: option.splits)
  next
    case True
    then obtain a x where p: "p = Some a" and x: "un (cells h a) = Some x" by auto
    define h1 where "h1 = snd (alloc (mk x) h)"
    obtain y h2 where c: "cp x h1 = (y, h2)" by fastforce
    from run p x c have q: "q = Some (lim h)" and h3: "h3 = put (lim h) (mk y) h2"
      by (auto simp: newCopy_def alloc_def h1_def)
    have e1: "extends h h1" and l1: "lim h1 = Suc (lim h)" by (auto simp: h1_def alloc_def put_def extends_def)
    from below p x have b: "at h x \<subseteq> {..<lim h}" by (simp add: ptrAt_def)
    from extended [OF e1 b] have v1: "val h1 x = val h x" "at h1 x \<subseteq> {..<lim h1}" by auto
    from copies [OF c v1(2)] have e2: "extends h1 h2" and v2: "val h2 y = val h x" and n: "at h2 y \<subseteq> {Suc (lim h)..<lim h2}"
      by (auto simp: v1(1) l1)
    from n have "val h3 y = val h2 y \<and> at h3 y = at h2 y" by (intro frame) (auto simp: h3 put_def)
    moreover have "extends h h3" using e1 e2 by (auto simp: h3 put_def extends_def)
    moreover have "lim h < lim h3" using e2 l1 by (simp add: h3 put_def extends_def)
    ultimately show ?thesis using v2 n p x assms by (auto simp: q h3 ptrVal_def ptrAt_def put_def)
  qed
qed

lemma each: "copying (\<lambda>h. map (val h)) (\<lambda>h xs. \<Union>(at h ` set xs)) (eachCopy cp)"
proof
  fix h h' :: store and xs
  assume "\<forall>a \<in> \<Union>(at h ` set xs). cells h' a = cells h a"
  then show "map (val h') xs = map (val h) xs \<and> \<Union>(at h' ` set xs) = \<Union>(at h ` set xs)"
    using frame [of h _ h'] by (auto 0 3)
next
  fix xs ys and h h' :: store
  assume "eachCopy cp xs h = (ys, h')" and "\<Union>(at h ` set xs) \<subseteq> {..<lim h}"
  then show "extends h h' \<and> map (val h') ys = map (val h) xs \<and> \<Union>(at h' ` set ys) \<subseteq> {lim h..<lim h'}"
  proof (induction xs arbitrary: h ys)
    case (Cons x xs)
    obtain y h1 where c: "cp x h = (y, h1)" by fastforce
    obtain zs h2 where e: "eachCopy cp xs h1 = (zs, h2)" by fastforce
    from Cons.prems(1) c e have r: "ys = y # zs" "h' = h2" by auto
    from Cons.prems(2) copies [OF c] have c1: "extends h h1" "val h1 y = val h x" "at h1 y \<subseteq> {lim h..<lim h1}" by auto
    have "val h1 z = val h z \<and> at h1 z \<subseteq> {..<lim h1}" if "z \<in> set xs" for z
      using extended [OF c1(1), of z] Cons.prems(2) that by auto
    then have o: "map (val h1) xs = map (val h) xs" "\<Union>(at h1 ` set xs) \<subseteq> {..<lim h1}" by auto
    from Cons.IH [OF e [folded r(2)] o(2)] have c2: "extends h1 h'" "map (val h') zs = map (val h) xs"
      "\<Union>(at h' ` set zs) \<subseteq> {lim h1..<lim h'}" by (auto simp: o(1))
    have k: "val h' y = val h1 y" "at h' y \<subseteq> {lim h..<lim h'}" using kept [OF c2(1) c1(3)] by auto
    have "{lim h1..<lim h'} \<subseteq> {lim h..<lim h'}" using c1(1) by (auto simp: extends_def)
    with c1(2) c2(2,3) k extends_trans [OF c1(1) c2(1)] show ?case by (simp add: r subset_trans)
  qed simp
qed

end

lemma copying_both:
  assumes "copying v1 a1 c1" and "copying v2 a2 c2"
  shows "copying (\<lambda>h x. (v1 h (fst x), v2 h (snd x))) (\<lambda>h x. a1 h (fst x) \<union> a2 h (snd x)) (bothCopy c1 c2)"
proof
  fix h h' :: store and x
  assume "\<forall>a \<in> a1 h (fst x) \<union> a2 h (snd x). cells h' a = cells h a"
  then show "(v1 h' (fst x), v2 h' (snd x)) = (v1 h (fst x), v2 h (snd x)) \<and>
      a1 h' (fst x) \<union> a2 h' (snd x) = a1 h (fst x) \<union> a2 h (snd x)"
    using copying.frame [OF assms(1), of h "fst x" h'] copying.frame [OF assms(2), of h "snd x" h'] by simp
next
  fix x y and h h2 :: store
  assume run: "bothCopy c1 c2 x h = (y, h2)" and below: "a1 h (fst x) \<union> a2 h (snd x) \<subseteq> {..<lim h}"
  obtain y1 h1 where c1: "c1 (fst x) h = (y1, h1)" by fastforce
  obtain y2 where c2: "c2 (snd x) h1 = (y2, h2)" and y: "y = (y1, y2)"
    using run by (auto simp: bothCopy_def c1 split: prod.splits)
  from copying.copies [OF assms(1) c1] below
  have k1: "extends h h1" "v1 h1 y1 = v1 h (fst x)" "a1 h1 y1 \<subseteq> {lim h..<lim h1}" by auto
  from copying.extended [OF assms(2) k1(1), of "snd x"] below
  have o: "v2 h1 (snd x) = v2 h (snd x)" "a2 h1 (snd x) \<subseteq> {..<lim h1}" by auto
  from copying.copies [OF assms(2) c2 o(2)]
  have k2: "extends h1 h2" "v2 h2 y2 = v2 h (snd x)" "a2 h2 y2 \<subseteq> {lim h1..<lim h2}" by (auto simp: o(1))
  have k: "v1 h2 y1 = v1 h1 y1" "a1 h2 y1 \<subseteq> {lim h..<lim h2}" using copying.kept [OF assms(1) k2(1) k1(3)] by auto
  have "{lim h1..<lim h2} \<subseteq> {lim h..<lim h2}" using k1(1) by (auto simp: extends_def)
  with k1(2) k2(2,3) k extends_trans [OF k1(1) k2(1)]
  show "extends h h2 \<and> (v1 h2 (fst y), v2 h2 (snd y)) = (v1 h (fst x), v2 h (snd x)) \<and>
      a1 h2 (fst y) \<union> a2 h2 (snd y) \<subseteq> {lim h..<lim h2}"
    by (simp add: y subset_trans)
qed

text \<open>A struct: \<open>sel\<close> collects its pointer fields and \<open>upd\<close> replaces them; the other fields are plain.\<close>

lemma copying_struct:
  assumes parts: "copying v a c"
    and fields: "\<And>x. upd x (sel x) = x" "\<And>x t. sel (upd x t) = t"
    and read: "\<And>h h' x t. v h' t = v h (sel x) \<Longrightarrow> val h' (upd x t) = val h x" "\<And>h x. at h x = a h (sel x)"
    and run: "\<And>x h. cp x h = (case c (sel x) h of (t, h') \<Rightarrow> (upd x t, h'))"
  shows "copying val at cp"
proof
  fix h h' :: store and x
  assume "\<forall>a \<in> at h x. cells h' a = cells h a"
  with copying.frame [OF parts, of h "sel x" h'] have "v h' (sel x) = v h (sel x)" "a h' (sel x) = a h (sel x)"
    by (auto simp: read(2))
  then show "val h' x = val h x \<and> at h' x = at h x" using read(1) [of h' "sel x" h x] by (simp add: read(2) fields(1))
next
  fix x y and h h' :: store
  assume cp: "cp x h = (y, h')" and below: "at h x \<subseteq> {..<lim h}"
  obtain t where t: "c (sel x) h = (t, h')" and y: "y = upd x t" using cp by (auto simp: run split: prod.splits)
  from copying.copies [OF parts t] below
  show "extends h h' \<and> val h' y = val h x \<and> at h' y \<subseteq> {lim h..<lim h'}" by (auto simp: y read fields(2))
qed

lemma copying_flat: "copying (\<lambda>_ x. x) (\<lambda>_ _. {}) assign"
  by unfold_locales (simp_all add: assign_def)

lemma copying_unless_nil:
  assumes "copying (ptrVal un val) (ptrAt un at) cp"
  shows "copying (ptrVal un val) (ptrAt un at) (\<lambda>p h. case p of None \<Rightarrow> (None, h) | Some b \<Rightarrow> cp (Some b) h)"
proof
  show "ptrVal un val h' p = ptrVal un val h p \<and> ptrAt un at h' p = ptrAt un at h p"
    if "\<forall>a \<in> ptrAt un at h p. cells h' a = cells h a" for h h' :: store and p
    using copying.frame [OF assms that] .
  show "extends h h' \<and> ptrVal un val h' q = ptrVal un val h p \<and> ptrAt un at h' q \<subseteq> {lim h..<lim h'}"
    if "(case p of None \<Rightarrow> (None, h) | Some b \<Rightarrow> cp (Some b) h) = (q, h')" "ptrAt un at h p \<subseteq> {..<lim h}"
    for h h' :: store and p q
    using copying.copies [OF assms _ that(2)] that(1) by (auto simp: ptrVal_def ptrAt_def split: option.splits)
qed

section \<open>Reading the objects\<close>

text \<open>A \<open>nil\<close> slice or map reads as the empty one.\<close>

definition orEmpty :: "'a list option \<Rightarrow> 'a list" where
  "orEmpty p = (case p of None \<Rightarrow> [] | Some xs \<Rightarrow> xs)"

abbreviation leafVal :: "(cell option \<Rightarrow> 'r option) \<Rightarrow> store \<Rightarrow> nat option \<Rightarrow> 'r option" where
  "leafVal un \<equiv> ptrVal un (\<lambda>_ x. x)"

abbreviation leafAt :: "(cell option \<Rightarrow> 'r option) \<Rightarrow> store \<Rightarrow> nat option \<Rightarrow> nat set" where
  "leafAt un \<equiv> ptrAt un (\<lambda>_ _. {})"

definition cloneFromOf :: "store \<Rightarrow> rawCloneFrom \<Rightarrow> CloneFrom" where
  "cloneFromOf h c = \<lparr>cf_Endpoint = rcf_Endpoint c, cf_Bucket = rcf_Bucket c, cf_Region = rcf_Region c,
     cf_AddressingStyle = rcf_AddressingStyle c, cf_SecretRef = rcf_SecretRef c,
     cf_HoldSecretUntilCloned = leafVal asBool h (rcf_HoldSecretUntilCloned c)\<rparr>"

definition usageSpecOf :: "store \<Rightarrow> rawUsageSpec \<Rightarrow> UsageSpec" where
  "usageSpecOf h u = \<lparr>us_Enabled = leafVal asBool h (rus_Enabled u), us_Interval = rus_Interval u,
     us_IncludeVersions = leafVal asBool h (rus_IncludeVersions u)\<rparr>"

definition specOf :: "store \<Rightarrow> rawBucketSpec \<Rightarrow> BucketSpec" where
  "specOf h s = \<lparr>sp_BucketName = rsp_BucketName s, sp_SecretRef = rsp_SecretRef s,
     sp_GrantReadAccess = orEmpty (leafVal asRefs h (rsp_GrantReadAccess s)), sp_Region = rsp_Region s,
     sp_CloneFrom = ptrVal asCloneFrom cloneFromOf h (rsp_CloneFrom s), sp_WipeOnDelete = rsp_WipeOnDelete s,
     sp_AllowRecreate = rsp_AllowRecreate s, sp_Usage = ptrVal asUsageSpec usageSpecOf h (rsp_Usage s)\<rparr>"

definition cloneStatusOf :: "store \<Rightarrow> rawCloneStatus \<Rightarrow> CloneStatus" where
  "cloneStatusOf h c = \<lparr>cl_Phase = rcl_Phase c, cl_StartedAt = leafVal asTime h (rcl_StartedAt c),
     cl_CompletedAt = leafVal asTime h (rcl_CompletedAt c), cl_TotalBytes = rcl_TotalBytes c,
     cl_BytesCopied = rcl_BytesCopied c, cl_Progress = rcl_Progress c, cl_Rate = rcl_Rate c, cl_ETA = rcl_ETA c,
     cl_Message = rcl_Message c\<rparr>"

definition usageStatusOf :: "store \<Rightarrow> rawUsageStatus \<Rightarrow> UsageStatus" where
  "usageStatusOf h u = \<lparr>u_Bytes = ru_Bytes u, u_Objects = ru_Objects u, u_VersionBytes = ru_VersionBytes u,
     u_VersionObjects = ru_VersionObjects u, u_BillableBytes = ru_BillableBytes u,
     u_HumanReadable = ru_HumanReadable u, u_EstimatedMonthlyCost = ru_EstimatedMonthlyCost u,
     u_EstimatedMonthlyCostCents = ru_EstimatedMonthlyCostCents u, u_Currency = ru_Currency u,
     u_LastMeasurementTime = leafVal asTime h (ru_LastMeasurementTime u),
     u_MeasurementDuration = ru_MeasurementDuration u, u_Truncated = ru_Truncated u, u_Message = ru_Message u\<rparr>"

definition statusOf :: "store \<Rightarrow> rawBucketStatus \<Rightarrow> BucketStatus" where
  "statusOf h s = \<lparr>st_Phase = rst_Phase s, st_Message = rst_Message s, st_ObservedGeneration = rst_ObservedGeneration s,
     st_ResolvedBucketName = rst_ResolvedBucketName s, st_BucketURL = rst_BucketURL s,
     st_CredentialsGroupID = rst_CredentialsGroupID s, st_CredentialsGroupURN = rst_CredentialsGroupURN s,
     st_AccessKeyID = rst_AccessKeyID s, st_GrantedReadTo = orEmpty (leafVal asStrings h (rst_GrantedReadTo s)),
     st_Clone = ptrVal asCloneStatus cloneStatusOf h (rst_Clone s), st_LastRotationTrigger = rst_LastRotationTrigger s,
     st_LastRotationTime = leafVal asTime h (rst_LastRotationTime s),
     st_LastVerifiedTime = leafVal asTime h (rst_LastVerifiedTime s),
     st_DegradedSince = leafVal asTime h (rst_DegradedSince s), st_OperatorVersion = rst_OperatorVersion s,
     st_Usage = ptrVal asUsageStatus usageStatusOf h (rst_Usage s),
     st_Conditions = orEmpty (ptrVal asConditions (\<lambda>h. map (\<lambda>c. c)) h (rst_Conditions s))\<rparr>"

definition metaOf :: "store \<Rightarrow> rawMeta \<Rightarrow> string \<times> string \<times> string \<times> int \<times> string gomap \<times> string list \<times> int option" where
  "metaOf h m = (rm_Namespace m, rm_Name m, rm_UID m, rm_Generation m, orEmpty (leafVal asMap h (rm_Annotations m)),
     orEmpty (leafVal asStrings h (rm_Finalizers m)), leafVal asTime h (rm_DeletionTimestamp m))"

definition bucketOf :: "store \<Rightarrow> rawBucket \<Rightarrow> Bucket" where
  "bucketOf h b = (case metaOf h (rb_Meta b) of (ns, name, uid, gen, ann, fin, del) \<Rightarrow>
     \<lparr>b_Namespace = ns, b_Name = name, b_UID = uid, b_Generation = gen, b_Annotations = ann, b_Finalizers = fin,
      b_DeletionTimestamp = del, b_Spec = specOf h (rb_Spec b), b_Status = statusOf h (rb_Status b)\<rparr>)"

definition listOf :: "store \<Rightarrow> rawBucketList \<Rightarrow> Bucket list" where
  "listOf h l = orEmpty (ptrVal asBuckets (\<lambda>h. map (bucketOf h)) h (rl_Items l))"

text \<open>The cells each struct leads to.\<close>

definition cloneFromAt :: "store \<Rightarrow> rawCloneFrom \<Rightarrow> nat set" where
  "cloneFromAt h c = leafAt asBool h (rcf_HoldSecretUntilCloned c)"

definition usageSpecAt :: "store \<Rightarrow> rawUsageSpec \<Rightarrow> nat set" where
  "usageSpecAt h u = leafAt asBool h (rus_Enabled u) \<union> leafAt asBool h (rus_IncludeVersions u)"

definition specAt :: "store \<Rightarrow> rawBucketSpec \<Rightarrow> nat set" where
  "specAt h s = leafAt asRefs h (rsp_GrantReadAccess s) \<union> (ptrAt asCloneFrom cloneFromAt h (rsp_CloneFrom s) \<union>
     ptrAt asUsageSpec usageSpecAt h (rsp_Usage s))"

definition cloneStatusAt :: "store \<Rightarrow> rawCloneStatus \<Rightarrow> nat set" where
  "cloneStatusAt h c = leafAt asTime h (rcl_StartedAt c) \<union> leafAt asTime h (rcl_CompletedAt c)"

definition usageStatusAt :: "store \<Rightarrow> rawUsageStatus \<Rightarrow> nat set" where
  "usageStatusAt h u = leafAt asTime h (ru_LastMeasurementTime u)"

definition statusAt :: "store \<Rightarrow> rawBucketStatus \<Rightarrow> nat set" where
  "statusAt h s = leafAt asStrings h (rst_GrantedReadTo s) \<union> (ptrAt asCloneStatus cloneStatusAt h (rst_Clone s) \<union>
     (leafAt asTime h (rst_LastRotationTime s) \<union> (leafAt asTime h (rst_LastVerifiedTime s) \<union>
     (leafAt asTime h (rst_DegradedSince s) \<union> (ptrAt asUsageStatus usageStatusAt h (rst_Usage s) \<union>
      ptrAt asConditions (\<lambda>h cs. \<Union>((\<lambda>_. {}) ` set cs)) h (rst_Conditions s))))))"

definition metaAt :: "store \<Rightarrow> rawMeta \<Rightarrow> nat set" where
  "metaAt h m = leafAt asMap h (rm_Annotations m) \<union> (leafAt asStrings h (rm_Finalizers m) \<union>
     leafAt asTime h (rm_DeletionTimestamp m))"

definition bucketAt :: "store \<Rightarrow> rawBucket \<Rightarrow> nat set" where
  "bucketAt h b = metaAt h (rb_Meta b) \<union> (specAt h (rb_Spec b) \<union> statusAt h (rb_Status b))"

definition listAt :: "store \<Rightarrow> rawBucketList \<Rightarrow> nat set" where
  "listAt h l = ptrAt asBuckets (\<lambda>h bs. \<Union>(bucketAt h ` set bs)) h (rl_Items l)"

section \<open>The generated functions\<close>

text \<open>What apimachinery copies. \<open>*out = *in\<close> of a struct is the argument itself; each \<open>if in.F != nil\<close> block
  is one binding of the new address, \<open>None\<close> staying \<open>None\<close>. A cell made by \<open>new\<close> or \<open>make\<close> is written
  once the element is copied, and nothing reads it before.\<close>

record machinery =
  am_Time :: "nat option \<Rightarrow> store \<Rightarrow> nat option \<times> store"
  am_Meta :: "rawMeta \<Rightarrow> store \<Rightarrow> rawMeta \<times> store"
  am_Condition :: "Condition \<Rightarrow> store \<Rightarrow> Condition \<times> store"

definition timeField :: "machinery \<Rightarrow> nat option \<Rightarrow> store \<Rightarrow> nat option \<times> store" where
  "timeField am p h = (case p of None \<Rightarrow> (None, h) | Some a \<Rightarrow> am_Time am (Some a) h)"

definition boolField :: "nat option \<Rightarrow> store \<Rightarrow> nat option \<times> store" where
  "boolField = newCopy BoolC asBool assign"

definition BucketNaming_DeepCopyInto :: "BucketNaming \<Rightarrow> store \<Rightarrow> BucketNaming \<times> store" where
  "BucketNaming_DeepCopyInto x h = (x, h)"

definition BucketNaming_DeepCopy :: "nat option \<Rightarrow> store \<Rightarrow> nat option \<times> store" where
  "BucketNaming_DeepCopy = newCopy NamingC asNaming BucketNaming_DeepCopyInto"

definition CloneSourceSecretKeys_DeepCopyInto :: "CloneSourceSecretKeys \<Rightarrow> store \<Rightarrow> CloneSourceSecretKeys \<times> store" where
  "CloneSourceSecretKeys_DeepCopyInto x h = (x, h)"

definition CloneSourceSecretKeys_DeepCopy :: "nat option \<Rightarrow> store \<Rightarrow> nat option \<times> store" where
  "CloneSourceSecretKeys_DeepCopy = newCopy SourceKeysC asSourceKeys CloneSourceSecretKeys_DeepCopyInto"

definition CloneSourceSecretRef_DeepCopyInto :: "CloneSourceSecretRef \<Rightarrow> store \<Rightarrow> CloneSourceSecretRef \<times> store" where
  "CloneSourceSecretRef_DeepCopyInto x h = (x\<lparr>csr_Keys := csr_Keys x\<rparr>, h)"

definition CloneSourceSecretRef_DeepCopy :: "nat option \<Rightarrow> store \<Rightarrow> nat option \<times> store" where
  "CloneSourceSecretRef_DeepCopy = newCopy SourceRefC asSourceRef CloneSourceSecretRef_DeepCopyInto"

definition LocalBucketReference_DeepCopyInto :: "LocalBucketReference \<Rightarrow> store \<Rightarrow> LocalBucketReference \<times> store" where
  "LocalBucketReference_DeepCopyInto x h = (x, h)"

definition LocalBucketReference_DeepCopy :: "nat option \<Rightarrow> store \<Rightarrow> nat option \<times> store" where
  "LocalBucketReference_DeepCopy = newCopy LocalRefC asLocalRef LocalBucketReference_DeepCopyInto"

definition SecretKeys_DeepCopyInto :: "SecretKeys \<Rightarrow> store \<Rightarrow> SecretKeys \<times> store" where
  "SecretKeys_DeepCopyInto x h = (x, h)"

definition SecretKeys_DeepCopy :: "nat option \<Rightarrow> store \<Rightarrow> nat option \<times> store" where
  "SecretKeys_DeepCopy = newCopy KeysC asKeys SecretKeys_DeepCopyInto"

definition SecretReference_DeepCopyInto :: "SecretReference \<Rightarrow> store \<Rightarrow> SecretReference \<times> store" where
  "SecretReference_DeepCopyInto x h = (x\<lparr>sr_Keys := sr_Keys x\<rparr>, h)"

definition SecretReference_DeepCopy :: "nat option \<Rightarrow> store \<Rightarrow> nat option \<times> store" where
  "SecretReference_DeepCopy = newCopy SecretRefC asSecretRef SecretReference_DeepCopyInto"

definition SecretValues_DeepCopyInto :: "SecretValues \<Rightarrow> store \<Rightarrow> SecretValues \<times> store" where
  "SecretValues_DeepCopyInto x h = (x, h)"

definition SecretValues_DeepCopy :: "nat option \<Rightarrow> store \<Rightarrow> nat option \<times> store" where
  "SecretValues_DeepCopy = newCopy ValuesC asValues SecretValues_DeepCopyInto"

definition CloneFrom_DeepCopyInto :: "rawCloneFrom \<Rightarrow> store \<Rightarrow> rawCloneFrom \<times> store" where
  "CloneFrom_DeepCopyInto x h =
    (case boolField (rcf_HoldSecretUntilCloned x) h of (p1, h1) \<Rightarrow>
     (x\<lparr>rcf_SecretRef := rcf_SecretRef x, rcf_HoldSecretUntilCloned := p1\<rparr>, h1))"

definition CloneFrom_DeepCopy :: "nat option \<Rightarrow> store \<Rightarrow> nat option \<times> store" where
  "CloneFrom_DeepCopy = newCopy CloneFromC asCloneFrom CloneFrom_DeepCopyInto"

definition UsageSpec_DeepCopyInto :: "rawUsageSpec \<Rightarrow> store \<Rightarrow> rawUsageSpec \<times> store" where
  "UsageSpec_DeepCopyInto x h =
    (case boolField (rus_Enabled x) h of (p1, h1) \<Rightarrow>
     case boolField (rus_IncludeVersions x) h1 of (p2, h2) \<Rightarrow>
     (x\<lparr>rus_Enabled := p1, rus_IncludeVersions := p2\<rparr>, h2))"

definition UsageSpec_DeepCopy :: "nat option \<Rightarrow> store \<Rightarrow> nat option \<times> store" where
  "UsageSpec_DeepCopy = newCopy UsageSpecC asUsageSpec UsageSpec_DeepCopyInto"

definition BucketSpec_DeepCopyInto :: "rawBucketSpec \<Rightarrow> store \<Rightarrow> rawBucketSpec \<times> store" where
  "BucketSpec_DeepCopyInto x h =
    (case newCopy RefsC asRefs assign (rsp_GrantReadAccess x) h of (p1, h1) \<Rightarrow>
     case newCopy CloneFromC asCloneFrom CloneFrom_DeepCopyInto (rsp_CloneFrom x) h1 of (p2, h2) \<Rightarrow>
     case newCopy UsageSpecC asUsageSpec UsageSpec_DeepCopyInto (rsp_Usage x) h2 of (p3, h3) \<Rightarrow>
     (x\<lparr>rsp_SecretRef := rsp_SecretRef x, rsp_GrantReadAccess := p1, rsp_CloneFrom := p2, rsp_Usage := p3\<rparr>, h3))"

definition BucketSpec_DeepCopy :: "nat option \<Rightarrow> store \<Rightarrow> nat option \<times> store" where
  "BucketSpec_DeepCopy = newCopy SpecC asSpec BucketSpec_DeepCopyInto"

definition CloneStatus_DeepCopyInto :: "machinery \<Rightarrow> rawCloneStatus \<Rightarrow> store \<Rightarrow> rawCloneStatus \<times> store" where
  "CloneStatus_DeepCopyInto am x h =
    (case timeField am (rcl_StartedAt x) h of (p1, h1) \<Rightarrow>
     case timeField am (rcl_CompletedAt x) h1 of (p2, h2) \<Rightarrow>
     (x\<lparr>rcl_StartedAt := p1, rcl_CompletedAt := p2\<rparr>, h2))"

definition CloneStatus_DeepCopy :: "machinery \<Rightarrow> nat option \<Rightarrow> store \<Rightarrow> nat option \<times> store" where
  "CloneStatus_DeepCopy am = newCopy CloneStatusC asCloneStatus (CloneStatus_DeepCopyInto am)"

definition UsageStatus_DeepCopyInto :: "machinery \<Rightarrow> rawUsageStatus \<Rightarrow> store \<Rightarrow> rawUsageStatus \<times> store" where
  "UsageStatus_DeepCopyInto am x h =
    (case timeField am (ru_LastMeasurementTime x) h of (p1, h1) \<Rightarrow>
     (x\<lparr>ru_LastMeasurementTime := p1\<rparr>, h1))"

definition UsageStatus_DeepCopy :: "machinery \<Rightarrow> nat option \<Rightarrow> store \<Rightarrow> nat option \<times> store" where
  "UsageStatus_DeepCopy am = newCopy UsageStatusC asUsageStatus (UsageStatus_DeepCopyInto am)"

definition BucketStatus_DeepCopyInto :: "machinery \<Rightarrow> rawBucketStatus \<Rightarrow> store \<Rightarrow> rawBucketStatus \<times> store" where
  "BucketStatus_DeepCopyInto am x h =
    (case newCopy StringsC asStrings assign (rst_GrantedReadTo x) h of (p1, h1) \<Rightarrow>
     case newCopy CloneStatusC asCloneStatus (CloneStatus_DeepCopyInto am) (rst_Clone x) h1 of (p2, h2) \<Rightarrow>
     case timeField am (rst_LastRotationTime x) h2 of (p3, h3) \<Rightarrow>
     case timeField am (rst_LastVerifiedTime x) h3 of (p4, h4) \<Rightarrow>
     case timeField am (rst_DegradedSince x) h4 of (p5, h5) \<Rightarrow>
     case newCopy UsageStatusC asUsageStatus (UsageStatus_DeepCopyInto am) (rst_Usage x) h5 of (p6, h6) \<Rightarrow>
     case newCopy ConditionsC asConditions (eachCopy (am_Condition am)) (rst_Conditions x) h6 of (p7, h7) \<Rightarrow>
     (x\<lparr>rst_GrantedReadTo := p1, rst_Clone := p2, rst_LastRotationTime := p3, rst_LastVerifiedTime := p4,
        rst_DegradedSince := p5, rst_Usage := p6, rst_Conditions := p7\<rparr>, h7))"

definition BucketStatus_DeepCopy :: "machinery \<Rightarrow> nat option \<Rightarrow> store \<Rightarrow> nat option \<times> store" where
  "BucketStatus_DeepCopy am = newCopy StatusC asStatus (BucketStatus_DeepCopyInto am)"

definition Bucket_DeepCopyInto :: "machinery \<Rightarrow> rawBucket \<Rightarrow> store \<Rightarrow> rawBucket \<times> store" where
  "Bucket_DeepCopyInto am x h =
    (case am_Meta am (rb_Meta x) h of (p1, h1) \<Rightarrow>
     case BucketSpec_DeepCopyInto (rb_Spec x) h1 of (p2, h2) \<Rightarrow>
     case BucketStatus_DeepCopyInto am (rb_Status x) h2 of (p3, h3) \<Rightarrow>
     (x\<lparr>rb_Meta := p1, rb_Spec := p2, rb_Status := p3\<rparr>, h3))"

definition Bucket_DeepCopy :: "machinery \<Rightarrow> nat option \<Rightarrow> store \<Rightarrow> nat option \<times> store" where
  "Bucket_DeepCopy am = newCopy BucketC asBucket (Bucket_DeepCopyInto am)"

definition Bucket_DeepCopyObject :: "machinery \<Rightarrow> nat option \<Rightarrow> store \<Rightarrow> nat option \<times> store" where
  "Bucket_DeepCopyObject am p h =
     (case Bucket_DeepCopy am p h of (None, h1) \<Rightarrow> (None, h1) | (Some c, h1) \<Rightarrow> (Some c, h1))"

definition BucketList_DeepCopyInto :: "machinery \<Rightarrow> rawBucketList \<Rightarrow> store \<Rightarrow> rawBucketList \<times> store" where
  "BucketList_DeepCopyInto am x h =
    (case newCopy BucketsC asBuckets (eachCopy (Bucket_DeepCopyInto am)) (rl_Items x) h of (p1, h1) \<Rightarrow>
     (x\<lparr>rl_Items := p1\<rparr>, h1))"

definition BucketList_DeepCopy :: "machinery \<Rightarrow> nat option \<Rightarrow> store \<Rightarrow> nat option \<times> store" where
  "BucketList_DeepCopy am = newCopy ListC asList (BucketList_DeepCopyInto am)"

definition BucketList_DeepCopyObject :: "machinery \<Rightarrow> nat option \<Rightarrow> store \<Rightarrow> nat option \<times> store" where
  "BucketList_DeepCopyObject am p h =
     (case BucketList_DeepCopy am p h of (None, h1) \<Rightarrow> (None, h1) | (Some c, h1) \<Rightarrow> (Some c, h1))"

section \<open>Every copy keeps the contract\<close>

interpretation flat: copying "\<lambda>_ x. x" "\<lambda>_ _. {}" assign
  by (rule copying_flat)

text \<open>Structs without pointers are assigned.\<close>

lemma flat_into:
  "BucketNaming_DeepCopyInto = assign"
  "CloneSourceSecretKeys_DeepCopyInto = assign"
  "CloneSourceSecretRef_DeepCopyInto = assign"
  "LocalBucketReference_DeepCopyInto = assign"
  "SecretKeys_DeepCopyInto = assign"
  "SecretReference_DeepCopyInto = assign"
  "SecretValues_DeepCopyInto = assign"
  by (simp_all add: fun_eq_iff assign_def BucketNaming_DeepCopyInto_def CloneSourceSecretKeys_DeepCopyInto_def CloneSourceSecretRef_DeepCopyInto_def LocalBucketReference_DeepCopyInto_def
    SecretKeys_DeepCopyInto_def SecretReference_DeepCopyInto_def SecretValues_DeepCopyInto_def)

lemma flat_copies:
  "copying (leafVal asNaming) (leafAt asNaming) BucketNaming_DeepCopy"
  "copying (leafVal asSourceKeys) (leafAt asSourceKeys) CloneSourceSecretKeys_DeepCopy"
  "copying (leafVal asSourceRef) (leafAt asSourceRef) CloneSourceSecretRef_DeepCopy"
  "copying (leafVal asLocalRef) (leafAt asLocalRef) LocalBucketReference_DeepCopy"
  "copying (leafVal asKeys) (leafAt asKeys) SecretKeys_DeepCopy"
  "copying (leafVal asSecretRef) (leafAt asSecretRef) SecretReference_DeepCopy"
  "copying (leafVal asValues) (leafAt asValues) SecretValues_DeepCopy"
  by (simp_all add: flat.pointer flat_into BucketNaming_DeepCopy_def CloneSourceSecretKeys_DeepCopy_def CloneSourceSecretRef_DeepCopy_def LocalBucketReference_DeepCopy_def
    SecretKeys_DeepCopy_def SecretReference_DeepCopy_def SecretValues_DeepCopy_def)

lemmas copying_bool = flat.pointer [of asBool BoolC, OF cell_types(1), folded boolField_def]

interpretation cloneFrom: copying cloneFromOf cloneFromAt CloneFrom_DeepCopyInto
  by (rule copying_struct [OF copying_bool, where sel = rcf_HoldSecretUntilCloned
        and upd = "\<lambda>x p. x\<lparr>rcf_HoldSecretUntilCloned := p\<rparr>"])
    (auto simp: cloneFromOf_def cloneFromAt_def CloneFrom_DeepCopyInto_def split: prod.splits)

interpretation usageSpec: copying usageSpecOf usageSpecAt UsageSpec_DeepCopyInto
  by (rule copying_struct [OF copying_both [OF copying_bool copying_bool], where sel = "\<lambda>x. (rus_Enabled x, rus_IncludeVersions x)"
        and upd = "\<lambda>x (p, q). x\<lparr>rus_Enabled := p, rus_IncludeVersions := q\<rparr>"])
    (auto simp: usageSpecOf_def usageSpecAt_def UsageSpec_DeepCopyInto_def bothCopy_def split: prod.splits)

interpretation spec: copying specOf specAt BucketSpec_DeepCopyInto
  by (rule copying_struct [OF copying_both [OF flat.pointer [of asRefs RefsC] copying_both [OF
        cloneFrom.pointer [of asCloneFrom CloneFromC] usageSpec.pointer [of asUsageSpec UsageSpecC]]],
        where sel = "\<lambda>x. (rsp_GrantReadAccess x, rsp_CloneFrom x, rsp_Usage x)"
        and upd = "\<lambda>x (p, q, r). x\<lparr>rsp_GrantReadAccess := p, rsp_CloneFrom := q, rsp_Usage := r\<rparr>"])
    (auto simp: specOf_def specAt_def BucketSpec_DeepCopyInto_def bothCopy_def split: prod.splits)

text \<open>apimachinery's copies keep the contract too: \<open>metav1.Time\<close>, \<open>metav1.ObjectMeta\<close> and
  \<open>metav1.Condition\<close> document a deep copy.\<close>

locale apimachinery =
  fixes am :: machinery
  assumes time: "copying (leafVal asTime) (leafAt asTime) (am_Time am)"
    and meta: "copying metaOf metaAt (am_Meta am)"
    and condition: "copying (\<lambda>_ c. c) (\<lambda>_ _. {}) (am_Condition am)"
begin

lemma time_field: "copying (leafVal asTime) (leafAt asTime) (timeField am)"
  using copying_unless_nil [OF time] by (simp add: timeField_def [abs_def])

end

sublocale apimachinery \<subseteq> cloneStatus: copying cloneStatusOf cloneStatusAt "CloneStatus_DeepCopyInto am"
  by (rule copying_struct [OF copying_both [OF time_field time_field], where sel = "\<lambda>x. (rcl_StartedAt x, rcl_CompletedAt x)"
        and upd = "\<lambda>x (p, q). x\<lparr>rcl_StartedAt := p, rcl_CompletedAt := q\<rparr>"])
    (auto simp: cloneStatusOf_def cloneStatusAt_def CloneStatus_DeepCopyInto_def bothCopy_def split: prod.splits)

sublocale apimachinery \<subseteq> usageStatus: copying usageStatusOf usageStatusAt "UsageStatus_DeepCopyInto am"
  by (rule copying_struct [OF time_field, where sel = ru_LastMeasurementTime
        and upd = "\<lambda>x p. x\<lparr>ru_LastMeasurementTime := p\<rparr>"])
    (auto simp: usageStatusOf_def usageStatusAt_def UsageStatus_DeepCopyInto_def split: prod.splits)

sublocale apimachinery \<subseteq> conditions: copying "\<lambda>_ c. c" "\<lambda>_ _. {}" "am_Condition am"
  by (rule condition)

sublocale apimachinery \<subseteq> status: copying statusOf statusAt "BucketStatus_DeepCopyInto am"
  by (rule copying_struct [OF copying_both [OF flat.pointer [of asStrings StringsC]
        copying_both [OF cloneStatus.pointer [of asCloneStatus CloneStatusC]
        copying_both [OF time_field copying_both [OF time_field copying_both [OF time_field
        copying_both [OF usageStatus.pointer [of asUsageStatus UsageStatusC]
          copying.pointer [OF conditions.each, of asConditions ConditionsC]]]]]]],
        where sel = "\<lambda>x. (rst_GrantedReadTo x, rst_Clone x, rst_LastRotationTime x, rst_LastVerifiedTime x,
            rst_DegradedSince x, rst_Usage x, rst_Conditions x)"
        and upd = "\<lambda>x (p, q, r, t, u, v, w). x\<lparr>rst_GrantedReadTo := p, rst_Clone := q, rst_LastRotationTime := r,
            rst_LastVerifiedTime := t, rst_DegradedSince := u, rst_Usage := v, rst_Conditions := w\<rparr>"])
    (auto simp: statusOf_def statusAt_def BucketStatus_DeepCopyInto_def bothCopy_def split: prod.splits)

sublocale apimachinery \<subseteq> bucket: copying bucketOf bucketAt "Bucket_DeepCopyInto am"
  by (rule copying_struct [OF copying_both [OF meta copying_both [OF spec.copying_axioms status.copying_axioms]],
        where sel = "\<lambda>x. (rb_Meta x, rb_Spec x, rb_Status x)"
        and upd = "\<lambda>x (p, q, r). x\<lparr>rb_Meta := p, rb_Spec := q, rb_Status := r\<rparr>"])
    (auto simp: bucketOf_def bucketAt_def Bucket_DeepCopyInto_def bothCopy_def split: prod.splits)

sublocale apimachinery \<subseteq> bucketList: copying listOf listAt "BucketList_DeepCopyInto am"
  by (rule copying_struct [OF copying.pointer [OF bucket.each, of asBuckets BucketsC], where sel = rl_Items
        and upd = "\<lambda>x p. x\<lparr>rl_Items := p\<rparr>"])
    (auto simp: listOf_def listAt_def BucketList_DeepCopyInto_def split: prod.splits)

context apimachinery
begin

lemma bucket_copies: "copying (ptrVal asBucket bucketOf) (ptrAt asBucket bucketAt) (Bucket_DeepCopy am)"
  using bucket.pointer [of asBucket BucketC] by (simp add: Bucket_DeepCopy_def)

lemma list_copies: "copying (ptrVal asList listOf) (ptrAt asList listAt) (BucketList_DeepCopy am)"
  using bucketList.pointer [of asList ListC] by (simp add: BucketList_DeepCopy_def)

text \<open>\<open>DeepCopyObject\<close>, which the informers' cache calls for everything it returns.\<close>

lemma objects_copied:
  "Bucket_DeepCopyObject am = Bucket_DeepCopy am" "BucketList_DeepCopyObject am = BucketList_DeepCopy am"
  by (auto simp: fun_eq_iff Bucket_DeepCopyObject_def BucketList_DeepCopyObject_def split: prod.splits option.splits)

end

section \<open>A patch keeps its base\<close>

text \<open>Functions that copy as documented.\<close>

definition plainMeta :: "rawMeta \<Rightarrow> store \<Rightarrow> rawMeta \<times> store" where
  "plainMeta m h =
    (case newCopy MapC asMap assign (rm_Annotations m) h of (p1, h1) \<Rightarrow>
     case newCopy StringsC asStrings assign (rm_Finalizers m) h1 of (p2, h2) \<Rightarrow>
     case newCopy TimeC asTime assign (rm_DeletionTimestamp m) h2 of (p3, h3) \<Rightarrow>
     (m\<lparr>rm_Annotations := p1, rm_Finalizers := p2, rm_DeletionTimestamp := p3\<rparr>, h3))"

definition plainMachinery :: machinery where
  "plainMachinery = \<lparr>am_Time = newCopy TimeC asTime assign, am_Meta = plainMeta, am_Condition = assign\<rparr>"

lemma plainMeta_copies: "copying metaOf metaAt plainMeta"
  by (rule copying_struct [OF copying_both [OF flat.pointer [of asMap MapC]
        copying_both [OF flat.pointer [of asStrings StringsC] flat.pointer [of asTime TimeC]]],
        where sel = "\<lambda>m. (rm_Annotations m, rm_Finalizers m, rm_DeletionTimestamp m)"
        and upd = "\<lambda>m (p, q, r). m\<lparr>rm_Annotations := p, rm_Finalizers := q, rm_DeletionTimestamp := r\<rparr>"])
    (auto simp: metaOf_def metaAt_def plainMeta_def bothCopy_def split: prod.splits)

interpretation plain: apimachinery plainMachinery
  using flat.pointer [of asTime TimeC] plainMeta_copies flat.copying_axioms by (simp add: apimachinery_def plainMachinery_def)

text \<open>A Bucket with an annotation, a usage status measured at a time that is also the time of the last
  verification, and one grant.\<close>

definition sampleRaw :: rawBucket where
  "sampleRaw = \<lparr>rb_Meta = \<lparr>rm_Namespace = ''team'', rm_Name = ''data'', rm_UID = ''u-1'', rm_Generation = 1,
       rm_Annotations = Some 1, rm_Finalizers = None, rm_DeletionTimestamp = None\<rparr>,
     rb_Spec = \<lparr>rsp_BucketName = ''data'', rsp_SecretRef = \<lparr>sr_Name = ''data-s3'', sr_Keys = zeroKeys\<rparr>,
       rsp_GrantReadAccess = Some 2, rsp_Region = [], rsp_CloneFrom = None, rsp_WipeOnDelete = False,
       rsp_AllowRecreate = False, rsp_Usage = None\<rparr>,
     rb_Status = \<lparr>rst_Phase = PhaseReady, rst_Message = [], rst_ObservedGeneration = 1, rst_ResolvedBucketName = ''data'',
       rst_BucketURL = [], rst_CredentialsGroupID = [], rst_CredentialsGroupURN = [], rst_AccessKeyID = [],
       rst_GrantedReadTo = None, rst_Clone = None, rst_LastRotationTrigger = [], rst_LastRotationTime = None,
       rst_LastVerifiedTime = Some 4, rst_DegradedSince = None, rst_OperatorVersion = [], rst_Usage = Some 3,
       rst_Conditions = None\<rparr>\<rparr>"

definition sampleStore :: store where
  "sampleStore = \<lparr>cells = [0 \<mapsto> BucketC sampleRaw, 1 \<mapsto> MapC [], 2 \<mapsto> RefsC [\<lparr>lb_Name = ''logs''\<rparr>],
     3 \<mapsto> UsageStatusC \<lparr>ru_Bytes = 7, ru_Objects = 1, ru_VersionBytes = 0, ru_VersionObjects = 0, ru_BillableBytes = 7,
       ru_HumanReadable = [], ru_EstimatedMonthlyCost = [], ru_EstimatedMonthlyCostCents = 0, ru_Currency = [],
       ru_LastMeasurementTime = Some 4, ru_MeasurementDuration = [], ru_Truncated = False, ru_Message = []\<rparr>,
     4 \<mapsto> TimeC 100], lim = 5\<rparr>"

lemma sampleStore_below: "ptrAt asBucket bucketAt sampleStore (Some 0) \<subseteq> {..<lim sampleStore}"
  by (simp add: sampleStore_def sampleRaw_def ptrAt_def bucketAt_def metaAt_def specAt_def statusAt_def usageStatusAt_def)

text \<open>C33: A Bucket and what \<open>DeepCopy\<close> returns for it share no memory. Given apimachinery's documented
  copies, the copy reads as the original did, the original still reads as before, the cells reached
  from the two are disjoint, and whatever is then written to a cell of one of them, the other reads
  as before. So \<open>client.MergeFrom(b.DeepCopy())\<close> holds the object as it was, however \<open>b\<close> is changed
  after.\<close>

theorem deep_copy_separate:
  assumes "apimachinery am" and "Bucket_DeepCopy am p h = (q, h')" and "ptrAt asBucket bucketAt h p \<subseteq> {..<lim h}"
  shows "ptrVal asBucket bucketOf h' q = ptrVal asBucket bucketOf h p \<and>
    ptrVal asBucket bucketOf h' p = ptrVal asBucket bucketOf h p \<and>
    ptrAt asBucket bucketAt h' q \<inter> ptrAt asBucket bucketAt h' p = {} \<and>
    (\<forall>a \<in> ptrAt asBucket bucketAt h' q. \<forall>v. ptrVal asBucket bucketOf (put a v h') p = ptrVal asBucket bucketOf h p) \<and>
    (\<forall>a \<in> ptrAt asBucket bucketAt h' p. \<forall>v. ptrVal asBucket bucketOf (put a v h') q = ptrVal asBucket bucketOf h p)"
  using copying.separate [OF apimachinery.bucket_copies [OF assms(1)] assms(2,3)] by blast

theorem deep_copy_separate_witness:
  "let r = Bucket_DeepCopy plainMachinery (Some 0) sampleStore in
    ptrVal asBucket bucketOf (snd r) (fst r) = Some (bucketOf sampleStore sampleRaw) \<and>
    ptrAt asBucket bucketAt (snd r) (fst r) \<inter> ptrAt asBucket bucketAt (snd r) (Some 0) = {}"
  using deep_copy_separate [OF plain.apimachinery_axioms prod.collapse [symmetric] sampleStore_below]
  by (simp add: Let_def sampleStore_def ptrVal_def)

text \<open>\<open>patchUsageMessage\<close> up to the request: the base of the patch is a copy, then the message is written
  through the pointer \<open>b.Status.Usage\<close>, which is set first when it is \<open>nil\<close>.\<close>

definition zeroRawUsage :: rawUsageStatus where
  "zeroRawUsage = \<lparr>ru_Bytes = 0, ru_Objects = 0, ru_VersionBytes = 0, ru_VersionObjects = 0, ru_BillableBytes = 0,
     ru_HumanReadable = [], ru_EstimatedMonthlyCost = [], ru_EstimatedMonthlyCostCents = 0, ru_Currency = [],
     ru_LastMeasurementTime = None, ru_MeasurementDuration = [], ru_Truncated = False, ru_Message = []\<rparr>"

definition setUsage :: "nat \<Rightarrow> nat option \<Rightarrow> store \<Rightarrow> store" where
  "setUsage a u h = (case asBucket (cells h a) of None \<Rightarrow> h
     | Some b \<Rightarrow> put a (BucketC (b\<lparr>rb_Status := (rb_Status b)\<lparr>rst_Usage := u\<rparr>\<rparr>)) h)"

definition setUsageMessage :: "nat \<Rightarrow> string \<Rightarrow> store \<Rightarrow> store" where
  "setUsageMessage u msg h = (case asUsageStatus (cells h u) of None \<Rightarrow> h
     | Some x \<Rightarrow> put u (UsageStatusC (x\<lparr>ru_Message := msg\<rparr>)) h)"

definition usageMessagePatch :: "machinery \<Rightarrow> string \<Rightarrow> nat \<Rightarrow> store \<Rightarrow> nat option \<times> store" where
  "usageMessagePatch am msg a h =
     (case Bucket_DeepCopy am (Some a) h of (base, h1) \<Rightarrow>
      case Option.bind (asBucket (cells h1 a)) (\<lambda>b. rst_Usage (rb_Status b)) of
        Some u \<Rightarrow> (base, setUsageMessage u msg h1)
      | None \<Rightarrow> (case alloc (UsageStatusC zeroRawUsage) h1 of (u, h2) \<Rightarrow> (base, setUsageMessage u msg (setUsage a (Some u) h2))))"

lemma asUsageStatus_iff: "asUsageStatus c = Some y \<longleftrightarrow> c = Some (UsageStatusC y)"
  by (auto simp: asUsageStatus_def split: option.splits cell.splits)

lemma asBucket_iff: "asBucket c = Some y \<longleftrightarrow> c = Some (BucketC y)"
  by (auto simp: asBucket_def split: option.splits cell.splits)

text \<open>A write that changes only Buckets and usage statuses leaves every other part of a Bucket.\<close>

definition sameParts :: "store \<Rightarrow> store \<Rightarrow> bool" where
  "sameParts h h' \<longleftrightarrow> (\<forall>c. asBool (cells h' c) = asBool (cells h c) \<and> asTime (cells h' c) = asTime (cells h c) \<and>
     asStrings (cells h' c) = asStrings (cells h c) \<and> asMap (cells h' c) = asMap (cells h c) \<and>
     asRefs (cells h' c) = asRefs (cells h c) \<and> asConditions (cells h' c) = asConditions (cells h c) \<and>
     asCloneFrom (cells h' c) = asCloneFrom (cells h c) \<and> asUsageSpec (cells h' c) = asUsageSpec (cells h c) \<and>
     asCloneStatus (cells h' c) = asCloneStatus (cells h c))"

lemma sameParts_usage: "asUsageStatus (cells h u) = Some y \<Longrightarrow> sameParts h (put u (UsageStatusC z) h)"
  by (simp add: sameParts_def put_def asUsageStatus_iff asBool_def asTime_def asStrings_def asMap_def asRefs_def
      asConditions_def asCloneFrom_def asUsageSpec_def asCloneStatus_def)

lemma sameParts_bucket: "asBucket (cells h u) = Some y \<Longrightarrow> sameParts h (put u (BucketC z) h)"
  by (simp add: sameParts_def put_def asBucket_iff asBool_def asTime_def asStrings_def asMap_def asRefs_def
      asConditions_def asCloneFrom_def asUsageSpec_def asCloneStatus_def)

lemma ptrVal_cong:
  assumes "\<And>c. un (cells h' c) = un (cells h c)" and "val h' = val h"
  shows "ptrVal un val h' = ptrVal un val h"
  by (rule ext) (simp add: ptrVal_def assms split: option.split)

lemma sameParts_reads:
  assumes "sameParts h h'"
  shows "usageStatusOf h' = usageStatusOf h"
    and "bucketOf h' x = (let b = bucketOf h x in b\<lparr>b_Status := (b_Status b)\<lparr>
      st_Usage := ptrVal asUsageStatus usageStatusOf h' (rst_Usage (rb_Status x))\<rparr>\<rparr>)"
proof -
  note p = assms [unfolded sameParts_def, rule_format]
  have leaf: "leafVal asBool h' = leafVal asBool h" "leafVal asTime h' = leafVal asTime h" "leafVal asStrings h' = leafVal asStrings h"
    "leafVal asMap h' = leafVal asMap h" "leafVal asRefs h' = leafVal asRefs h"
    "ptrVal asConditions (\<lambda>h. map (\<lambda>c. c)) h' = ptrVal asConditions (\<lambda>h. map (\<lambda>c. c)) h"
    by (rule ptrVal_cong; simp add: p)+
  then have "cloneFromOf h' = cloneFromOf h" "usageSpecOf h' = usageSpecOf h" "cloneStatusOf h' = cloneStatusOf h"
    by (simp_all add: fun_eq_iff cloneFromOf_def usageSpecOf_def cloneStatusOf_def)
  then have "ptrVal asCloneFrom cloneFromOf h' = ptrVal asCloneFrom cloneFromOf h"
    "ptrVal asUsageSpec usageSpecOf h' = ptrVal asUsageSpec usageSpecOf h"
    "ptrVal asCloneStatus cloneStatusOf h' = ptrVal asCloneStatus cloneStatusOf h"
    by (auto intro!: ptrVal_cong simp: p)
  with leaf show "bucketOf h' x = (let b = bucketOf h x in b\<lparr>b_Status := (b_Status b)\<lparr>
      st_Usage := ptrVal asUsageStatus usageStatusOf h' (rst_Usage (rb_Status x))\<rparr>\<rparr>)"
    by (simp add: bucketOf_def metaOf_def specOf_def statusOf_def)
  show "usageStatusOf h' = usageStatusOf h" by (simp add: fun_eq_iff usageStatusOf_def leaf)
qed

lemma message_written:
  assumes "asUsageStatus (cells h u) = Some y" and "rst_Usage (rb_Status x) = Some u"
  shows "bucketOf (setUsageMessage u msg h) x = (let b = bucketOf h x in b\<lparr>b_Status := (b_Status b)\<lparr>
      st_Usage := Some ((usageStatusOf h y)\<lparr>u_Message := msg\<rparr>)\<rparr>\<rparr>)"
proof -
  let ?y = "y\<lparr>ru_Message := msg\<rparr>" and ?h = "setUsageMessage u msg h"
  from assms(1) have h: "?h = put u (UsageStatusC ?y) h" by (simp add: setUsageMessage_def)
  note r = sameParts_reads [OF sameParts_usage [OF assms(1)], of ?y, folded h]
  have "asUsageStatus (cells ?h u) = Some ?y" by (simp add: h put_def)
  then have "ptrVal asUsageStatus usageStatusOf ?h (Some u) = Some (usageStatusOf h ?y)" by (simp add: ptrVal_def r(1))
  moreover have "usageStatusOf h ?y = (usageStatusOf h y)\<lparr>u_Message := msg\<rparr>" by (simp add: usageStatusOf_def)
  ultimately show ?thesis by (simp only: r(2) assms(2))
qed

text \<open>The Bucket with the message, in its usage status or in a new one.\<close>

definition withUsageMessage :: "string \<Rightarrow> Bucket \<Rightarrow> Bucket" where
  "withUsageMessage msg b = b\<lparr>b_Status := (b_Status b)\<lparr>st_Usage :=
     Some ((case st_Usage (b_Status b) of None \<Rightarrow> zeroUsage | Some u \<Rightarrow> u)\<lparr>u_Message := msg\<rparr>)\<rparr>\<rparr>"

lemma message_through_pointer:
  assumes x: "asBucket (cells h a) = Some x" and u: "rst_Usage (rb_Status x) = Some u" and y: "asUsageStatus (cells h u) = Some y"
  shows "ptrVal asBucket bucketOf (setUsageMessage u msg h) (Some a) = Some (withUsageMessage msg (bucketOf h x))"
proof -
  have "u \<noteq> a" using x y by (auto simp: asBucket_iff asUsageStatus_iff)
  then have "asBucket (cells (setUsageMessage u msg h) a) = Some x" using x y by (simp add: setUsageMessage_def put_def)
  moreover have "st_Usage (b_Status (bucketOf h x)) = Some (usageStatusOf h y)"
    using y u by (simp add: bucketOf_def statusOf_def ptrVal_def split: prod.splits)
  ultimately show ?thesis using message_written [OF y u, of msg] by (simp add: ptrVal_def withUsageMessage_def Let_def)
qed

lemma usage_replaced:
  assumes x: "asBucket (cells h a) = Some x" and u: "asUsageStatus (cells h u) = Some y"
  shows "asBucket (cells (setUsage a (Some u) h) a) = Some (x\<lparr>rb_Status := (rb_Status x)\<lparr>rst_Usage := Some u\<rparr>\<rparr>) \<and>
    asUsageStatus (cells (setUsage a (Some u) h) u) = Some y \<and>
    bucketOf (setUsage a (Some u) h) (x\<lparr>rb_Status := (rb_Status x)\<lparr>rst_Usage := Some u\<rparr>\<rparr>) =
      (bucketOf h x)\<lparr>b_Status := (b_Status (bucketOf h x))\<lparr>st_Usage := Some (usageStatusOf h y)\<rparr>\<rparr>"
proof -
  let ?x = "x\<lparr>rb_Status := (rb_Status x)\<lparr>rst_Usage := Some u\<rparr>\<rparr>" and ?h = "setUsage a (Some u) h"
  have h: "?h = put a (BucketC ?x) h" using x by (simp add: setUsage_def)
  have "u \<noteq> a" using x u by (auto simp: asBucket_iff asUsageStatus_iff)
  then have c: "asUsageStatus (cells ?h u) = Some y" using u by (simp add: h put_def)
  note r = sameParts_reads [OF sameParts_bucket [OF x], of ?x, folded h]
  have "bucketOf h ?x = (bucketOf h x)\<lparr>b_Status := (b_Status (bucketOf h x))\<lparr>
      st_Usage := ptrVal asUsageStatus usageStatusOf h (Some u)\<rparr>\<rparr>"
    by (simp add: bucketOf_def statusOf_def split: prod.splits)
  moreover have "asBucket (cells ?h a) = Some ?x" by (simp add: h put_def)
  ultimately show ?thesis using c r(2) [of ?x] by (simp add: ptrVal_def r(1))
qed

text \<open>C32: A usage message is patched against the Bucket as it was. Whatever cells \<open>b\<close> shares inside itself,
  once \<open>patchUsageMessage\<close> has taken its base with \<open>DeepCopy\<close> and written the message through the pointer
  \<open>b.Status.Usage\<close>, the base still reads as the Bucket before, and \<open>b\<close> reads as that Bucket with
  exactly \<open>status.usage.message\<close> replaced, in a new \<open>UsageStatus\<close> when there was none. So the merge
  patch that compares the two carries \<open>status.usage\<close> and nothing else, as the model of the
  measurement, whose Buckets are values, has it.\<close>

theorem patch_base_kept:
  assumes am: "apimachinery am" and run: "usageMessagePatch am msg a h = (q, h')"
    and x: "asBucket (cells h a) = Some x"
    and typed: "\<forall>u. rst_Usage (rb_Status x) = Some u \<longrightarrow> asUsageStatus (cells h u) \<noteq> None"
    and below: "ptrAt asBucket bucketAt h (Some a) \<subseteq> {..<lim h}"
  shows "ptrVal asBucket bucketOf h' q = Some (bucketOf h x) \<and>
    ptrVal asBucket bucketOf h' (Some a) = Some (withUsageMessage msg (bucketOf h x))"
proof -
  note B = apimachinery.bucket_copies [OF am]
  obtain h1 where dc: "Bucket_DeepCopy am (Some a) h = (q, h1)"
    using run by (auto simp: usageMessagePatch_def split: prod.splits option.splits)
  from copying.copies [OF B dc below] x have e: "extends h h1" and q: "ptrVal asBucket bucketOf h1 q = Some (bucketOf h x)"
    and new: "ptrAt asBucket bucketAt h1 q \<subseteq> {lim h..<lim h1}" by (auto simp: ptrVal_def)
  have a: "a < lim h" and x1: "asBucket (cells h1 a) = Some x" using below e x by (auto simp: ptrAt_def extends_def)
  from copying.extended [OF B e below] x x1 have o: "bucketOf h1 x = bucketOf h x" by (simp add: ptrVal_def)
  show ?thesis
  proof (cases "rst_Usage (rb_Status x)")
    case (Some u)
    then obtain y where "asUsageStatus (cells h u) = Some y" using typed by auto
    moreover have u: "u < lim h" using below x Some by (auto simp: ptrAt_def bucketAt_def statusAt_def)
    ultimately have y: "asUsageStatus (cells h1 u) = Some y" using e by (simp add: extends_def)
    from run dc x1 Some have h': "h' = setUsageMessage u msg h1" by (simp add: usageMessagePatch_def)
    have "u \<notin> ptrAt asBucket bucketAt h1 q" using new u by auto
    then show ?thesis using copying.put_outside [OF B, of u h1 q] message_through_pointer [OF x1 Some y, of msg] q o y
      by (simp add: h' setUsageMessage_def)
  next
    case None
    define u where "u = lim h1"
    define h2 where "h2 = snd (alloc (UsageStatusC zeroRawUsage) h1)"
    from run dc x1 None have h': "h' = setUsageMessage u msg (setUsage a (Some u) h2)"
      by (simp add: usageMessagePatch_def h2_def alloc_def u_def)
    have e2: "extends h1 h2" and y2: "asUsageStatus (cells h2 u) = Some zeroRawUsage"
      by (simp_all add: h2_def u_def alloc_def put_def extends_def)
    have x2: "asBucket (cells h2 a) = Some x" using x1 a e e2 by (simp add: extends_def)
    have "ptrAt asBucket bucketAt h1 (Some a) \<subseteq> {..<lim h1}" using copying.extended [OF B e below] by simp
    from copying.extended [OF B e2 this] x1 x2 have o2: "bucketOf h2 x = bucketOf h x" by (simp add: ptrVal_def o)
    have q2: "ptrVal asBucket bucketOf h2 q = Some (bucketOf h x)" "ptrAt asBucket bucketAt h2 q = ptrAt asBucket bucketAt h1 q"
      using copying.kept [OF B e2 new] q by auto
    have "a \<notin> ptrAt asBucket bucketAt h2 q" "u \<notin> ptrAt asBucket bucketAt h2 q" using new a by (auto simp: q2(2) u_def)
    then have "ptrVal asBucket bucketOf h' q = Some (bucketOf h x)"
      using copying.put_outside [OF B, of a h2 q] copying.put_outside [OF B, of u "setUsage a (Some u) h2" q]
        q2(1) usage_replaced [OF x2 y2] by (simp add: h' setUsage_def setUsageMessage_def x2)
    moreover have "st_Usage (b_Status (bucketOf h x)) = None"
      using None o by (simp add: o [symmetric] bucketOf_def statusOf_def ptrVal_def split: prod.splits)
    moreover have "usageStatusOf h2 zeroRawUsage = zeroUsage"
      by (simp add: usageStatusOf_def zeroRawUsage_def zeroUsage_def ptrVal_def)
    ultimately show ?thesis using usage_replaced [OF x2 y2] o2
        message_through_pointer [of "setUsage a (Some u) h2" a "x\<lparr>rb_Status := (rb_Status x)\<lparr>rst_Usage := Some u\<rparr>\<rparr>" u zeroRawUsage msg]
      by (simp add: h' withUsageMessage_def)
  qed
qed

theorem patch_base_kept_witness:
  "let r = usageMessagePatch plainMachinery ''rate limited'' 0 sampleStore in
    (case ptrVal asBucket bucketOf (snd r) (fst r) of Some b \<Rightarrow> map_option u_Message (st_Usage (b_Status b)) | None \<Rightarrow> None) = Some [] \<and>
    (case ptrVal asBucket bucketOf (snd r) (Some 0) of Some b \<Rightarrow> map_option u_Message (st_Usage (b_Status b)) | None \<Rightarrow> None) =
      Some ''rate limited''"
proof -
  have b: "asBucket (cells sampleStore 0) = Some sampleRaw" by (simp add: sampleStore_def)
  have t: "\<forall>u. rst_Usage (rb_Status sampleRaw) = Some u \<longrightarrow> asUsageStatus (cells sampleStore u) \<noteq> None"
    by (simp add: sampleStore_def sampleRaw_def)
  have "map_option u_Message (st_Usage (b_Status (bucketOf sampleStore sampleRaw))) = Some []"
    by (simp add: bucketOf_def metaOf_def statusOf_def ptrVal_def usageStatusOf_def sampleRaw_def sampleStore_def)
  then show ?thesis
    using patch_base_kept [OF plain.apimachinery_axioms prod.collapse [symmetric] b t sampleStore_below, of "''rate limited''"]
    by (simp add: Let_def withUsageMessage_def)
qed

end
