(* ===== verification/Spec2Isabelle.thy ===== *)
theory Spec2Isabelle
  imports Startup Cleanup Retry Fleet FakeHTTP Drift DeepCopy
begin

text \<open>
  Verification of the STACKIT S3 provisioner: a Kubernetes operator that turns a \<open>Bucket\<close> resource
  into a bucket of STACKIT Object Storage with a credentials group, an access key in a Secret and an
  isolation policy that keeps every other workload out.

  \<^bold>\<open>The program.\<close> The provisioning controller (\<open>internal/controller/bucket_controller.go\<close>) reconciles one
  Bucket at a time. It reaches the provider through the control-plane client (\<open>stackit/client.go\<close>, with
  the retrying transport of \<open>stackit/retry.go\<close> beneath and the error classes of \<open>stackit/errors.go\<close>) and
  the data-plane client (\<open>stackit/s3.go\<close>), and the cluster through the Kubernetes client. A circuit
  breaker shared by all Buckets (\<open>breaker.go\<close>) withholds reconciles during an outage; a clone runs as a
  Job (\<open>clone.go\<close>); a second controller measures sizes (\<open>bucket_usage_controller.go\<close>,
  \<open>usage_config.go\<close>); a poller swaps the service-account key under the running client
  (\<open>stackit/keyreload.go\<close>, observed by \<open>sakey_reload.go\<close>); a collector exports gauges (\<open>metrics.go\<close>).
  \<open>cmd/main.go\<close> reads the settings and starts all of it; \<open>hack/e2ecleanup\<close> sweeps what tests left behind. The
  resource itself is \<open>api/v1/bucket_types.go\<close>, and \<open>internal/stackitfake/fake.go\<close> is the in-memory
  provider of the tests.

  \<^bold>\<open>The model.\<close> A record per struct, one definition per function, under the name it has in the source.
  Errors are values of \<open>go_error\<close> with their wrapping, so \<open>errors.As\<close> and \<open>errors.Is\<close> are walks over it.
  Code that is not part of the repository (the SDK, minio, the API server, the clock, randomness) is a
  record of functions over an abstract world \<open>'w\<close>; the state of a pass is that world, the object being
  reconciled, the breaker, the events and the history of external calls with their answers. A handler
  is a function from state to result and state; \<open>check\<close>, \<open>andThen\<close>, \<open>after\<close> and \<open>reads\<close> sequence handlers
  with the early returns of the code. A discipline says which calls may follow which history
  (\<open>disciplined\<close>), so ordering properties hold of every history whatever the world answers.

  \<^item> \<open>Prelude\<close>, \<open>Json\<close>: strings, maps, sequencing and its rules; \<open>encoding/json\<close>.
  \<^item> \<open>Errors\<close>, \<open>BucketTypes\<close>, \<open>Breaker\<close>: errors and their classes; the resource, names and Secret keys;
    the breaker as a locale \<open>circuit\<close> interpreted on the code.
  \<^item> \<open>Policy\<close>: the isolation policy as JSON text, an evaluation semantics for it, its parser and the
    drift check.
  \<^item> \<open>World\<close>, \<open>StackitClient\<close>, \<open>S3Client\<close>, \<open>FakeCloud\<close>: the boundary and its proof rules; the two clients;
    the in-memory provider, which is the concrete world of the witnesses and discharges the laws of
    \<open>steady\<close> (sleeping advances the clock) and \<open>apiserver\<close> (a stored object keeps its identity).
  \<^item> \<open>FakeHTTP\<close>: that provider as an HTTP server, with its routes and its JSON and XML answers.
  \<^item> \<open>Reconciler\<close>, \<open>Attribution\<close>, \<open>Clone\<close>, \<open>Provision\<close>, \<open>Teardown\<close>, \<open>Controller\<close>: status and failure
    recording; ownership, groups, keys and Secrets; the clone; the provisioning pass; the teardown;
    the entry point and the watches.
  \<^item> \<open>Drift\<close>: which deviation each write of a provisioning pass answers.
  \<^item> \<open>DeepCopy\<close>: the generated copies of \<open>zz_generated.deepcopy.go\<close> on a store of shared cells, read as the
    value records of \<open>BucketTypes\<close>; the locale \<open>copying\<close> is their contract, and \<open>apimachinery\<close> states it of
    the copies the library provides.
  \<^item> \<open>KeyReload\<close>, \<open>Retry\<close>, \<open>Usage\<close>, \<open>Metrics\<close>: the key poller and its observer; the transport; the
    measurement; the scrape.
  \<^item> \<open>Startup\<close>, \<open>Cleanup\<close>: the environment, the order of the start and its exits; the sweep.
  \<^item> \<open>Reports\<close>, \<open>Fleet\<close>: what a pass reports to the breaker; the running process as a step relation over the
    shared state, with passes, key polls, restarts and foreign changes of the world in any order.

  \<^bold>\<open>What is shown.\<close> Ordering (\<open>pass_discipline\<close>, \<open>teardown_discipline\<close>, \<open>finalizer_before_provider\<close>,
  \<open>finalizer_dropped_last\<close>, \<open>clone_completion_durable\<close>): writes and deletions happen only after the reads
  that justify them, and a pass writes only what it read to deviate (\<open>no_write_without_drift\<close>). Ownership (\<open>attribution_from_cloud_only\<close>, \<open>never_second_group\<close>,
  \<open>foreign_bucket_untouched\<close>): a group or bucket is used only on the evidence of the bucket's own tags
  or policy. Isolation (\<open>isolation_exact\<close>, \<open>isolation_no_lockout\<close>, \<open>drift_check_exact\<close>,
  \<open>workload_principal_roundtrip\<close>): the written text denies exactly what it should, is compared up to
  key order and space, and names its workload. Failures (\<open>credential_loss_never_silent\<close>,
  \<open>vanished_bucket_reported\<close>, \<open>hold_only_when_unverifiable\<close>, \<open>fail_records_failure\<close>,
  \<open>invalid_spec_reaches_nothing\<close>). The breaker against the sequence of outcomes it saw
  (\<open>breaker_opens_exactly\<close>, \<open>closed_gates\<close>). The key reload (\<open>bad_candidate_is_noop\<close>,
  \<open>project_never_changes\<close>, \<open>good_key_adopted\<close>, \<open>schedule_wellformed\<close>). The measurement never writes outside \<open>status.usage\<close>
  (\<open>usage_writes_only_usage\<close>, \<open>usage_interval_bounds\<close>) and its patches compare with the object as it was
  (\<open>deep_copy_separate\<close>, \<open>patch_base_kept\<close>), a scrape is always accepted
  (\<open>scrape_consistent\<close>), a write is never repeated by the transport
  (\<open>retry_only_safe_requests\<close>). A start never ignores a configured key (\<open>startup_key_policy\<close>) and yields legal
  names (\<open>started_names_compliant\<close>); the sweep stays within its prefixes (\<open>cleanup_confined\<close>). Over all
  interleavings of a process, every logged pass kept the rules (\<open>every_pass_lawful\<close>) and the breaker is the
  history of reports (\<open>breaker_is_history\<close>). The in-memory provider seen through its HTTP interface is the
  model of its operations (\<open>served_as_modelled\<close>). Three lemmas record behaviour that departs from the
  documentation: \<open>blocked_delete_feeds_breaker\<close>, \<open>unreadable_poll_drops_wait\<close> and \<open>sweep_leaves_admin_key\<close>.

  \<^bold>\<open>Fuel.\<close> The two polling loops of the client run on fuel: one step per poll interval until the
  deadline is enough (\<open>polling_terminates\<close>). The duration parser consumes a character per component,
  so the length of the text is enough (\<open>usage_interval_bounds\<close>). All other loops are structural.

  \<^bold>\<open>Numbers.\<close> Go's \<open>int64\<close> is \<open>int\<close>, with the wrap-around written out where a sum or product can leave
  the range; durations are nanoseconds; \<open>float64\<close> is rational arithmetic rounded to 53 bits.

  \<^bold>\<open>Not modelled.\<close> Parsing of the command line, of floats and of the resources JSON, running the manager,
  registration of the controllers and their rate limiter, log lines, the process counters kept by the
  Prometheus library, the registration of the API types, the XML decoder of the requests to the in-memory provider,
  construction of the SDK client and connection pools. The provisioning controller has one worker, so
  its passes are sequential; measurements and key polls are steps between them, which loses nothing as
  they meet a pass only in the breaker, whose operations are atomic, and in the provider, whose
  answers are arbitrary.
\<close>

section \<open>Across components\<close>

text \<open>C38: the names of a running operator are legal. If the operator starts, its reconciler composes for
  every Bucket whose spec names a legal bucket, in a namespace that is a DNS label, a name that
  \<open>ValidateBucketName\<close> accepts, unless the parts together are too short or too long.\<close>

theorem started_names_compliant:
  assumes "startOperator h env s = Inr d" and "isLabel (b_Namespace b)" and "bucketNameRe (sp_BucketName (b_Spec b))"
  shows "(ValidateBucketName (ComposeBucketName (r_Naming (bucketReconcilerOf s version client mc kube sys)) b) = None) =
    (let n = length (ComposeBucketName (r_Naming (bucketReconcilerOf s version client mc kube sys)) b) in
       minBucketNameLen \<le> n \<and> n \<le> maxBucketNameLen)"
proof -
  have "validateNaming (r_Naming (bucketReconcilerOf s version client mc kube sys)) = None"
    using started_parts [OF assms(1)] by (simp add: bucketReconcilerOf_def)
  from composeBucketName_re [OF this assms(2,3)] show ?thesis by (auto simp: ValidateBucketName_def Let_def)
qed

theorem started_names_compliant_witness:
  "ValidateBucketName (ComposeBucketName (r_Naming (bucketReconcilerOf (defaultSettings sampleEnv) ''v1'' (Some (fakeClient ''p1'' ''eu01''))
     fakeMinio fakeKube fakeSys)) sampleBucket) = None"
proof -
  have "\<not> (case startOperator sampleHost sampleEnv (defaultSettings sampleEnv) of Inl e \<Rightarrow> True | Inr d \<Rightarrow> False)" by code_simp
  then obtain d where d: "startOperator sampleHost sampleEnv (defaultSettings sampleEnv) = Inr d" by (auto split: sum.splits)
  have "isLabel (b_Namespace sampleBucket)" "bucketNameRe (sp_BucketName (b_Spec sampleBucket))" by code_simp+
  moreover have "minBucketNameLen \<le> length (ComposeBucketName (r_Naming (bucketReconcilerOf (defaultSettings sampleEnv) ''v1'' (Some (fakeClient ''p1'' ''eu01''))
      fakeMinio fakeKube fakeSys)) sampleBucket)" "length (ComposeBucketName (r_Naming (bucketReconcilerOf (defaultSettings sampleEnv) ''v1''
      (Some (fakeClient ''p1'' ''eu01'')) fakeMinio fakeKube fakeSys)) sampleBucket) \<le> maxBucketNameLen" by code_simp+
  ultimately show ?thesis using started_names_compliant [OF d] by (metis (no_types, lifting))
qed

end
